theory Spec2Isabelle
  imports Complex_Main "HOL-Library.Multiset"
begin

section \<open>Numbers of the run time\<close>

text \<open>
  A value of static type \<open>number\<close> is an IEEE double at run time. The model keeps the
  special values the code can produce and meet (\<open>NaN\<close>, the two infinities) and takes
  every finite double as the real number it denotes; the sign of zero is not modelled.
  The operations below compute on these values exactly; \<open>round_double\<close> rounds a result
  to the nearest double, and is applied in the split by distance from the origin, where
  a label depends on how a result is rounded; elsewhere a finite result is taken as it
  is. \<open>Undefined\<close> is what a read past the end of an array yields; the type checker does
  not see it, arithmetic converts it to \<open>NaN\<close>.
\<close>

datatype number = Undefined | NaN | NInf | Fin real | PInf

fun is_fin :: "number \<Rightarrow> bool" where
  "is_fin (Fin r) = True"
| "is_fin _ = False"

fun fin_val :: "number \<Rightarrow> real" where
  "fin_val (Fin r) = r"
| "fin_val _ = 0"

text \<open>The global \<open>isNaN\<close>: its argument is converted to a number first.\<close>

fun isNaN :: "number \<Rightarrow> bool" where
  "isNaN NaN = True"
| "isNaN Undefined = True"
| "isNaN _ = False"

fun num_neg :: "number \<Rightarrow> number" where
  "num_neg (Fin a) = Fin (- a)"
| "num_neg PInf = NInf"
| "num_neg NInf = PInf"
| "num_neg _ = NaN"

fun num_add :: "number \<Rightarrow> number \<Rightarrow> number" where
  "num_add (Fin a) (Fin b) = Fin (a + b)"
| "num_add (Fin a) PInf = PInf"
| "num_add PInf (Fin b) = PInf"
| "num_add PInf PInf = PInf"
| "num_add (Fin a) NInf = NInf"
| "num_add NInf (Fin b) = NInf"
| "num_add NInf NInf = NInf"
| "num_add _ _ = NaN"

definition num_sub :: "number \<Rightarrow> number \<Rightarrow> number" where
  "num_sub a b = num_add a (num_neg b)"

text \<open>The sign of a non-zero product with an infinite factor.\<close>

definition signed_inf :: "bool \<Rightarrow> number" where
  "signed_inf positive = (if positive then PInf else NInf)"

fun num_mul :: "number \<Rightarrow> number \<Rightarrow> number" where
  "num_mul (Fin a) (Fin b) = Fin (a * b)"
| "num_mul (Fin a) PInf = (if a = 0 then NaN else signed_inf (0 < a))"
| "num_mul (Fin a) NInf = (if a = 0 then NaN else signed_inf (a < 0))"
| "num_mul PInf (Fin b) = (if b = 0 then NaN else signed_inf (0 < b))"
| "num_mul NInf (Fin b) = (if b = 0 then NaN else signed_inf (b < 0))"
| "num_mul PInf PInf = PInf"
| "num_mul NInf NInf = PInf"
| "num_mul PInf NInf = NInf"
| "num_mul NInf PInf = NInf"
| "num_mul _ _ = NaN"

text \<open>
  Division. A zero divisor is taken as \<open>+0\<close>, which is what it is wherever the code
  divides (a difference of two non-negative integers).
\<close>

fun num_div :: "number \<Rightarrow> number \<Rightarrow> number" where
  "num_div (Fin a) (Fin b) =
     (if b = 0 then (if a = 0 then NaN else signed_inf (0 < a)) else Fin (a / b))"
| "num_div (Fin a) PInf = Fin 0"
| "num_div (Fin a) NInf = Fin 0"
| "num_div PInf (Fin b) = signed_inf (0 \<le> b)"
| "num_div NInf (Fin b) = signed_inf (b < 0)"
| "num_div _ _ = NaN"

fun num_lt :: "number \<Rightarrow> number \<Rightarrow> bool" where
  "num_lt (Fin a) (Fin b) = (a < b)"
| "num_lt (Fin a) PInf = True"
| "num_lt NInf (Fin b) = True"
| "num_lt NInf PInf = True"
| "num_lt _ _ = False"

definition num_gt :: "number \<Rightarrow> number \<Rightarrow> bool" where
  "num_gt a b = num_lt b a"

fun Math_sqrt :: "number \<Rightarrow> number" where
  "Math_sqrt (Fin a) = (if a < 0 then NaN else Fin (sqrt a))"
| "Math_sqrt PInf = PInf"
| "Math_sqrt _ = NaN"

text \<open>
  Rounding to the nearest double (binary64), a tie going to the even significand. A
  number in the binade \<open>[2^e, 2^(e+1))\<close> is rounded to a multiple of \<open>2^(e-52)\<close>; below
  \<open>2^(-1022)\<close> the doubles are the multiples of \<open>2^(-1074)\<close>; a result of magnitude
  \<open>2^1024\<close> or more is the infinity of its sign.
\<close>

definition round_half_even :: "real \<Rightarrow> int" where
  "round_half_even t =
     (let f = \<lfloor>t\<rfloor>; d = t - of_int f
      in if d < 1 / 2 then f else if 1 / 2 < d then f + 1 else if even f then f else f + 1)"

definition double_exponent :: "real \<Rightarrow> int" where
  "double_exponent r = (if r = 0 then - 1022 else max \<lfloor>log 2 \<bar>r\<bar>\<rfloor> (- 1022))"

definition ulp :: "real \<Rightarrow> real" where
  "ulp r = 2 powi (double_exponent r - 52)"

definition nearest_double :: "real \<Rightarrow> real" where
  "nearest_double r = of_int (round_half_even (r / ulp r)) * ulp r"

fun round_double :: "number \<Rightarrow> number" where
  "round_double (Fin r) =
     (if 2 ^ 1024 \<le> \<bar>nearest_double r\<bar> then signed_inf (0 < r) else Fin (nearest_double r))"
| "round_double v = v"

text \<open>\<open>Math.pow(v, 2)\<close>.\<close>

fun Math_pow2 :: "number \<Rightarrow> number" where
  "Math_pow2 (Fin a) = Fin (a ^ 2)"
| "Math_pow2 PInf = PInf"
| "Math_pow2 NInf = PInf"
| "Math_pow2 _ = NaN"

fun Math_cos :: "number \<Rightarrow> number" where
  "Math_cos (Fin a) = Fin (cos a)"
| "Math_cos _ = NaN"

fun Math_sin :: "number \<Rightarrow> number" where
  "Math_sin (Fin a) = Fin (sin a)"
| "Math_sin _ = NaN"

text \<open>\<open>Math.max\<close> of two arguments: \<open>NaN\<close> as soon as one argument is.\<close>

fun Math_max :: "number \<Rightarrow> number \<Rightarrow> number" where
  "Math_max (Fin a) (Fin b) = Fin (max a b)"
| "Math_max PInf (Fin b) = PInf"
| "Math_max (Fin a) PInf = PInf"
| "Math_max PInf PInf = PInf"
| "Math_max PInf NInf = PInf"
| "Math_max NInf PInf = PInf"
| "Math_max NInf (Fin b) = Fin b"
| "Math_max (Fin a) NInf = Fin a"
| "Math_max NInf NInf = NInf"
| "Math_max _ _ = NaN"

text \<open>
  \<open>parseFloat(v.toFixed(3))\<close>: \<open>toFixed\<close> rounds the magnitude to the nearest multiple of
  \<open>1/1000\<close>, the larger one at a tie, and keeps the sign; from \<open>10^21\<close> on it prints the
  number itself. \<open>NaN\<close> and the infinities print as their names, which \<open>parseFloat\<close>
  reads back (\<open>NaN\<close> as a failed parse).
\<close>

definition round_magnitude_3 :: "real \<Rightarrow> real" where
  "round_magnitude_3 v = real_of_int \<lfloor>v * 1000 + 1 / 2\<rfloor> / 1000"

fun toFixed_3 :: "number \<Rightarrow> number" where
  "toFixed_3 (Fin v) =
     (if 10 ^ 21 \<le> \<bar>v\<bar> then Fin v
      else if v < 0 then Fin (- round_magnitude_3 (- v))
      else Fin (round_magnitude_3 v))"
| "toFixed_3 PInf = PInf"
| "toFixed_3 NInf = NInf"
| "toFixed_3 _ = NaN"

section \<open>The random source\<close>

text \<open>
  \<open>Math.random()\<close> returns a number in \<open>[0, 1)\<close>. A run of the program reads a sequence
  of such draws; a call takes the head of the sequence and leaves the rest.
\<close>

typedef unit_interval = "{r :: real. 0 \<le> r \<and> r < 1}"
  morphisms draw_value Draw
  by (rule exI [of _ 0]) simp

type_synonym draws = "nat \<Rightarrow> unit_interval"

definition Math_random :: "draws \<Rightarrow> real \<times> draws" where
  "Math_random s = (draw_value (s 0), \<lambda>i. s (Suc i))"

text \<open>A callback that draws, run over the elements of an array from left to right.\<close>

fun map_draws :: "('a \<Rightarrow> draws \<Rightarrow> 'b \<times> draws) \<Rightarrow> 'a list \<Rightarrow> draws \<Rightarrow> 'b list \<times> draws" where
  "map_draws f [] s = ([], s)"
| "map_draws f (a # rest) s =
     (let (b, s1) = f a s; (bs, s2) = map_draws f rest s1 in (b # bs, s2))"

section \<open>Data model (types.ts)\<close>

record Point =
  x :: number
  y :: number
  cluster :: "int option"

record Metrics =
  silhouette :: number
  calinskiHarabasz :: number
  daviesBouldin :: number

datatype DatasetType = Moons | Blobs | Circles | Custom

datatype LinkageType = ward | complete | average | single

text \<open>The parameter objects handed to the four runs and kept in their results.\<close>

datatype Params =
  ClusterParams int
| AgglomerativeParams int LinkageType
| DBSCANParams number

text \<open>
  A result holds its points in \<open>data\<close>: the list of the points themselves where the
  runs are taken as functions of values, the address of an array where they are taken
  on a store of objects.
\<close>

record 'd ClusterResult =
  algorithm :: string
  data :: 'd
  metrics :: Metrics
  params :: Params

record AlgorithmParameters =
  spectral_n_clusters :: int
  kmeans_n_clusters :: int
  agglomerative_n_clusters :: int
  agglomerative_linkage :: LinkageType
  dbscan_eps :: number

section \<open>Dataset generation (clusteringService.ts)\<close>

text \<open>\<open>(Math.random() - 0.5) * noise * 2\<close>, for the draw \<open>r\<close>.\<close>

definition jitter :: "real \<Rightarrow> number \<Rightarrow> number" where
  "jitter r noise = num_mul (num_mul (num_sub (Fin r) (Fin 0.5)) noise) (Fin 2)"

text \<open>
  The generators are private to the module and only called with their default
  parameters, which the model binds in place (\<open>noise\<close>, \<open>centers\<close>, \<open>cluster_std\<close>,
  \<open>factor\<close>). The sample count is an integer; the loop \<open>for (i = 0; i < n; i++)\<close> runs
  over \<open>[0..<nat n]\<close>.
\<close>

definition moons_top_point :: "int \<Rightarrow> number \<Rightarrow> nat \<Rightarrow> draws \<Rightarrow> Point \<times> draws" where
  "moons_top_point n_samples_out noise i s =
     (let angle = num_mul (num_div (Fin (real i)) (Fin (real_of_int (n_samples_out - 1)))) (Fin pi);
          (r1, s1) = Math_random s;
          px = num_add (Math_cos angle) (jitter r1 noise);
          (r2, s2) = Math_random s1;
          py = num_add (Math_sin angle) (jitter r2 noise)
      in (\<lparr>x = px, y = py, cluster = None\<rparr>, s2))"

definition moons_bottom_point :: "int \<Rightarrow> number \<Rightarrow> nat \<Rightarrow> draws \<Rightarrow> Point \<times> draws" where
  "moons_bottom_point n_samples_in noise i s =
     (let angle = num_mul (num_div (Fin (real i)) (Fin (real_of_int (n_samples_in - 1)))) (Fin pi);
          (r1, s1) = Math_random s;
          px = num_add (num_sub (Fin 1) (Math_cos angle)) (jitter r1 noise);
          (r2, s2) = Math_random s1;
          py = num_add (num_sub (Fin 0.5) (Math_sin angle)) (jitter r2 noise)
      in (\<lparr>x = px, y = py, cluster = None\<rparr>, s2))"

definition generateMoons :: "int \<Rightarrow> draws \<Rightarrow> Point list \<times> draws" where
  "generateMoons n_samples s =
     (let noise = Fin 0.08;
          n_samples_out = n_samples div 2;
          n_samples_in = n_samples - n_samples_out;
          (top, s1) = map_draws (moons_top_point n_samples_out noise) [0..<nat n_samples_out] s;
          (bottom, s2) = map_draws (moons_bottom_point n_samples_in noise) [0..<nat n_samples_in] s1
      in (top @ bottom, s2))"

definition blobs_center :: "nat \<Rightarrow> draws \<Rightarrow> Point \<times> draws" where
  "blobs_center j s =
     (let (r1, s1) = Math_random s;
          cx = num_mul (num_sub (Fin r1) (Fin 0.5)) (Fin 8);
          (r2, s2) = Math_random s1;
          cy = num_mul (num_sub (Fin r2) (Fin 0.5)) (Fin 8)
      in (\<lparr>x = cx, y = cy, cluster = None\<rparr>, s2))"

definition blobs_point :: "Point list \<Rightarrow> nat \<Rightarrow> number \<Rightarrow> nat \<Rightarrow> draws \<Rightarrow> Point \<times> draws" where
  "blobs_point centerPoints centers cluster_std i s =
     (let center = centerPoints ! (i mod centers);
          (r1, s1) = Math_random s;
          px = num_add (x center) (num_mul (num_mul (num_sub (Fin r1) (Fin 0.5)) (Fin 2)) cluster_std);
          (r2, s2) = Math_random s1;
          py = num_add (y center) (num_mul (num_mul (num_sub (Fin r2) (Fin 0.5)) (Fin 2)) cluster_std)
      in (\<lparr>x = px, y = py, cluster = None\<rparr>, s2))"

definition generateBlobs :: "int \<Rightarrow> draws \<Rightarrow> Point list \<times> draws" where
  "generateBlobs n_samples s =
     (let centers = 3;
          cluster_std = Fin 0.5;
          (centerPoints, s1) = map_draws blobs_center [0..<centers] s
      in map_draws (blobs_point centerPoints centers cluster_std) [0..<nat n_samples] s1)"

definition circles_point :: "int \<Rightarrow> number \<Rightarrow> number \<Rightarrow> nat \<Rightarrow> draws \<Rightarrow> Point \<times> draws" where
  "circles_point n_samples factor noise i s =
     (let is_outer = (real_of_int n_samples / 2 \<le> real i);
          r = (if is_outer then Fin 1.0 else factor);
          (r0, s0) = Math_random s;
          angle = num_mul (num_mul (Fin r0) (Fin 2)) (Fin pi);
          (r1, s1) = Math_random s0;
          px = num_add (num_mul r (Math_cos angle)) (jitter r1 noise);
          (r2, s2) = Math_random s1;
          py = num_add (num_mul r (Math_sin angle)) (jitter r2 noise)
      in (\<lparr>x = px, y = py, cluster = None\<rparr>, s2))"

definition generateCircles :: "int \<Rightarrow> draws \<Rightarrow> Point list \<times> draws" where
  "generateCircles n_samples s =
     (let factor = Fin 0.5;
          noise = Fin 0.05
      in map_draws (circles_point n_samples factor noise) [0..<nat n_samples] s)"

fun generateDataset :: "DatasetType \<Rightarrow> int \<Rightarrow> draws \<Rightarrow> Point list \<times> draws" where
  "generateDataset Moons n_samples s = generateMoons n_samples s"
| "generateDataset Blobs n_samples s = generateBlobs n_samples s"
| "generateDataset Circles n_samples s = generateCircles n_samples s"
| "generateDataset Custom n_samples s = ([], s)"

section \<open>Mock assignment (clusteringService.ts)\<close>

text \<open>
  \<open>Array.prototype.sort\<close> with a comparison function: the sort is stable, and a
  comparison result that is \<open>NaN\<close> counts as \<open>0\<close>. The model is the stable insertion
  sort; where the comparison function is not a consistent order (some key is \<open>NaN\<close>),
  the language leaves the resulting order to the implementation, and only the length
  of the result is relied on.
\<close>

fun insert_sorted :: "('a \<Rightarrow> 'a \<Rightarrow> number) \<Rightarrow> 'a \<Rightarrow> 'a list \<Rightarrow> 'a list" where
  "insert_sorted comparefn a [] = [a]"
| "insert_sorted comparefn a (b # bs) =
     (if num_gt (comparefn a b) (Fin 0) then b # insert_sorted comparefn a bs else a # b # bs)"

definition Array_sort :: "('a \<Rightarrow> 'a \<Rightarrow> number) \<Rightarrow> 'a list \<Rightarrow> 'a list" where
  "Array_sort comparefn xs = foldr (insert_sorted comparefn) xs []"

definition compare_x :: "Point \<Rightarrow> Point \<Rightarrow> number" where
  "compare_x a b = num_sub (x a) (x b)"

definition xsplit_cluster :: "int \<Rightarrow> nat \<Rightarrow> nat \<Rightarrow> int" where
  "xsplit_cluster k totalPoints index =
     min (k - 1) \<lfloor>(real index / real totalPoints) * real_of_int k\<rfloor>"

definition assignClustersByXSplit :: "Point list \<Rightarrow> int \<Rightarrow> Point list" where
  "assignClustersByXSplit pts k =
     (if length pts = 0 \<or> k \<le> 0 then []
      else let sortedData = Array_sort compare_x pts;
               totalPoints = length sortedData
           in map (\<lambda>(point, index). point\<lparr>cluster := Some (xsplit_cluster k totalPoints index)\<rparr>)
                (zip sortedData [0..<totalPoints]))"

text \<open>
  The distance of a point from a centroid, in exact arithmetic: \<open>Math.pow\<close> is an
  approximation that the language leaves to the implementation.
\<close>

definition distance :: "Point \<Rightarrow> Point \<Rightarrow> number" where
  "distance point mean =
     Math_sqrt (num_add (Math_pow2 (num_sub (x point) (x mean)))
                        (Math_pow2 (num_sub (y point) (y mean))))"

text \<open>
  The \<open>forEach\<close> over the centroids, with the two variables it updates:
  \<open>closestMeanIndex\<close> and \<open>minDistance\<close>.
\<close>

fun forEach_means :: "Point \<Rightarrow> Point list \<Rightarrow> nat \<Rightarrow> int \<times> number \<Rightarrow> int \<times> number" where
  "forEach_means point [] index st = st"
| "forEach_means point (mean # means) index (closestMeanIndex, minDistance) =
     (let d = distance point mean
      in forEach_means point means (Suc index)
           (if num_lt d minDistance then (int index, d) else (closestMeanIndex, minDistance)))"

definition closest_mean :: "Point list \<Rightarrow> Point \<Rightarrow> Point" where
  "closest_mean means point =
     point\<lparr>cluster := Some (fst (forEach_means point means 0 (0, PInf)))\<rparr>"

text \<open>
  \<open>Array.from({ length: k }, () => data[Math.floor(Math.random() * data.length)])\<close>:
  the index is below \<open>data.length\<close> because the draw is below \<open>1\<close>.
\<close>

fun pick_means :: "'a list \<Rightarrow> nat \<Rightarrow> draws \<Rightarrow> 'a list \<times> draws" where
  "pick_means pts 0 s = ([], s)"
| "pick_means pts (Suc j) s =
     (let (r, s1) = Math_random s;
          mean = pts ! nat \<lfloor>r * real (length pts)\<rfloor>;
          (means, s2) = pick_means pts j s1
      in (mean # means, s2))"

definition assignClustersByCentroids :: "Point list \<Rightarrow> int \<Rightarrow> draws \<Rightarrow> Point list \<times> draws" where
  "assignClustersByCentroids pts k s =
     (if length pts = 0 \<or> k \<le> 0 then ([], s)
      else let (means, s1) = pick_means pts (nat k) s
           in (map (closest_mean means) pts, s1))"

section \<open>Metric synthesizer (clusteringService.ts, generateMockMetrics)\<close>

definition generateMockMetrics :: "Point list \<Rightarrow> draws \<Rightarrow> Metrics \<times> draws" where
  "generateMockMetrics pts s =
     (let (r1, s1) = Math_random s;
          silhouette_raw = num_sub (num_mul (Fin r1) (Fin 1.6)) (Fin 0.6);
          (r2, s2) = Math_random s1;
          calinskiHarabasz_raw = num_add (num_mul (Fin r2) (Fin 500)) (Fin 50);
          (r3, s3) = Math_random s2;
          daviesBouldin_raw = num_add (num_mul (Fin r3) (Fin 1.5)) (Fin 0.3)
      in (\<lparr>silhouette = toFixed_3 silhouette_raw,
           calinskiHarabasz = toFixed_3 calinskiHarabasz_raw,
           daviesBouldin = toFixed_3 daviesBouldin_raw\<rparr>, s3))"

section \<open>The four runs (clusteringService.ts)\<close>

text \<open>The split by half of the index, used for the moons.\<close>

definition half_index_split :: "Point list \<Rightarrow> Point list" where
  "half_index_split pts =
     (let n_samples_out = length pts div 2
      in map (\<lambda>(p, index). p\<lparr>cluster := Some (if index < n_samples_out then 0 else 1)\<rparr>)
           (zip pts [0..<length pts]))"

text \<open>
  The split by distance from the origin, used for the circles. The distance is
  \<open>Math.sqrt(p.x * p.x + p.y * p.y)\<close>: each product, their sum and the square root are
  doubles, the exact results rounded.
\<close>

definition radius_split :: "Point list \<Rightarrow> Point list" where
  "radius_split pts =
     (let radius_threshold = Fin 0.75
      in map (\<lambda>p. let dist = round_double (Math_sqrt (round_double
                         (num_add (round_double (num_mul (x p) (x p)))
                                  (round_double (num_mul (y p) (y p))))))
                  in p\<lparr>cluster := Some (if num_gt dist radius_threshold then 0 else 1)\<rparr>) pts)"

definition runSpectralClustering ::
  "Point list \<Rightarrow> int \<Rightarrow> DatasetType \<Rightarrow> draws \<Rightarrow> Point list ClusterResult \<times> draws" where
  "runSpectralClustering pts n_clusters datasetType s =
     (let (clusteredData, s1) =
            (case datasetType of
               Moons \<Rightarrow> (half_index_split pts, s)
             | Circles \<Rightarrow> (radius_split pts, s)
             | _ \<Rightarrow> assignClustersByCentroids pts n_clusters s);
          (m, s2) = generateMockMetrics clusteredData s1
      in (\<lparr>algorithm = ''Spectral Clustering'', data = clusteredData, metrics = m,
           params = ClusterParams n_clusters\<rparr>, s2))"

definition runKMeans ::
  "Point list \<Rightarrow> int \<Rightarrow> DatasetType \<Rightarrow> draws \<Rightarrow> Point list ClusterResult \<times> draws" where
  "runKMeans pts n_clusters datasetType s =
     (let (clusteredData, s1) =
            (case datasetType of
               Moons \<Rightarrow> (assignClustersByXSplit pts n_clusters, s)
             | Circles \<Rightarrow> (assignClustersByXSplit pts n_clusters, s)
             | _ \<Rightarrow> assignClustersByCentroids pts n_clusters s);
          (m, s2) = generateMockMetrics clusteredData s1
      in (\<lparr>algorithm = ''K-Means'', data = clusteredData, metrics = m,
           params = ClusterParams n_clusters\<rparr>, s2))"

definition runAgglomerativeClustering ::
  "Point list \<Rightarrow> int \<Rightarrow> LinkageType \<Rightarrow> DatasetType \<Rightarrow> draws \<Rightarrow> Point list ClusterResult \<times> draws" where
  "runAgglomerativeClustering pts n_clusters linkage datasetType s =
     (let (clusteredData, s1) =
            (case datasetType of
               Moons \<Rightarrow> (assignClustersByXSplit pts n_clusters, s)
             | Circles \<Rightarrow> (assignClustersByXSplit pts n_clusters, s)
             | _ \<Rightarrow> assignClustersByCentroids pts n_clusters s);
          (m, s2) = generateMockMetrics clusteredData s1
      in (\<lparr>algorithm = ''Agglomerative Clustering'', data = clusteredData, metrics = m,
           params = AgglomerativeParams n_clusters linkage\<rparr>, s2))"

text \<open>
  The noise loop of the DBSCAN mock: \<open>noiseCount\<close> times, a random position of
  \<open>clusteredData\<close> has its \<open>cluster\<close> field overwritten. The objects of \<open>clusteredData\<close>
  were made one per position by the assignment before, so an update reaches one
  position only.
\<close>

fun mark_noise :: "nat \<Rightarrow> Point list \<Rightarrow> draws \<Rightarrow> Point list \<times> draws" where
  "mark_noise 0 clusteredData s = (clusteredData, s)"
| "mark_noise (Suc n) clusteredData s =
     (let (r, s1) = Math_random s;
          randomIndex = nat \<lfloor>r * real (length clusteredData)\<rfloor>
      in mark_noise n
           (clusteredData[randomIndex := (clusteredData ! randomIndex)\<lparr>cluster := Some (- 1)\<rparr>]) s1)"

definition runDBSCAN ::
  "Point list \<Rightarrow> number \<Rightarrow> DatasetType \<Rightarrow> draws \<Rightarrow> Point list ClusterResult \<times> draws" where
  "runDBSCAN pts eps datasetType s =
     (let (clusteredData, s1) =
            (case datasetType of
               Moons \<Rightarrow> (half_index_split pts, s)
             | Circles \<Rightarrow> (radius_split pts, s)
             | _ \<Rightarrow>
                 (let k = 3;
                      (assigned, s0) = assignClustersByCentroids pts k s;
                      noiseCount = nat \<lfloor>real (length pts) * 0.05\<rfloor>
                  in mark_noise noiseCount assigned s0));
          (m, s2) = generateMockMetrics clusteredData s1
      in (\<lparr>algorithm = ''DBSCAN'', data = clusteredData, metrics = m,
           params = DBSCANParams eps\<rparr>, s2))"

section \<open>The four runs on a store of objects\<close>

text \<open>
  Points are objects and arrays hold references to them, so a run could change what
  its caller sees: by sorting the caller's array in place, or by writing a field of a
  caller's point. To decide whether one does, the runs are modelled a second time on an
  explicit store. An address is a position in the store; a new object or array is
  put at the end, at an address not used before.
\<close>

record Store =
  objects :: "Point list"
  arrays :: "nat list list"

definition new_object :: "Point \<Rightarrow> Store \<Rightarrow> nat \<times> Store" where
  "new_object p h = (length (objects h), h\<lparr>objects := objects h @ [p]\<rparr>)"

definition new_array :: "nat list \<Rightarrow> Store \<Rightarrow> nat \<times> Store" where
  "new_array refs h = (length (arrays h), h\<lparr>arrays := arrays h @ [refs]\<rparr>)"

text \<open>
  \<open>array.map(callback)\<close> where the callback returns an object literal: every position
  gets an object of its own, built from the point read there, and the references go
  into a new array. The callback may read the store.
\<close>

fun map_new :: "(Store \<Rightarrow> Point \<Rightarrow> nat \<Rightarrow> Point) \<Rightarrow> nat list \<Rightarrow> nat \<Rightarrow> Store
    \<Rightarrow> nat list \<times> Store" where
  "map_new f [] index h = ([], h)"
| "map_new f (r # rs) index h =
     (let (r', h1) = new_object (f h (objects h ! r) index) h;
          (rs', h2) = map_new f rs (Suc index) h1
      in (r' # rs', h2))"

definition Array_map :: "(Store \<Rightarrow> Point \<Rightarrow> nat \<Rightarrow> Point) \<Rightarrow> nat \<Rightarrow> Store \<Rightarrow> nat \<times> Store" where
  "Array_map f a h = (let (refs, h1) = map_new f (arrays h ! a) 0 h in new_array refs h1)"

text \<open>\<open>[...data].sort(...)\<close>: the copy is a new array, and it is the copy that is sorted.\<close>

definition store_assignClustersByXSplit :: "nat \<Rightarrow> int \<Rightarrow> Store \<Rightarrow> nat \<times> Store" where
  "store_assignClustersByXSplit dat k h =
     (if length (arrays h ! dat) = 0 \<or> k \<le> 0 then new_array [] h
      else let (sortedData, h1) = new_array (arrays h ! dat) h;
               h2 = h1\<lparr>arrays := (arrays h1)[sortedData :=
                      Array_sort (\<lambda>a b. num_sub (x (objects h1 ! a)) (x (objects h1 ! b)))
                        (arrays h1 ! sortedData)]\<rparr>;
               totalPoints = length (arrays h2 ! sortedData)
           in Array_map (\<lambda>h' point index.
                  point\<lparr>cluster := Some (xsplit_cluster k totalPoints index)\<rparr>) sortedData h2)"

definition store_assignClustersByCentroids ::
    "nat \<Rightarrow> int \<Rightarrow> Store \<Rightarrow> draws \<Rightarrow> (nat \<times> Store) \<times> draws" where
  "store_assignClustersByCentroids dat k h s =
     (if length (arrays h ! dat) = 0 \<or> k \<le> 0 then (new_array [] h, s)
      else let (mean_refs, s1) = pick_means (arrays h ! dat) (nat k) s;
               (means, h1) = new_array mean_refs h
           in (Array_map (\<lambda>h' point index.
                   closest_mean (map (\<lambda>r. objects h' ! r) (arrays h' ! means)) point) dat h1,
               s1))"

definition store_half_index_split :: "nat \<Rightarrow> Store \<Rightarrow> nat \<times> Store" where
  "store_half_index_split dat h =
     (let n_samples_out = length (arrays h ! dat) div 2
      in Array_map (\<lambda>h' p index. p\<lparr>cluster := Some (if index < n_samples_out then 0 else 1)\<rparr>)
           dat h)"

definition store_radius_split :: "nat \<Rightarrow> Store \<Rightarrow> nat \<times> Store" where
  "store_radius_split dat h =
     (let radius_threshold = Fin 0.75
      in Array_map (\<lambda>h' p index.
             let dist = round_double (Math_sqrt (round_double
                          (num_add (round_double (num_mul (x p) (x p)))
                                   (round_double (num_mul (y p) (y p))))))
             in p\<lparr>cluster := Some (if num_gt dist radius_threshold then 0 else 1)\<rparr>) dat h)"

text \<open>The points an array of the store holds, in its order.\<close>

definition view :: "Store \<Rightarrow> nat \<Rightarrow> Point list" where
  "view h a = map (\<lambda>r. objects h ! r) (arrays h ! a)"

definition store_runSpectralClustering ::
    "nat \<Rightarrow> int \<Rightarrow> DatasetType \<Rightarrow> Store \<Rightarrow> draws \<Rightarrow> (nat ClusterResult \<times> Store) \<times> draws" where
  "store_runSpectralClustering dat n_clusters datasetType h s =
     (let ((clusteredData, h1), s1) =
            (case datasetType of
               Moons \<Rightarrow> (store_half_index_split dat h, s)
             | Circles \<Rightarrow> (store_radius_split dat h, s)
             | _ \<Rightarrow> store_assignClustersByCentroids dat n_clusters h s);
          (m, s2) = generateMockMetrics (view h1 clusteredData) s1
      in ((\<lparr>algorithm = ''Spectral Clustering'', data = clusteredData, metrics = m,
            params = ClusterParams n_clusters\<rparr>, h1), s2))"

definition store_runKMeans ::
    "nat \<Rightarrow> int \<Rightarrow> DatasetType \<Rightarrow> Store \<Rightarrow> draws \<Rightarrow> (nat ClusterResult \<times> Store) \<times> draws" where
  "store_runKMeans dat n_clusters datasetType h s =
     (let ((clusteredData, h1), s1) =
            (case datasetType of
               Moons \<Rightarrow> (store_assignClustersByXSplit dat n_clusters h, s)
             | Circles \<Rightarrow> (store_assignClustersByXSplit dat n_clusters h, s)
             | _ \<Rightarrow> store_assignClustersByCentroids dat n_clusters h s);
          (m, s2) = generateMockMetrics (view h1 clusteredData) s1
      in ((\<lparr>algorithm = ''K-Means'', data = clusteredData, metrics = m,
            params = ClusterParams n_clusters\<rparr>, h1), s2))"

definition store_runAgglomerativeClustering ::
    "nat \<Rightarrow> int \<Rightarrow> LinkageType \<Rightarrow> DatasetType \<Rightarrow> Store \<Rightarrow> draws
     \<Rightarrow> (nat ClusterResult \<times> Store) \<times> draws" where
  "store_runAgglomerativeClustering dat n_clusters linkage datasetType h s =
     (let ((clusteredData, h1), s1) =
            (case datasetType of
               Moons \<Rightarrow> (store_assignClustersByXSplit dat n_clusters h, s)
             | Circles \<Rightarrow> (store_assignClustersByXSplit dat n_clusters h, s)
             | _ \<Rightarrow> store_assignClustersByCentroids dat n_clusters h s);
          (m, s2) = generateMockMetrics (view h1 clusteredData) s1
      in ((\<lparr>algorithm = ''Agglomerative Clustering'', data = clusteredData, metrics = m,
            params = AgglomerativeParams n_clusters linkage\<rparr>, h1), s2))"

text \<open>
  The noise loop on the store: \<open>clusteredData[randomIndex].cluster = -1\<close> writes the
  field of the object that the position refers to.
\<close>

fun store_mark_noise :: "nat \<Rightarrow> nat \<Rightarrow> Store \<Rightarrow> draws \<Rightarrow> (nat \<times> Store) \<times> draws" where
  "store_mark_noise 0 clusteredData h s = ((clusteredData, h), s)"
| "store_mark_noise (Suc n) clusteredData h s =
     (let (r, s1) = Math_random s;
          randomIndex = nat \<lfloor>r * real (length (arrays h ! clusteredData))\<rfloor>;
          target = arrays h ! clusteredData ! randomIndex
      in store_mark_noise n clusteredData
           (h\<lparr>objects := (objects h)[target := (objects h ! target)\<lparr>cluster := Some (- 1)\<rparr>]\<rparr>) s1)"

definition store_runDBSCAN ::
    "nat \<Rightarrow> number \<Rightarrow> DatasetType \<Rightarrow> Store \<Rightarrow> draws \<Rightarrow> (nat ClusterResult \<times> Store) \<times> draws" where
  "store_runDBSCAN dat eps datasetType h s =
     (let ((clusteredData, h1), s1) =
            (case datasetType of
               Moons \<Rightarrow> (store_half_index_split dat h, s)
             | Circles \<Rightarrow> (store_radius_split dat h, s)
             | _ \<Rightarrow>
                 (let k = 3;
                      ((assigned, h0), s0) = store_assignClustersByCentroids dat k h s;
                      noiseCount = nat \<lfloor>real (length (arrays h ! dat)) * 0.05\<rfloor>
                  in store_mark_noise noiseCount assigned h0 s0));
          (m, s2) = generateMockMetrics (view h1 clusteredData) s1
      in ((\<lparr>algorithm = ''DBSCAN'', data = clusteredData, metrics = m,
            params = DBSCANParams eps\<rparr>, h1), s2))"

section \<open>CSV parsing (clusteringService.ts, parseCSV)\<close>

text \<open>
  Text is a list of characters of eight bits, the code units \<open>0\<close> to \<open>255\<close>. The white
  space of \<open>trim\<close> and of \<open>parseFloat\<close> is the language's white space and line
  terminators; among these code units they are tab, line feed, vertical tab, form feed,
  carriage return, space and the no-break space \<open>U+00A0\<close>.
\<close>

definition is_space :: "char \<Rightarrow> bool" where
  "is_space c = ((of_char c :: nat) \<in> {9, 10, 11, 12, 13, 32, 160})"

definition trim :: "string \<Rightarrow> string" where
  "trim str = rev (dropWhile is_space (rev (dropWhile is_space str)))"

text \<open>\<open>String.prototype.split\<close> with a separator of one character.\<close>

fun split :: "char \<Rightarrow> string \<Rightarrow> string list" where
  "split sep [] = [[]]"
| "split sep (c # cs) =
     (if c = sep then [] # split sep cs
      else (case split sep cs of [] \<Rightarrow> [[c]] | r # rs \<Rightarrow> (c # r) # rs))"

definition is_digit :: "char \<Rightarrow> bool" where
  "is_digit c = (48 \<le> (of_char c :: nat) \<and> (of_char c :: nat) \<le> 57)"

definition digit_value :: "char \<Rightarrow> nat" where
  "digit_value c = of_char c - 48"

definition digits_value :: "string \<Rightarrow> nat" where
  "digits_value ds = foldl (\<lambda>acc c. 10 * acc + digit_value c) 0 ds"

definition ten_power :: "int \<Rightarrow> real" where
  "ten_power e = (if 0 \<le> e then 10 ^ nat e else 1 / 10 ^ nat (- e))"

text \<open>
  The exponent of a decimal literal: \<open>e\<close> or \<open>E\<close>, an optional sign and digits. Without
  a digit there is no exponent part, and the exponent is \<open>0\<close>.
\<close>

definition exponent_part :: "string \<Rightarrow> int" where
  "exponent_part str =
     (case str of
        [] \<Rightarrow> 0
      | e # rest \<Rightarrow>
          if e = CHR ''e'' \<or> e = CHR ''E'' then
            (case rest of
               [] \<Rightarrow> 0
             | sign # ds \<Rightarrow>
                 if sign = CHR ''+'' then int (digits_value (takeWhile is_digit ds))
                 else if sign = CHR ''-'' then - int (digits_value (takeWhile is_digit ds))
                 else int (digits_value (takeWhile is_digit rest)))
          else 0)"

text \<open>
  The longest prefix that is an unsigned decimal literal (\<open>Infinity\<close>, or digits with an
  optional fraction and exponent, or a fraction that starts with the point), and its
  value; \<open>NaN\<close> when no prefix is one. The value is the decimal number itself, not
  rounded to a double.
\<close>

definition unsigned_decimal :: "string \<Rightarrow> number" where
  "unsigned_decimal str =
     (if take 8 str = ''Infinity'' then PInf
      else let int_digits = takeWhile is_digit str;
               rest = dropWhile is_digit str;
               (frac_digits, rest') =
                 (case rest of
                    [] \<Rightarrow> ([], rest)
                  | c # after \<Rightarrow>
                      if c = CHR ''.'' then (takeWhile is_digit after, dropWhile is_digit after)
                      else ([], rest))
           in if int_digits = [] \<and> frac_digits = [] then NaN
              else Fin (real (digits_value (int_digits @ frac_digits)) / 10 ^ length frac_digits
                        * ten_power (exponent_part rest')))"

definition parseFloat :: "string \<Rightarrow> number" where
  "parseFloat str =
     (case dropWhile is_space str of
        [] \<Rightarrow> NaN
      | c # rest \<Rightarrow>
          if c = CHR ''+'' then unsigned_decimal rest
          else if c = CHR ''-'' then num_neg (unsigned_decimal rest)
          else unsigned_decimal (c # rest))"

text \<open>A read of an array by index: past the end it yields \<open>undefined\<close>.\<close>

definition array_get :: "number list \<Rightarrow> nat \<Rightarrow> number" where
  "array_get row i = (if i < length row then row ! i else Undefined)"

text \<open>The errors \<open>parseCSV\<close> throws, and the messages they carry.\<close>

datatype csv_error = MissingRows | NoNumericRows | TooFewFeatures nat

fun show_nat :: "nat \<Rightarrow> string" where
  "show_nat n =
     (if n < 10 then [char_of (48 + n)] else show_nat (n div 10) @ [char_of (48 + n mod 10)])"

declare show_nat.simps [simp del]

fun error_message :: "csv_error \<Rightarrow> string" where
  "error_message MissingRows = ''CSV file must contain a header and at least one data row.''"
| "error_message NoNumericRows = ''No valid numeric data rows found in the CSV file.''"
| "error_message (TooFewFeatures numFeatures) =
     ''The processed data has only '' @ show_nat numFeatures @
     '' feature(s). At least two are required for 2D visualization.''"

text \<open>The callback of \<open>rows.map\<close>: the numbers of a row, or \<open>null\<close>.\<close>

definition parse_row :: "bool \<Rightarrow> string \<Rightarrow> number list option" where
  "parse_row dropLastColumn row =
     (let values = map (\<lambda>v. parseFloat (trim v)) (split CHR '','' row);
          values = (if dropLastColumn then butlast values else values)
      in if list_all (\<lambda>v. \<not> isNaN v) values then Some values else None)"

text \<open>
  \<open>parseCSV\<close> on the text of the file: the promise is rejected with an error (\<open>Inl\<close>) or
  resolved with the points (\<open>Inr\<close>). A failure of the file read itself is not modelled.
\<close>

definition parseCSV :: "string \<Rightarrow> bool \<Rightarrow> csv_error + Point list" where
  "parseCSV text dropLastColumn =
     (let rows = filter (\<lambda>row. trim row \<noteq> []) (split (CHR 0x0A) text)
      in if length rows < 2 then Inl MissingRows
         else let rows = tl rows;
                  numericData = map the (filter (\<lambda>row. row \<noteq> None)
                                  (map (parse_row dropLastColumn) rows))
              in if length numericData = 0 then Inl NoNumericRows
                 else let numFeatures = length (numericData ! 0)
                      in if numFeatures < 2 then Inl (TooFewFeatures numFeatures)
                         else Inr (map (\<lambda>row. \<lparr>x = array_get row 0, y = array_get row 1,
                                               cluster = None\<rparr>) numericData))"

section \<open>Result aggregation (runAnalysis)\<close>

text \<open>
  The part of \<open>runAnalysis\<close> that follows the acquisition of \<open>currentData\<close>: the guard
  against an empty dataset, the four runs in the order of the array literal, and the
  fold of the metrics into their maxima, started at \<open>-Infinity\<close>.
\<close>

definition run_all :: "Point list \<Rightarrow> AlgorithmParameters \<Rightarrow> DatasetType \<Rightarrow> draws
    \<Rightarrow> Point list ClusterResult list \<times> draws" where
  "run_all currentData ps datasetType s =
     (let (r1, s1) = runSpectralClustering currentData (spectral_n_clusters ps) datasetType s;
          (r2, s2) = runKMeans currentData (kmeans_n_clusters ps) datasetType s1;
          (r3, s3) = runAgglomerativeClustering currentData (agglomerative_n_clusters ps)
                       (agglomerative_linkage ps) datasetType s2;
          (r4, s4) = runDBSCAN currentData (dbscan_eps ps) datasetType s3
      in ([r1, r2, r3, r4], s4))"

definition max_step :: "Metrics \<Rightarrow> Point list ClusterResult \<Rightarrow> Metrics" where
  "max_step acc result =
     \<lparr>silhouette = Math_max (silhouette acc) (silhouette (metrics result)),
      calinskiHarabasz = Math_max (calinskiHarabasz acc) (calinskiHarabasz (metrics result)),
      daviesBouldin = Math_max (daviesBouldin acc) (daviesBouldin (metrics result))\<rparr>"

definition max_metrics :: "Point list ClusterResult list \<Rightarrow> Metrics" where
  "max_metrics results =
     foldl max_step \<lparr>silhouette = NInf, calinskiHarabasz = NInf, daviesBouldin = NInf\<rparr> results"

datatype RunState = Failed string | Loaded "Point list ClusterResult list" Metrics

definition runAnalysis :: "Point list \<Rightarrow> AlgorithmParameters \<Rightarrow> DatasetType \<Rightarrow> draws
    \<Rightarrow> RunState \<times> draws" where
  "runAnalysis currentData ps datasetType s =
     (if length currentData = 0
      then (Failed (''Could not load or generate data. Please select a valid dataset '' @
                    ''or upload a valid CSV file.''), s)
      else let (results, s1) = run_all currentData ps datasetType s;
               maxes = max_metrics results
           in (Loaded results maxes, s1))"

section \<open>Notions used to state the properties\<close>

text \<open>A point carries a label of \<open>[0, k)\<close>; a point carries the noise sentinel.\<close>

definition label_in :: "int \<Rightarrow> Point \<Rightarrow> bool" where
  "label_in k p = (case cluster p of None \<Rightarrow> False | Some c \<Rightarrow> 0 \<le> c \<and> c < k)"

definition is_noise :: "Point \<Rightarrow> bool" where
  "is_noise p = (cluster p = Some (- 1))"

text \<open>
  The number of clusters a run works with: the two index and radius splits label with
  \<open>0\<close> and \<open>1\<close> whatever the parameters say, the DBSCAN mock fixes \<open>k = 3\<close> for blobs
  and custom data, every other path uses the configured \<open>n_clusters\<close>.
\<close>

fun spectral_k :: "DatasetType \<Rightarrow> int \<Rightarrow> int" where
  "spectral_k Moons n_clusters = 2"
| "spectral_k Circles n_clusters = 2"
| "spectral_k _ n_clusters = n_clusters"

fun dbscan_k :: "DatasetType \<Rightarrow> int" where
  "dbscan_k Moons = 2"
| "dbscan_k Circles = 2"
| "dbscan_k _ = 3"

text \<open>
  The distance of the point \<open>(a, b)\<close> from the origin as double arithmetic computes it:
  the rounded square root of the rounded sum of the rounded squares.
\<close>

definition double_distance :: "number \<Rightarrow> number \<Rightarrow> number" where
  "double_distance a b =
     round_double (Math_sqrt (round_double
       (num_add (round_double (num_mul a a)) (round_double (num_mul b b)))))"

text \<open>
  The Euclidean distance of the point \<open>(a, b)\<close> from the origin exceeds \<open>t\<close>: decided
  on the coordinates themselves, in exact arithmetic. A distance that is not a number
  exceeds nothing; an infinite one exceeds every threshold.
\<close>

fun farther_than :: "number \<Rightarrow> number \<Rightarrow> real \<Rightarrow> bool" where
  "farther_than (Fin a) (Fin b) t = (t < sqrt (a\<^sup>2 + b\<^sup>2))"
| "farther_than NaN b t = False"
| "farther_than Undefined b t = False"
| "farther_than a NaN t = False"
| "farther_than a Undefined t = False"
| "farther_than a b t = True"

text \<open>
  An array of the store is an input a run can be given: it exists, and it refers to
  objects that exist. The later store leaves everything of the earlier one as it was:
  every object with its three fields, every array with its elements. An array of
  the later store is new, and so is every object it refers to, each position referring
  to an object of its own.
\<close>

definition well_formed :: "Store \<Rightarrow> nat \<Rightarrow> bool" where
  "well_formed h a = (a < length (arrays h) \<and> list_all (\<lambda>r. r < length (objects h)) (arrays h ! a))"

definition unchanged :: "Store \<Rightarrow> Store \<Rightarrow> bool" where
  "unchanged h h' =
     (take (length (objects h)) (objects h') = objects h \<and>
      take (length (arrays h)) (arrays h') = arrays h)"

definition fresh_result :: "Store \<Rightarrow> Store \<Rightarrow> nat \<Rightarrow> bool" where
  "fresh_result h h' a =
     (length (arrays h) \<le> a \<and> a < length (arrays h') \<and>
      list_all (\<lambda>r. length (objects h) \<le> r \<and> r < length (objects h')) (arrays h' ! a) \<and>
      distinct (arrays h' ! a))"

text \<open>
  What a run, started on the store \<open>h\<close> with the input array \<open>dat\<close>, owes its caller:
  nothing of \<open>h\<close> has changed, so the input array has its elements and these their
  fields, and it can be given to another run; the array of the result and the objects
  in it are new.
\<close>

definition leaves_input :: "Store \<Rightarrow> nat \<Rightarrow> nat ClusterResult \<times> Store \<Rightarrow> bool" where
  "leaves_input h dat out =
     (unchanged h (snd out) \<and> well_formed (snd out) dat \<and>
      arrays (snd out) ! dat = arrays h ! dat \<and> view (snd out) dat = view h dat \<and>
      fresh_result h (snd out) (data (fst out)))"

text \<open>
  A result on the store and a result on values are the same result: the points the
  array of the first holds are the points of the second, and the other fields agree.
\<close>

definition same_result :: "Store \<Rightarrow> nat ClusterResult \<Rightarrow> Point list ClusterResult \<Rightarrow> bool" where
  "same_result h res r =
     (view h (data res) = data r \<and> algorithm res = algorithm r \<and>
      metrics res = metrics r \<and> params res = params r)"

text \<open>Both coordinates of a point are finite numbers.\<close>

definition finite_point :: "Point \<Rightarrow> bool" where
  "finite_point p = (is_fin (x p) \<and> is_fin (y p))"

text \<open>
  The order of the numbers that are not \<open>NaN\<close> (nor \<open>undefined\<close>), with the infinities
  at its ends, and the order of points by their \<open>x\<close>.
\<close>

fun num_le :: "number \<Rightarrow> number \<Rightarrow> bool" where
  "num_le (Fin a) (Fin b) = (a \<le> b)"
| "num_le NInf (Fin b) = True"
| "num_le NInf NInf = True"
| "num_le NInf PInf = True"
| "num_le (Fin a) PInf = True"
| "num_le PInf PInf = True"
| "num_le _ _ = False"

definition x_le :: "Point \<Rightarrow> Point \<Rightarrow> bool" where
  "x_le p q = num_le (x p) (x q)"

text \<open>The three metrics of a result are finite numbers.\<close>

definition fin_metrics :: "Point list ClusterResult \<Rightarrow> bool" where
  "fin_metrics r =
     (is_fin (silhouette (metrics r)) \<and> is_fin (calinskiHarabasz (metrics r)) \<and>
      is_fin (daviesBouldin (metrics r)))"

text \<open>
  The contract of the CSV ingestor, in its own words: the lines that are not blank; the
  fields of a data line as numbers, the last one dropped on request; and the data
  rows, after the header, whose remaining fields are all numbers.
\<close>

definition nonblank_lines :: "string \<Rightarrow> string list" where
  "nonblank_lines text = filter (\<lambda>line. trim line \<noteq> []) (split (CHR 0x0A) text)"

definition row_fields :: "bool \<Rightarrow> string \<Rightarrow> number list" where
  "row_fields dropLastColumn line =
     (let parsed = map (parseFloat \<circ> trim) (split CHR '','' line)
      in if dropLastColumn then butlast parsed else parsed)"

definition fully_numeric :: "number list \<Rightarrow> bool" where
  "fully_numeric row = list_all (\<lambda>v. \<not> isNaN v) row"

definition surviving_rows :: "string \<Rightarrow> bool \<Rightarrow> number list list" where
  "surviving_rows text dropLastColumn =
     filter fully_numeric (map (row_fields dropLastColumn) (tl (nonblank_lines text)))"

definition point_of_row :: "number list \<Rightarrow> Point" where
  "point_of_row row = \<lparr>x = array_get row 0, y = array_get row 1, cluster = None\<rparr>"

section \<open>Example inputs\<close>

definition half_draws :: draws where
  "half_draws = (\<lambda>i. Draw (1 / 2))"

definition alternating_draws :: draws where
  "alternating_draws = (\<lambda>i. if even i then Draw 0 else Draw (3 / 4))"

text \<open>
  Four CSV texts: a rectangular one; one whose second data row is short; one whose
  second data row is empty once its last field is dropped; and one whose data row
  starts with a no-break space.
\<close>

definition rectangular_csv :: string where
  "rectangular_csv = ''h1,h2'' @ [CHR 0x0A] @ ''1.0,2.0'' @ [CHR 0x0A] @ ''3.0,4.0''"

definition ragged_csv :: string where
  "ragged_csv = ''h1,h2'' @ [CHR 0x0A] @ ''1,2'' @ [CHR 0x0A] @ ''3''"

definition narrow_row_csv :: string where
  "narrow_row_csv = ''h1,h2,h3'' @ [CHR 0x0A] @ ''1,2,3'' @ [CHR 0x0A] @ ''7''"

definition no_break_space_csv :: string where
  "no_break_space_csv = ''h'' @ [CHR 0x0A, CHR 0xA0] @ ''1,2''"

text \<open>The parameters of the first run, on page load.\<close>

definition initial_params :: AlgorithmParameters where
  "initial_params =
     \<lparr>spectral_n_clusters = 2, kmeans_n_clusters = 2, agglomerative_n_clusters = 2,
      agglomerative_linkage = ward, dbscan_eps = Fin (1 / 2)\<rparr>"

definition three_points :: "Point list" where
  "three_points =
     [\<lparr>x = Fin 3, y = Fin 0, cluster = None\<rparr>, \<lparr>x = Fin 0, y = Fin 0, cluster = Some (- 1)\<rparr>,
      \<lparr>x = Fin 4, y = Fin 0, cluster = None\<rparr>]"

text \<open>
  Two points for the radius split, one outside and one inside the circle of radius
  \<open>0.75\<close>, and a point just outside it.
\<close>

definition circle_points :: "Point list" where
  "circle_points = [\<lparr>x = Fin 1, y = Fin 0, cluster = None\<rparr>, \<lparr>x = Fin 0, y = Fin 0, cluster = None\<rparr>]"

definition rim_point :: Point where
  "rim_point = \<lparr>x = Fin (3 / 4), y = Fin (1 / 2 ^ 30), cluster = None\<rparr>"

text \<open>A store that holds the three points and one array of them.\<close>

definition three_points_store :: Store where
  "three_points_store = \<lparr>objects = three_points, arrays = [[0, 1, 2]]\<rparr>"

definition twenty_points :: "Point list" where
  "twenty_points = [
      \<lparr>x = Fin 0, y = Fin 0, cluster = None\<rparr>, \<lparr>x = Fin 1, y = Fin 0, cluster = None\<rparr>,
      \<lparr>x = Fin 2, y = Fin 0, cluster = None\<rparr>, \<lparr>x = Fin 3, y = Fin 0, cluster = None\<rparr>,
      \<lparr>x = Fin 4, y = Fin 0, cluster = None\<rparr>, \<lparr>x = Fin 5, y = Fin 0, cluster = None\<rparr>,
      \<lparr>x = Fin 6, y = Fin 0, cluster = None\<rparr>, \<lparr>x = Fin 7, y = Fin 0, cluster = None\<rparr>,
      \<lparr>x = Fin 8, y = Fin 0, cluster = None\<rparr>, \<lparr>x = Fin 9, y = Fin 0, cluster = None\<rparr>,
      \<lparr>x = Fin 10, y = Fin 0, cluster = None\<rparr>, \<lparr>x = Fin 11, y = Fin 0, cluster = None\<rparr>,
      \<lparr>x = Fin 12, y = Fin 0, cluster = None\<rparr>, \<lparr>x = Fin 13, y = Fin 0, cluster = None\<rparr>,
      \<lparr>x = Fin 14, y = Fin 0, cluster = None\<rparr>, \<lparr>x = Fin 15, y = Fin 0, cluster = None\<rparr>,
      \<lparr>x = Fin 16, y = Fin 0, cluster = None\<rparr>, \<lparr>x = Fin 17, y = Fin 0, cluster = None\<rparr>,
      \<lparr>x = Fin 18, y = Fin 0, cluster = None\<rparr>, \<lparr>x = Fin 19, y = Fin 0, cluster = None\<rparr>]"

section \<open>Facts about the random source, the assignments and the noise loop\<close>

lemma draw_value_bounds: "0 \<le> draw_value d \<and> draw_value d < 1"
  using draw_value [of d] by simp

lemma Math_random_bounds: "0 \<le> fst (Math_random s) \<and> fst (Math_random s) < 1"
  by (simp add: Math_random_def draw_value_bounds)

lemma random_index_in_range:
  assumes "0 < n"
  shows "nat \<lfloor>fst (Math_random s) * real n\<rfloor> < n"
proof -
  let ?r = "fst (Math_random s)"
  have r: "0 \<le> ?r" "?r < 1" using Math_random_bounds by simp_all
  have "?r * real n < real n" using r assms by simp
  then have "\<lfloor>?r * real n\<rfloor> < int n" by (simp add: floor_less_iff)
  moreover have "0 \<le> \<lfloor>?r * real n\<rfloor>" using r by simp
  ultimately show ?thesis by linarith
qed

lemma length_map_draws: "length (fst (map_draws f xs s)) = length xs"
  by (induction xs arbitrary: s) (simp_all add: split_def Let_def)

lemma length_pick_means: "length (fst (pick_means pts j s)) = j"
  by (induction j arbitrary: s) (simp_all add: split_def Let_def)

lemma forEach_means_range:
  "fst (forEach_means point means index (c, d)) = c \<or>
   (int index \<le> fst (forEach_means point means index (c, d)) \<and>
    fst (forEach_means point means index (c, d)) < int index + int (length means))"
proof (induction means arbitrary: index c d)
  case Nil
  then show ?case by simp
next
  case (Cons mean means)
  show ?case
  proof (cases "num_lt (distance point mean) d")
    case True
    with Cons [of "Suc index" "int index" "distance point mean"] show ?thesis
      by (auto simp: Let_def)
  next
    case False
    with Cons [of "Suc index" c d] show ?thesis
      by (auto simp: Let_def)
  qed
qed

lemma closest_mean_label:
  assumes "means \<noteq> []"
  shows "label_in (int (length means)) (closest_mean means point)"
proof -
  from assms have "0 < length means" by simp
  with forEach_means_range [of point means 0 0 PInf] show ?thesis
    by (auto simp: label_in_def closest_mean_def)
qed

lemma closest_mean_coordinates:
  "x (closest_mean means point) = x point \<and> y (closest_mean means point) = y point"
  by (simp add: closest_mean_def)

lemma assignClustersByCentroids_eq:
  assumes "pts \<noteq> []" "1 \<le> k"
  shows "fst (assignClustersByCentroids pts k s) =
         map (closest_mean (fst (pick_means pts (nat k) s))) pts"
  using assms by (simp add: assignClustersByCentroids_def split_def Let_def)

lemma assignClustersByCentroids_empty:
  assumes "pts = [] \<or> k \<le> 0"
  shows "fst (assignClustersByCentroids pts k s) = []"
  using assms by (auto simp: assignClustersByCentroids_def)

lemma length_assignClustersByCentroids:
  "pts \<noteq> [] \<Longrightarrow> 1 \<le> k \<Longrightarrow> length (fst (assignClustersByCentroids pts k s)) = length pts"
  by (simp add: assignClustersByCentroids_eq)

lemma assignClustersByCentroids_labels:
  "\<forall>p\<in>set (fst (assignClustersByCentroids pts k s)). label_in k p"
proof (cases "pts = [] \<or> k \<le> 0")
  case True
  then show ?thesis by (simp add: assignClustersByCentroids_empty)
next
  case False
  then have ne: "pts \<noteq> []" and k: "1 \<le> k" by auto
  let ?means = "fst (pick_means pts (nat k) s)"
  have len: "length ?means = nat k" by (rule length_pick_means)
  with k have "?means \<noteq> []" by auto
  then have "label_in (int (length ?means)) (closest_mean ?means p)" for p
    by (rule closest_mean_label)
  with len k have "label_in k (closest_mean ?means p)" for p by simp
  then show ?thesis by (simp add: assignClustersByCentroids_eq [OF ne k])
qed


lemma assignClustersByCentroids_coordinates:
  assumes "pts \<noteq> []" "1 \<le> k" "i < length pts"
  shows "x (fst (assignClustersByCentroids pts k s) ! i) = x (pts ! i) \<and>
         y (fst (assignClustersByCentroids pts k s) ! i) = y (pts ! i)"
  using assms by (simp add: assignClustersByCentroids_eq closest_mean_coordinates)

lemma length_mark_noise: "length (fst (mark_noise n cd s)) = length cd"
  by (induction n arbitrary: cd s) (simp_all add: split_def Let_def)

lemma filter_update_le:
  "length (filter P (xs[i := v])) \<le> Suc (length (filter P xs))"
proof (induction xs arbitrary: i)
  case Nil
  then show ?case by simp
next
  case (Cons a xs)
  then show ?case by (cases i) (auto intro: le_SucI)
qed

lemma mark_noise_count:
  "length (filter is_noise (fst (mark_noise n cd s))) \<le> n + length (filter is_noise cd)"
proof (induction n arbitrary: cd s)
  case 0
  then show ?case by simp
next
  case (Suc n)
  let ?r = "fst (Math_random s)"
  let ?s1 = "snd (Math_random s)"
  let ?i = "nat \<lfloor>?r * real (length cd)\<rfloor>"
  let ?cd = "cd[?i := (cd ! ?i)\<lparr>cluster := Some (- 1)\<rparr>]"
  have "fst (mark_noise (Suc n) cd s) = fst (mark_noise n ?cd ?s1)"
    by (simp add: split_def Let_def)
  moreover have "length (filter is_noise (fst (mark_noise n ?cd ?s1))) \<le>
      n + length (filter is_noise ?cd)" by (rule Suc.IH)
  moreover have "length (filter is_noise ?cd) \<le> Suc (length (filter is_noise cd))"
    by (rule filter_update_le)
  ultimately show ?case by simp
qed

lemma mark_noise_labels:
  assumes "\<forall>p\<in>set cd. is_noise p \<or> label_in k p"
  shows "\<forall>p\<in>set (fst (mark_noise n cd s)). is_noise p \<or> label_in k p"
  using assms
proof (induction n arbitrary: cd s)
  case 0
  then show ?case by simp
next
  case (Suc n)
  let ?r = "fst (Math_random s)"
  let ?s1 = "snd (Math_random s)"
  let ?i = "nat \<lfloor>?r * real (length cd)\<rfloor>"
  let ?cd = "cd[?i := (cd ! ?i)\<lparr>cluster := Some (- 1)\<rparr>]"
  have eq: "fst (mark_noise (Suc n) cd s) = fst (mark_noise n ?cd ?s1)"
    by (simp add: split_def Let_def)
  have "is_noise ((cd ! ?i)\<lparr>cluster := Some (- 1)\<rparr>)" by (simp add: is_noise_def)
  moreover have "set ?cd \<subseteq> insert ((cd ! ?i)\<lparr>cluster := Some (- 1)\<rparr>) (set cd)"
    by (rule set_update_subset_insert)
  ultimately have "\<forall>p\<in>set ?cd. is_noise p \<or> label_in k p"
    using Suc.prems by blast
  then have "\<forall>p\<in>set (fst (mark_noise n ?cd ?s1)). is_noise p \<or> label_in k p"
    by (rule Suc.IH)
  with eq show ?case by simp
qed

lemma mark_noise_coordinates:
  "i < length cd \<Longrightarrow>
   x (fst (mark_noise n cd s) ! i) = x (cd ! i) \<and> y (fst (mark_noise n cd s) ! i) = y (cd ! i)"
proof (induction n arbitrary: cd s)
  case 0
  then show ?case by simp
next
  case (Suc n)
  let ?r = "fst (Math_random s)"
  let ?s1 = "snd (Math_random s)"
  let ?j = "nat \<lfloor>?r * real (length cd)\<rfloor>"
  let ?cd = "cd[?j := (cd ! ?j)\<lparr>cluster := Some (- 1)\<rparr>]"
  have eq: "fst (mark_noise (Suc n) cd s) = fst (mark_noise n ?cd ?s1)"
    by (simp add: split_def Let_def)
  from Suc.prems have "i < length ?cd" by simp
  then have "x (fst (mark_noise n ?cd ?s1) ! i) = x (?cd ! i) \<and>
      y (fst (mark_noise n ?cd ?s1) ! i) = y (?cd ! i)" by (rule Suc.IH)
  moreover from Suc.prems have "x (?cd ! i) = x (cd ! i) \<and> y (?cd ! i) = y (cd ! i)"
    by (cases "i = ?j") simp_all
  ultimately show ?case using eq by simp
qed

lemma xsplit_cluster_range:
  assumes "1 \<le> k"
  shows "0 \<le> xsplit_cluster k n i \<and> xsplit_cluster k n i < k"
proof -
  have "0 \<le> (real i / real n) * real_of_int k" using assms by simp
  then have "0 \<le> \<lfloor>(real i / real n) * real_of_int k\<rfloor>" by simp
  with assms show ?thesis by (simp add: xsplit_cluster_def)
qed

lemma xsplit_cluster_mono:
  assumes "1 \<le> k" "i \<le> j"
  shows "xsplit_cluster k n i \<le> xsplit_cluster k n j"
proof -
  have "real i / real n \<le> real j / real n" using assms by (simp add: divide_right_mono)
  moreover have "0 \<le> real_of_int k" using assms by simp
  ultimately have "(real i / real n) * real_of_int k \<le> (real j / real n) * real_of_int k"
    by (rule mult_right_mono)
  then have "\<lfloor>(real i / real n) * real_of_int k\<rfloor> \<le> \<lfloor>(real j / real n) * real_of_int k\<rfloor>"
    by (rule floor_mono)
  then show ?thesis unfolding xsplit_cluster_def by (rule min.mono [OF order_refl])
qed

lemma length_insert_sorted: "length (insert_sorted f a xs) = Suc (length xs)"
  by (induction xs) simp_all

lemma length_Array_sort: "length (Array_sort f xs) = length xs"
  by (induction xs) (simp_all add: Array_sort_def length_insert_sorted)

lemma length_assignClustersByXSplit:
  "1 \<le> k \<Longrightarrow> length (assignClustersByXSplit pts k) = length pts"
  by (simp add: assignClustersByXSplit_def Let_def length_Array_sort)

lemma assignClustersByXSplit_nth:
  assumes "1 \<le> k" "i < length pts"
  shows "assignClustersByXSplit pts k ! i =
         (Array_sort compare_x pts ! i)\<lparr>cluster := Some (xsplit_cluster k (length pts) i)\<rparr>"
  using assms by (auto simp: assignClustersByXSplit_def Let_def length_Array_sort)

lemma assignClustersByXSplit_labels:
  "\<forall>p\<in>set (assignClustersByXSplit pts k). label_in k p"
proof (cases "1 \<le> k")
  case False
  then show ?thesis by (simp add: assignClustersByXSplit_def)
next
  case True
  show ?thesis
  proof
    fix p assume "p \<in> set (assignClustersByXSplit pts k)"
    then obtain i where i: "i < length (assignClustersByXSplit pts k)"
      and p: "p = assignClustersByXSplit pts k ! i" by (auto simp: in_set_conv_nth)
    from i True have "i < length pts" by (simp add: length_assignClustersByXSplit)
    with True p have "cluster p = Some (xsplit_cluster k (length pts) i)"
      by (simp add: assignClustersByXSplit_nth)
    with xsplit_cluster_range [OF True] show "label_in k p" by (simp add: label_in_def)
  qed
qed

lemma half_index_split_labels: "\<forall>p\<in>set (half_index_split pts). label_in 2 p"
  by (auto simp: half_index_split_def label_in_def Let_def)

lemma radius_split_labels: "\<forall>p\<in>set (radius_split pts). label_in 2 p"
  by (auto simp: radius_split_def label_in_def Let_def)

lemma mark_noise_nth:
  "i < length cd \<Longrightarrow>
   fst (mark_noise n cd s) ! i = cd ! i \<or>
   fst (mark_noise n cd s) ! i = (cd ! i)\<lparr>cluster := Some (- 1)\<rparr>"
proof (induction n arbitrary: cd s)
  case 0
  then show ?case by simp
next
  case (Suc n)
  let ?s1 = "snd (Math_random s)"
  let ?j = "nat \<lfloor>fst (Math_random s) * real (length cd)\<rfloor>"
  let ?cd = "cd[?j := (cd ! ?j)\<lparr>cluster := Some (- 1)\<rparr>]"
  have eq: "fst (mark_noise (Suc n) cd s) = fst (mark_noise n ?cd ?s1)"
    by (simp add: split_def Let_def)
  from Suc.prems have "i < length ?cd" by simp
  then have "fst (mark_noise n ?cd ?s1) ! i = ?cd ! i \<or>
      fst (mark_noise n ?cd ?s1) ! i = (?cd ! i)\<lparr>cluster := Some (- 1)\<rparr>" by (rule Suc.IH)
  moreover from Suc.prems have "?cd ! i = cd ! i \<or> ?cd ! i = (cd ! i)\<lparr>cluster := Some (- 1)\<rparr>"
    by (cases "i = ?j") simp_all
  ultimately show ?case using eq by auto
qed

lemma label_in_not_noise: "label_in k p \<Longrightarrow> \<not> is_noise p"
  by (auto simp: label_in_def is_noise_def split: option.splits)

lemma runDBSCAN_blobs_data:
  assumes "datasetType = Blobs \<or> datasetType = Custom"
  shows "data (fst (runDBSCAN pts eps datasetType s)) =
         fst (mark_noise (nat \<lfloor>real (length pts) * 0.05\<rfloor>)
                (fst (assignClustersByCentroids pts 3 s))
                (snd (assignClustersByCentroids pts 3 s)))"
  using assms by (auto simp: runDBSCAN_def split_def Let_def)

lemma length_assignClustersByCentroids_3:
  "length (fst (assignClustersByCentroids pts 3 s)) = length pts"
  by (cases "pts = []") (simp_all add: assignClustersByCentroids_empty length_assignClustersByCentroids)

lemma half_draw: "draw_value (Draw (1 / 2)) = 1 / 2"
  by (simp add: Draw_inverse)

lemma Math_random_half_draws: "Math_random half_draws = (1 / 2, half_draws)"
  by (simp add: Math_random_def half_draws_def half_draw)

lemma alternating_draws_value:
  "draw_value (alternating_draws i) = (if even i then 0 else 3 / 4)"
  by (simp add: alternating_draws_def Draw_inverse)

lemma runDBSCAN_twenty_points:
  "data (fst (runDBSCAN twenty_points (Fin 0.5) Blobs half_draws)) =
     (map (\<lambda>p. p\<lparr>cluster := Some 0\<rparr>) twenty_points)
       [10 := \<lparr>x = Fin 10, y = Fin 0, cluster = Some (- 1)\<rparr>]"
  by (simp add: runDBSCAN_def assignClustersByCentroids_def eval_nat_numeral
      Math_random_half_draws Let_def split_def closest_mean_def distance_def num_sub_def
      twenty_points_def)

lemma three_points_runs:
  "data (fst (runSpectralClustering three_points 2 Blobs alternating_draws)) =
     [\<lparr>x = Fin 3, y = Fin 0, cluster = Some 0\<rparr>, \<lparr>x = Fin 0, y = Fin 0, cluster = Some 0\<rparr>,
      \<lparr>x = Fin 4, y = Fin 0, cluster = Some 1\<rparr>]"
  "data (fst (runKMeans three_points 2 Blobs alternating_draws)) =
     [\<lparr>x = Fin 3, y = Fin 0, cluster = Some 0\<rparr>, \<lparr>x = Fin 0, y = Fin 0, cluster = Some 0\<rparr>,
      \<lparr>x = Fin 4, y = Fin 0, cluster = Some 1\<rparr>]"
  "data (fst (runAgglomerativeClustering three_points 2 ward Blobs alternating_draws)) =
     [\<lparr>x = Fin 3, y = Fin 0, cluster = Some 0\<rparr>, \<lparr>x = Fin 0, y = Fin 0, cluster = Some 0\<rparr>,
      \<lparr>x = Fin 4, y = Fin 0, cluster = Some 1\<rparr>]"
  "data (fst (runDBSCAN three_points (Fin (1 / 2)) Blobs alternating_draws)) =
     [\<lparr>x = Fin 3, y = Fin 0, cluster = Some 0\<rparr>, \<lparr>x = Fin 0, y = Fin 0, cluster = Some 0\<rparr>,
      \<lparr>x = Fin 4, y = Fin 0, cluster = Some 1\<rparr>]"
  "fst (assignClustersByCentroids three_points 2 alternating_draws) =
     [\<lparr>x = Fin 3, y = Fin 0, cluster = Some 0\<rparr>, \<lparr>x = Fin 0, y = Fin 0, cluster = Some 0\<rparr>,
      \<lparr>x = Fin 4, y = Fin 0, cluster = Some 1\<rparr>]"
  by (simp_all add: runSpectralClustering_def runKMeans_def runAgglomerativeClustering_def
      runDBSCAN_def assignClustersByCentroids_def eval_nat_numeral
      Math_random_def alternating_draws_value Let_def split_def closest_mean_def distance_def
      num_sub_def three_points_def)

section \<open>The metric synthesizer\<close>

lemma round_magnitude_3_bounds:
  assumes "lo \<le> v" "v \<le> hi" "real_of_int a = lo * 1000" "real_of_int b = hi * 1000"
  shows "lo \<le> round_magnitude_3 v \<and> round_magnitude_3 v \<le> hi"
proof -
  have "real_of_int a \<le> v * 1000 + 1 / 2" using assms by simp
  then have "a \<le> \<lfloor>v * 1000 + 1 / 2\<rfloor>" by (rule iffD2 [OF le_floor_iff])
  then have "real_of_int a \<le> real_of_int \<lfloor>v * 1000 + 1 / 2\<rfloor>" by simp
  then have lower: "lo \<le> round_magnitude_3 v"
    using assms by (simp add: round_magnitude_3_def field_simps)
  have "v * 1000 + 1 / 2 < real_of_int (b + 1)" using assms by simp
  then have "\<lfloor>v * 1000 + 1 / 2\<rfloor> < b + 1" by (rule iffD2 [OF floor_less_iff])
  then have "\<lfloor>v * 1000 + 1 / 2\<rfloor> \<le> b" by simp
  then have "real_of_int \<lfloor>v * 1000 + 1 / 2\<rfloor> \<le> real_of_int b" by simp
  then have upper: "round_magnitude_3 v \<le> hi"
    using assms by (simp add: round_magnitude_3_def field_simps)
  from lower upper show ?thesis by simp
qed

lemma toFixed_3_range:
  assumes "lo \<le> v" "v \<le> hi" "\<bar>lo\<bar> \<le> 1000" "\<bar>hi\<bar> \<le> 1000"
    and "real_of_int a = lo * 1000" "real_of_int b = hi * 1000"
  shows "\<exists>w. toFixed_3 (Fin v) = Fin w \<and> lo \<le> w \<and> w \<le> hi"
proof -
  have small: "\<not> 10 ^ 21 \<le> \<bar>v\<bar>" using assms by simp
  show ?thesis
  proof (cases "v < 0")
    case False
    with small have "toFixed_3 (Fin v) = Fin (round_magnitude_3 v)" by simp
    with round_magnitude_3_bounds [OF assms(1,2,5,6)] show ?thesis by simp
  next
    case True
    have "real_of_int (- b) = (- hi) * 1000" "real_of_int (- a) = (- lo) * 1000"
      using assms by simp_all
    moreover have "- hi \<le> - v" "- v \<le> - lo" using assms by simp_all
    ultimately have "- hi \<le> round_magnitude_3 (- v) \<and> round_magnitude_3 (- v) \<le> - lo"
      using round_magnitude_3_bounds [of "- hi" "- v" "- lo" "- b" "- a"] by blast
    moreover from True small have "toFixed_3 (Fin v) = Fin (- round_magnitude_3 (- v))"
      by simp
    ultimately show ?thesis by simp
  qed
qed

lemma generateMockMetrics_eq:
  "fst (generateMockMetrics pts s) =
      \<lparr>silhouette = toFixed_3 (Fin (draw_value (s 0) * 1.6 - 0.6)),
       calinskiHarabasz = toFixed_3 (Fin (draw_value (s (Suc 0)) * 500 + 50)),
       daviesBouldin = toFixed_3 (Fin (draw_value (s (Suc (Suc 0))) * 1.5 + 0.3))\<rparr>"
  by (simp add: generateMockMetrics_def Math_random_def num_sub_def del: toFixed_3.simps)

text \<open>
  C8. The metric synthesizer ignores the points it is given: two calls on any two inputs
  with the same random draws return the same metrics and leave the same draws. For
  every sequence of draws each of the three fields is a finite number which, after the
  rounding to three decimals, lies in its range: silhouette in \<open>[-0.6, 1.0]\<close>,
  Calinski-Harabasz in \<open>[50, 550]\<close>, Davies-Bouldin in \<open>[0.3, 1.8]\<close>.
\<close>

theorem generateMockMetrics_input_independent_and_in_range:
  "generateMockMetrics pts1 s = generateMockMetrics pts2 s \<and>
   (\<exists>a b c. fst (generateMockMetrics pts1 s) =
         \<lparr>silhouette = Fin a, calinskiHarabasz = Fin b, daviesBouldin = Fin c\<rparr> \<and>
       - 0.6 \<le> a \<and> a \<le> 1.0 \<and> 50 \<le> b \<and> b \<le> 550 \<and> 0.3 \<le> c \<and> c \<le> 1.8)"
proof
  show "generateMockMetrics pts1 s = generateMockMetrics pts2 s"
    by (simp add: generateMockMetrics_def)
next
  let ?r1 = "draw_value (s 0)" and ?r2 = "draw_value (s (Suc 0))"
    and ?r3 = "draw_value (s (Suc (Suc 0)))"
  have r1: "0 \<le> ?r1" "?r1 < 1" and r2: "0 \<le> ?r2" "?r2 < 1" and r3: "0 \<le> ?r3" "?r3 < 1"
    using draw_value_bounds by simp_all
  have "\<exists>a. toFixed_3 (Fin (?r1 * 1.6 - 0.6)) = Fin a \<and> - 0.6 \<le> a \<and> a \<le> 1.0"
    using r1 by (intro toFixed_3_range [where a = "- 600" and b = 1000]) simp_all
  then obtain a where a: "toFixed_3 (Fin (?r1 * 1.6 - 0.6)) = Fin a" "- 0.6 \<le> a" "a \<le> 1.0"
    by blast
  have "\<exists>b. toFixed_3 (Fin (?r2 * 500 + 50)) = Fin b \<and> 50 \<le> b \<and> b \<le> 550"
    using r2 by (intro toFixed_3_range [where a = 50000 and b = 550000]) simp_all
  then obtain b where b: "toFixed_3 (Fin (?r2 * 500 + 50)) = Fin b" "50 \<le> b" "b \<le> 550"
    by blast
  have "\<exists>c. toFixed_3 (Fin (?r3 * 1.5 + 0.3)) = Fin c \<and> 0.3 \<le> c \<and> c \<le> 1.8"
    using r3 by (intro toFixed_3_range [where a = 300 and b = 1800]) simp_all
  then obtain c where c: "toFixed_3 (Fin (?r3 * 1.5 + 0.3)) = Fin c" "0.3 \<le> c" "c \<le> 1.8"
    by blast
  from a b c show "\<exists>a b c. fst (generateMockMetrics pts1 s) =
         \<lparr>silhouette = Fin a, calinskiHarabasz = Fin b, daviesBouldin = Fin c\<rparr> \<and>
       - 0.6 \<le> a \<and> a \<le> 1.0 \<and> 50 \<le> b \<and> b \<le> 550 \<and> 0.3 \<le> c \<and> c \<le> 1.8"
    by (simp add: generateMockMetrics_eq del: toFixed_3.simps)
qed

section \<open>Cluster labels\<close>

text \<open>
  C3. Every point in the output of each run carries a label. The spectral, k-means and
  agglomerative runs label within \<open>[0, k)\<close>, for the \<open>k\<close> of the path taken, and so never
  with \<open>-1\<close>; the DBSCAN run labels with \<open>-1\<close> or within \<open>[0, k)\<close>. The assignment to the
  nearest of \<open>k \<ge> 1\<close> random centroids, on a list that is not empty, returns the points
  in their order, each with its coordinates and one label of \<open>[0, k)\<close>.
\<close>

theorem cluster_labels_in_range:
  "(\<forall>p\<in>set (data (fst (runSpectralClustering pts n_clusters datasetType s))).
      label_in (spectral_k datasetType n_clusters) p) \<and>
   (\<forall>p\<in>set (data (fst (runKMeans pts n_clusters datasetType s))). label_in n_clusters p) \<and>
   (\<forall>p\<in>set (data (fst (runAgglomerativeClustering pts n_clusters linkage datasetType s))).
      label_in n_clusters p) \<and>
   (\<forall>p\<in>set (data (fst (runDBSCAN pts eps datasetType s))).
      is_noise p \<or> label_in (dbscan_k datasetType) p) \<and>
   (pts \<noteq> [] \<and> 1 \<le> k \<longrightarrow>
      length (fst (assignClustersByCentroids pts k s)) = length pts \<and>
      (\<forall>i<length pts.
         x (fst (assignClustersByCentroids pts k s) ! i) = x (pts ! i) \<and>
         y (fst (assignClustersByCentroids pts k s) ! i) = y (pts ! i) \<and>
         label_in k (fst (assignClustersByCentroids pts k s) ! i)))"
proof (intro conjI impI allI)
  show "\<forall>p\<in>set (data (fst (runSpectralClustering pts n_clusters datasetType s))).
      label_in (spectral_k datasetType n_clusters) p"
    using half_index_split_labels [of pts] radius_split_labels [of pts]
      assignClustersByCentroids_labels [of pts n_clusters s]
    by (cases datasetType) (simp_all add: runSpectralClustering_def split_def Let_def)
next
  show "\<forall>p\<in>set (data (fst (runKMeans pts n_clusters datasetType s))). label_in n_clusters p"
    using assignClustersByXSplit_labels [of pts n_clusters]
      assignClustersByCentroids_labels [of pts n_clusters s]
    by (cases datasetType) (simp_all add: runKMeans_def split_def Let_def)
next
  show "\<forall>p\<in>set (data (fst (runAgglomerativeClustering pts n_clusters linkage datasetType s))).
      label_in n_clusters p"
    using assignClustersByXSplit_labels [of pts n_clusters]
      assignClustersByCentroids_labels [of pts n_clusters s]
    by (cases datasetType) (simp_all add: runAgglomerativeClustering_def split_def Let_def)
next
  have "\<forall>p\<in>set (fst (mark_noise m (fst (assignClustersByCentroids pts 3 s)) s')).
      is_noise p \<or> label_in 3 p" for m s'
    using assignClustersByCentroids_labels [of pts 3 s] by (intro mark_noise_labels) simp
  then show "\<forall>p\<in>set (data (fst (runDBSCAN pts eps datasetType s))).
      is_noise p \<or> label_in (dbscan_k datasetType) p"
    using half_index_split_labels [of pts] radius_split_labels [of pts]
    by (cases datasetType) (simp_all add: runDBSCAN_def split_def Let_def)
next
  assume "pts \<noteq> [] \<and> 1 \<le> k"
  then show "length (fst (assignClustersByCentroids pts k s)) = length pts"
    by (simp add: length_assignClustersByCentroids)
next
  fix i
  assume h: "pts \<noteq> [] \<and> 1 \<le> k" and i: "i < length pts"
  then show "x (fst (assignClustersByCentroids pts k s) ! i) = x (pts ! i)"
    and "y (fst (assignClustersByCentroids pts k s) ! i) = y (pts ! i)"
    by (simp_all add: assignClustersByCentroids_coordinates)
  from h i have "fst (assignClustersByCentroids pts k s) ! i
      \<in> set (fst (assignClustersByCentroids pts k s))"
    by (simp add: length_assignClustersByCentroids)
  then show "label_in k (fst (assignClustersByCentroids pts k s) ! i)"
    using assignClustersByCentroids_labels by blast
qed

theorem cluster_labels_in_range_witness:
  "(three_points \<noteq> [] \<and> (1 :: int) \<le> 2) \<and>
   data (fst (runSpectralClustering three_points 2 Blobs alternating_draws)) \<noteq> [] \<and>
   list_all (label_in (spectral_k Blobs 2))
     (data (fst (runSpectralClustering three_points 2 Blobs alternating_draws))) \<and>
   data (fst (runKMeans three_points 2 Blobs alternating_draws)) \<noteq> [] \<and>
   list_all (label_in 2) (data (fst (runKMeans three_points 2 Blobs alternating_draws))) \<and>
   data (fst (runAgglomerativeClustering three_points 2 ward Blobs alternating_draws)) \<noteq> [] \<and>
   list_all (label_in 2)
     (data (fst (runAgglomerativeClustering three_points 2 ward Blobs alternating_draws))) \<and>
   data (fst (runDBSCAN three_points (Fin (1 / 2)) Blobs alternating_draws)) \<noteq> [] \<and>
   list_all (\<lambda>p. is_noise p \<or> label_in (dbscan_k Blobs) p)
     (data (fst (runDBSCAN three_points (Fin (1 / 2)) Blobs alternating_draws))) \<and>
   length (fst (assignClustersByCentroids three_points 2 alternating_draws)) = length three_points \<and>
   x (fst (assignClustersByCentroids three_points 2 alternating_draws) ! 2) = x (three_points ! 2) \<and>
   y (fst (assignClustersByCentroids three_points 2 alternating_draws) ! 2) = y (three_points ! 2) \<and>
   label_in 2 (fst (assignClustersByCentroids three_points 2 alternating_draws) ! 2) \<and>
   cluster (fst (assignClustersByCentroids three_points 2 alternating_draws) ! 2) = Some 1"
proof -
  have pre: "three_points \<noteq> [] \<and> (1 :: int) \<le> 2" and two: "2 < length three_points"
    by (simp_all add: three_points_def)
  note labels = cluster_labels_in_range [where pts = three_points and n_clusters = 2
      and datasetType = Blobs and s = alternating_draws and linkage = ward and eps = "Fin (1 / 2)"
      and k = 2]
  have nonempty:
    "data (fst (runSpectralClustering three_points 2 Blobs alternating_draws)) \<noteq> []"
    "data (fst (runKMeans three_points 2 Blobs alternating_draws)) \<noteq> []"
    "data (fst (runAgglomerativeClustering three_points 2 ward Blobs alternating_draws)) \<noteq> []"
    "data (fst (runDBSCAN three_points (Fin (1 / 2)) Blobs alternating_draws)) \<noteq> []"
    "cluster (fst (assignClustersByCentroids three_points 2 alternating_draws) ! 2) = Some 1"
    by (simp_all add: three_points_runs)
  from labels pre two nonempty show ?thesis
    unfolding list_all_iff by blast
qed

section \<open>Noise in the DBSCAN mock\<close>

text \<open>
  C6. On blob or custom data of \<open>n\<close> points the DBSCAN mock returns \<open>n\<close> points, at
  most \<open>\<lfloor>0.05 * n\<rfloor>\<close> of them labelled \<open>-1\<close>; at every position the point is the one
  the centroid assignment with \<open>k = 3\<close> made there, whose label is in \<open>[0, 3)\<close>, either
  as it was or relabelled \<open>-1\<close>.
\<close>

theorem runDBSCAN_noise_bound:
  assumes "datasetType = Blobs \<or> datasetType = Custom"
  shows "length (data (fst (runDBSCAN pts eps datasetType s))) = length pts \<and>
         length (filter is_noise (data (fst (runDBSCAN pts eps datasetType s))))
           \<le> nat \<lfloor>0.05 * real (length pts)\<rfloor> \<and>
         (\<forall>i<length pts.
            let kept = fst (assignClustersByCentroids pts 3 s) ! i;
                q = data (fst (runDBSCAN pts eps datasetType s)) ! i
            in label_in 3 kept \<and> (q = kept \<or> q = kept\<lparr>cluster := Some (- 1)\<rparr>))"
proof -
  let ?assigned = "fst (assignClustersByCentroids pts 3 s)"
  let ?s0 = "snd (assignClustersByCentroids pts 3 s)"
  let ?n = "nat \<lfloor>real (length pts) * 0.05\<rfloor>"
  have out: "data (fst (runDBSCAN pts eps datasetType s)) = fst (mark_noise ?n ?assigned ?s0)"
    using assms by (rule runDBSCAN_blobs_data)
  have len: "length ?assigned = length pts" by (rule length_assignClustersByCentroids_3)
  have labels: "\<forall>p\<in>set ?assigned. label_in 3 p" by (rule assignClustersByCentroids_labels)
  then have "filter is_noise ?assigned = []"
    by (auto simp: filter_empty_conv dest: label_in_not_noise)
  with mark_noise_count [of ?n ?assigned ?s0]
  have count: "length (filter is_noise (fst (mark_noise ?n ?assigned ?s0))) \<le> ?n" by simp
  have "label_in 3 (?assigned ! i) \<and>
      (fst (mark_noise ?n ?assigned ?s0) ! i = ?assigned ! i \<or>
       fst (mark_noise ?n ?assigned ?s0) ! i = (?assigned ! i)\<lparr>cluster := Some (- 1)\<rparr>)"
    if "i < length pts" for i
    using that labels len mark_noise_nth [of i ?assigned ?n ?s0] by simp
  with out len count show ?thesis
    by (simp add: length_mark_noise Let_def mult.commute)
qed

theorem runDBSCAN_noise_bound_witness:
  "(Blobs = Blobs \<or> Blobs = Custom) \<and>
   length (data (fst (runDBSCAN twenty_points (Fin 0.5) Blobs half_draws))) = length twenty_points \<and>
   length (filter is_noise (data (fst (runDBSCAN twenty_points (Fin 0.5) Blobs half_draws))))
     \<le> nat \<lfloor>0.05 * real (length twenty_points)\<rfloor> \<and>
   nat \<lfloor>0.05 * real (length twenty_points)\<rfloor> = 1 \<and>
   length (filter is_noise (data (fst (runDBSCAN twenty_points (Fin 0.5) Blobs half_draws)))) = 1 \<and>
   is_noise (data (fst (runDBSCAN twenty_points (Fin 0.5) Blobs half_draws)) ! 10) \<and>
   label_in 3 (data (fst (runDBSCAN twenty_points (Fin 0.5) Blobs half_draws)) ! 9)"
proof -
  have blobs: "Blobs = Blobs \<or> Blobs = Custom" by simp
  note bound = runDBSCAN_noise_bound [OF blobs, of twenty_points "Fin 0.5" half_draws]
  have "nat \<lfloor>0.05 * real (length twenty_points)\<rfloor> = 1"
    by (simp add: twenty_points_def)
  moreover have
    "length (filter is_noise (data (fst (runDBSCAN twenty_points (Fin 0.5) Blobs half_draws)))) = 1"
    "is_noise (data (fst (runDBSCAN twenty_points (Fin 0.5) Blobs half_draws)) ! 10)"
    "label_in 3 (data (fst (runDBSCAN twenty_points (Fin 0.5) Blobs half_draws)) ! 9)"
    unfolding runDBSCAN_twenty_points
    by (simp_all add: is_noise_def label_in_def twenty_points_def)
  ultimately show ?thesis using blobs bound by blast
qed

section \<open>The radius split\<close>

lemma round_half_even_error: "\<bar>of_int (round_half_even t) - t\<bar> \<le> 1 / 2"
  unfolding round_half_even_def Let_def by (auto simp: abs_le_iff; linarith)

lemma round_half_even_nonneg: "0 \<le> t \<Longrightarrow> 0 \<le> round_half_even t"
  unfolding round_half_even_def Let_def by auto

lemma ulp_pos: "0 < ulp r"
  by (simp add: ulp_def)

lemma power_floor_log_le:
  assumes "0 < a"
  shows "2 powi \<lfloor>log 2 a\<rfloor> \<le> a"
proof -
  have "2 powr of_int \<lfloor>log 2 a\<rfloor> \<le> 2 powr log 2 a"
    by (rule powr_mono) simp_all
  also have "\<dots> = a" using assms by simp
  finally show ?thesis by (simp add: powr_real_of_int')
qed

lemma ulp_bound: "ulp r / 2 \<le> \<bar>r\<bar> / 2 ^ 53 + 1 / 2 ^ 1075"
proof (cases "r \<noteq> 0 \<and> - 1022 \<le> \<lfloor>log 2 \<bar>r\<bar>\<rfloor>")
  case True
  then have "- 1022 \<le> \<lfloor>log 2 \<bar>r\<bar>\<rfloor>" by blast
  then have "max \<lfloor>log 2 \<bar>r\<bar>\<rfloor> (- 1022) = \<lfloor>log 2 \<bar>r\<bar>\<rfloor>" by (rule max_absorb1)
  with True have "ulp r = 2 powi (\<lfloor>log 2 \<bar>r\<bar>\<rfloor> - 52)" by (simp only: ulp_def double_exponent_def if_False)
  also have "\<dots> = 2 powi \<lfloor>log 2 \<bar>r\<bar>\<rfloor> / 2 ^ 52" by (simp add: power_int_diff)
  also have "\<dots> \<le> \<bar>r\<bar> / 2 ^ 52"
    using True power_floor_log_le [of "\<bar>r\<bar>"] by (simp add: divide_right_mono)
  finally have "ulp r / 2 \<le> \<bar>r\<bar> / 2 ^ 53" by simp
  then show ?thesis by (simp add: add_increasing2)
next
  case False
  have "double_exponent r = - 1022"
  proof (cases "r = 0")
    case True
    then show ?thesis by (simp add: double_exponent_def)
  next
    case nz: False
    with False have "\<lfloor>log 2 \<bar>r\<bar>\<rfloor> \<le> - 1022" by linarith
    then have "max \<lfloor>log 2 \<bar>r\<bar>\<rfloor> (- 1022) = - 1022" by (rule max_absorb2)
    with nz show ?thesis by (simp only: double_exponent_def if_False)
  qed
  then have "ulp r = 1 / 2 ^ 1074" by (simp add: ulp_def power_int_minus_divide)
  then show ?thesis by simp
qed

lemma nearest_double_error: "\<bar>nearest_double r - r\<bar> \<le> \<bar>r\<bar> / 2 ^ 53 + 1 / 2 ^ 1075"
proof -
  have "\<bar>nearest_double r - r\<bar> = \<bar>of_int (round_half_even (r / ulp r)) - r / ulp r\<bar> * ulp r"
  proof -
    have "nearest_double r - r = (of_int (round_half_even (r / ulp r)) - r / ulp r) * ulp r"
      using ulp_pos [of r] by (simp add: nearest_double_def left_diff_distrib)
    then show ?thesis using ulp_pos [of r] by (simp only: abs_mult abs_of_pos)
  qed
  also have "\<dots> \<le> 1 / 2 * ulp r"
    using ulp_pos [of r] round_half_even_error [of "r / ulp r"] by (intro mult_right_mono) simp_all
  also have "\<dots> \<le> \<bar>r\<bar> / 2 ^ 53 + 1 / 2 ^ 1075" using ulp_bound [of r] by simp
  finally show ?thesis .
qed

lemma nearest_double_nonneg: "0 \<le> r \<Longrightarrow> 0 \<le> nearest_double r"
  using ulp_pos [of r] by (simp add: nearest_double_def round_half_even_nonneg)


lemma nearest_double_zero: "nearest_double 0 = 0"
  by (simp add: nearest_double_def round_half_even_def)

lemma num_le_weaken: "num_le (Fin c) v \<Longrightarrow> c' \<le> c \<Longrightarrow> num_le (Fin c') v"
  by (cases v) simp_all

lemma num_add_lower:
  "num_le (Fin c) v \<Longrightarrow> num_le (Fin d) w \<Longrightarrow> num_le (Fin (c + d)) (num_add v w)"
  by (cases v; cases w) simp_all

lemma Math_sqrt_lower:
  assumes "0 \<le> c" "num_le (Fin (c\<^sup>2)) v"
  shows "num_le (Fin c) (Math_sqrt v)"
proof (cases v)
  case (Fin m)
  with assms(2) have "c\<^sup>2 \<le> m" by simp
  then have "c \<le> sqrt m" by (rule real_le_rsqrt)
  moreover have "0 \<le> m" using \<open>c\<^sup>2 \<le> m\<close> zero_le_power2 [of c] by linarith
  ultimately show ?thesis using Fin by simp
qed (use assms in simp_all)

lemma round_double_lower:
  assumes "0 \<le> c" "num_le (Fin c) v"
  shows "num_le (Fin (c - c / 2 ^ 53 - 1 / 2 ^ 1075)) (round_double v)"
proof (cases v)
  case (Fin m)
  with assms have cm: "c \<le> m" by simp
  show ?thesis
  proof (cases "2 ^ 1024 \<le> \<bar>nearest_double m\<bar>")
    case True
    have "m \<noteq> 0"
    proof
      assume "m = 0"
      with True show False by (simp add: nearest_double_zero)
    qed
    with cm assms(1) have "0 < m" by simp
    with True Fin show ?thesis by (simp add: signed_inf_def)
  next
    case False
    have "\<bar>nearest_double m - m\<bar> \<le> \<bar>m\<bar> / 2 ^ 53 + 1 / 2 ^ 1075"
      by (rule nearest_double_error)
    with cm assms(1) have "c - c / 2 ^ 53 - 1 / 2 ^ 1075 \<le> nearest_double m"
      by simp
    with Fin False show ?thesis by simp
  qed
qed (use assms in simp_all)

lemma round_double_upper:
  assumes "0 \<le> m" "m \<le> c" "c + c / 2 ^ 53 + 1 / 2 ^ 1075 < 2 ^ 1024"
  obtains m' where "round_double (Fin m) = Fin m'" "0 \<le> m'" "m' \<le> c + c / 2 ^ 53 + 1 / 2 ^ 1075"
proof -
  have "\<bar>nearest_double m - m\<bar> \<le> \<bar>m\<bar> / 2 ^ 53 + 1 / 2 ^ 1075"
    by (rule nearest_double_error)
  with assms(1,2) have upper: "nearest_double m \<le> c + c / 2 ^ 53 + 1 / 2 ^ 1075"
    by simp
  have nonneg: "0 \<le> nearest_double m" using assms(1) by (rule nearest_double_nonneg)
  with upper assms(3) have "\<not> 2 ^ 1024 \<le> \<bar>nearest_double m\<bar>" by simp
  then have "round_double (Fin m) = Fin (nearest_double m)" by simp
  then show ?thesis using nonneg upper by (rule that)
qed


lemma far_bounds:
  "(0 :: real) \<le> (3 / 4 * (1 + 1 / 2 ^ 50))\<^sup>2 - (3 / 4 * (1 + 1 / 2 ^ 50))\<^sup>2 / 2 ^ 53 - 2 / 2 ^ 1075"
  "(3 / 4 * (1 + 1 / 2 ^ 51) :: real)\<^sup>2 \<le>
     ((3 / 4 * (1 + 1 / 2 ^ 50))\<^sup>2 - (3 / 4 * (1 + 1 / 2 ^ 50))\<^sup>2 / 2 ^ 53 - 2 / 2 ^ 1075) -
     ((3 / 4 * (1 + 1 / 2 ^ 50))\<^sup>2 - (3 / 4 * (1 + 1 / 2 ^ 50))\<^sup>2 / 2 ^ 53 - 2 / 2 ^ 1075) / 2 ^ 53 -
     1 / 2 ^ 1075"
  "(3 / 4 :: real) < 3 / 4 * (1 + 1 / 2 ^ 51) - 3 / 4 * (1 + 1 / 2 ^ 51) / 2 ^ 53 - 1 / 2 ^ 1075"
  by (simp_all add: power2_eq_square)

lemma double_distance_far:
  assumes "0 \<le> c" "0 \<le> d" "num_le (Fin c) (num_mul a a)" "num_le (Fin d) (num_mul b b)"
    and far: "(3 / 4 * (1 + 1 / 2 ^ 50))\<^sup>2 \<le> c + d"
  shows "num_gt (double_distance a b) (Fin (3 / 4))"
proof -
  let ?K = "(3 / 4 * (1 + 1 / 2 ^ 50) :: real)\<^sup>2"
  let ?L = "?K - ?K / 2 ^ 53 - 2 / 2 ^ 1075"
  let ?c0 = "3 / 4 * (1 + 1 / 2 ^ 51) :: real"
  let ?sum = "num_add (round_double (num_mul a a)) (round_double (num_mul b b))"
  have "num_le (Fin (c - c / 2 ^ 53 - 1 / 2 ^ 1075)) (round_double (num_mul a a))"
    using assms(1,3) by (rule round_double_lower)
  moreover have "num_le (Fin (d - d / 2 ^ 53 - 1 / 2 ^ 1075)) (round_double (num_mul b b))"
    using assms(2,4) by (rule round_double_lower)
  ultimately have "num_le (Fin (c - c / 2 ^ 53 - 1 / 2 ^ 1075 + (d - d / 2 ^ 53 - 1 / 2 ^ 1075))) ?sum"
    by (rule num_add_lower)
  moreover have "?L \<le> c - c / 2 ^ 53 - 1 / 2 ^ 1075 + (d - d / 2 ^ 53 - 1 / 2 ^ 1075)"
    using far by simp
  ultimately have "num_le (Fin ?L) ?sum" by (rule num_le_weaken)
  with far_bounds(1) have "num_le (Fin (?L - ?L / 2 ^ 53 - 1 / 2 ^ 1075)) (round_double ?sum)"
    by (rule round_double_lower)
  then have "num_le (Fin (?c0\<^sup>2)) (round_double ?sum)"
    using far_bounds(2) by (rule num_le_weaken)
  then have "num_le (Fin ?c0) (Math_sqrt (round_double ?sum))"
    by (intro Math_sqrt_lower) simp_all
  then have "num_le (Fin (?c0 - ?c0 / 2 ^ 53 - 1 / 2 ^ 1075)) (double_distance a b)"
    unfolding double_distance_def by (intro round_double_lower) simp_all
  then show ?thesis using far_bounds(3)
    by (cases "double_distance a b") (simp_all add: num_gt_def)
qed

lemma near_bounds:
  "(3 / 4 * (1 - 1 / 2 ^ 50) :: real)\<^sup>2 + (3 / 4 * (1 - 1 / 2 ^ 50))\<^sup>2 / 2 ^ 53 + 1 / 2 ^ 1075 < 2 ^ 1024"
  "((3 / 4 * (1 - 1 / 2 ^ 50) :: real)\<^sup>2 + (3 / 4 * (1 - 1 / 2 ^ 50))\<^sup>2 / 2 ^ 53 + 2 / 2 ^ 1075) +
     ((3 / 4 * (1 - 1 / 2 ^ 50))\<^sup>2 + (3 / 4 * (1 - 1 / 2 ^ 50))\<^sup>2 / 2 ^ 53 + 2 / 2 ^ 1075) / 2 ^ 53 +
     1 / 2 ^ 1075 \<le> (3 / 4 * (1 - 1 / 2 ^ 51))\<^sup>2"
  "(3 / 4 * (1 - 1 / 2 ^ 51) :: real) + 3 / 4 * (1 - 1 / 2 ^ 51) / 2 ^ 53 + 1 / 2 ^ 1075 \<le> 3 / 4"
  by (simp_all add: power2_eq_square)

lemma double_distance_near:
  assumes near: "a\<^sup>2 + b\<^sup>2 \<le> (3 / 4 * (1 - 1 / 2 ^ 50))\<^sup>2"
  shows "\<not> num_gt (double_distance (Fin a) (Fin b)) (Fin (3 / 4))"
proof -
  let ?K = "(3 / 4 * (1 - 1 / 2 ^ 50) :: real)\<^sup>2"
  let ?U = "?K + ?K / 2 ^ 53 + 2 / 2 ^ 1075"
  let ?c1 = "3 / 4 * (1 - 1 / 2 ^ 51) :: real"
  have squares: "0 \<le> a * a" "0 \<le> b * b" by simp_all
  have near': "a * a + b * b \<le> ?K" using near by (simp only: power2_eq_square)
  have small: "a * a \<le> ?K" "b * b \<le> ?K"
    using squares near' by linarith+
  obtain ma where ma: "round_double (Fin (a * a)) = Fin ma" "0 \<le> ma"
      "ma \<le> a * a + a * a / 2 ^ 53 + 1 / 2 ^ 1075"
  proof (rule round_double_upper [of "a * a" "a * a"])
    show "a * a + a * a / 2 ^ 53 + 1 / 2 ^ 1075 < 2 ^ 1024"
      using small(1) near_bounds(1) by simp
  qed simp_all
  obtain mb where mb: "round_double (Fin (b * b)) = Fin mb" "0 \<le> mb"
      "mb \<le> b * b + b * b / 2 ^ 53 + 1 / 2 ^ 1075"
  proof (rule round_double_upper [of "b * b" "b * b"])
    show "b * b + b * b / 2 ^ 53 + 1 / 2 ^ 1075 < 2 ^ 1024"
      using small(2) near_bounds(1) by simp
  qed simp_all
  have sum: "0 \<le> ma + mb" "ma + mb \<le> ?U"
    using ma(2,3) mb(2,3) near by (simp_all add: power2_eq_square)
  obtain ms where ms: "round_double (Fin (ma + mb)) = Fin ms" "0 \<le> ms"
      "ms \<le> ?U + ?U / 2 ^ 53 + 1 / 2 ^ 1075"
  proof (rule round_double_upper [OF sum])
    show "?U + ?U / 2 ^ 53 + 1 / 2 ^ 1075 < 2 ^ 1024"
      by (simp add: power2_eq_square)
  qed
  from ms(3) near_bounds(2) have "ms \<le> ?c1\<^sup>2" by (rule order_trans)
  then have root: "sqrt ms \<le> ?c1" by (intro real_le_lsqrt) simp_all
  obtain md where md: "round_double (Fin (sqrt ms)) = Fin md"
      "md \<le> ?c1 + ?c1 / 2 ^ 53 + 1 / 2 ^ 1075"
  proof (rule round_double_upper [of "sqrt ms", OF _ root])
    show "0 \<le> sqrt ms" using ms(2) by simp
    show "?c1 + ?c1 / 2 ^ 53 + 1 / 2 ^ 1075 < 2 ^ 1024" by simp
  qed
  from md(2) near_bounds(3) have "md \<le> 3 / 4" by (rule order_trans)
  moreover have "double_distance (Fin a) (Fin b) = Fin md"
    using ma(1) mb(1) ms(1,2) md(1) by (simp add: double_distance_def)
  ultimately show ?thesis by (simp add: num_gt_def)
qed


lemma square_of_number:
  "\<not> isNaN a \<Longrightarrow> num_le (Fin 0) (num_mul a a)"
  "a = PInf \<or> a = NInf \<Longrightarrow> num_le (Fin c) (num_mul a a)"
  "isNaN a \<Longrightarrow> num_mul a a = NaN"
  by (cases a; auto)+

lemma num_add_NaN: "num_add NaN v = NaN" "num_add v NaN = NaN"
  by (cases v; simp)+

lemma double_distance_NaN:
  assumes "isNaN a \<or> isNaN b"
  shows "double_distance a b = NaN"
  using assms by (auto simp: double_distance_def square_of_number(3) num_add_NaN)

lemma double_distance_farther:
  assumes "farther_than a b (3 / 4 * (1 + 1 / 2 ^ 50))"
  shows "num_gt (double_distance a b) (Fin (3 / 4))"
proof -
  let ?t = "3 / 4 * (1 + 1 / 2 ^ 50) :: real"
  have numbers: "\<not> isNaN a" "\<not> isNaN b" using assms by (cases a; cases b; simp)+
  consider (finite) u v where "a = Fin u" "b = Fin v"
    | (left) "a = PInf \<or> a = NInf" | (right) "b = PInf \<or> b = NInf"
    using numbers by (cases a; cases b) auto
  then show ?thesis
  proof cases
    case finite
    with assms have "?t < sqrt (u\<^sup>2 + v\<^sup>2)" by simp
    then have "?t\<^sup>2 < (sqrt (u\<^sup>2 + v\<^sup>2))\<^sup>2" by (intro power_strict_mono) simp_all
    then have far: "?t\<^sup>2 \<le> u * u + v * v" by (simp add: power2_eq_square)
    show ?thesis unfolding finite
      by (rule double_distance_far [of "u * u" "v * v", OF _ _ _ _ far]) simp_all
  next
    case left
    show ?thesis
      by (rule double_distance_far [of "?t\<^sup>2" 0])
        (simp_all add: square_of_number left numbers)
  next
    case right
    show ?thesis
      by (rule double_distance_far [of 0 "?t\<^sup>2"])
        (simp_all add: square_of_number right numbers)
  qed
qed

lemma double_distance_not_farther:
  assumes "\<not> farther_than a b (3 / 4 * (1 - 1 / 2 ^ 50))"
  shows "\<not> num_gt (double_distance a b) (Fin (3 / 4))"
proof (cases "isNaN a \<or> isNaN b")
  case True
  then show ?thesis by (simp add: double_distance_NaN num_gt_def)
next
  case False
  let ?t = "3 / 4 * (1 - 1 / 2 ^ 50) :: real"
  from False assms obtain u v where finite: "a = Fin u" "b = Fin v"
    by (cases a; cases b) auto
  with assms have "sqrt (u\<^sup>2 + v\<^sup>2) \<le> ?t" by simp
  then have "(sqrt (u\<^sup>2 + v\<^sup>2))\<^sup>2 \<le> ?t\<^sup>2" by (intro power_mono) simp_all
  then have "u\<^sup>2 + v\<^sup>2 \<le> ?t\<^sup>2" by simp
  then show ?thesis unfolding finite by (rule double_distance_near)
qed

lemma double_exponent_eq:
  assumes "2 powi e \<le> \<bar>r\<bar>" "\<bar>r\<bar> < 2 powi (e + 1)" "- 1022 \<le> e"
  shows "double_exponent r = e"
proof -
  have pos: "0 < \<bar>r\<bar>" using assms(1) by (smt (verit) zero_less_power_int)
  have "2 powr real_of_int e = 2 powi e" by (simp add: powr_real_of_int')
  moreover have "2 powr real_of_int (e + 1) = 2 powi (e + 1)" by (rule powr_real_of_int') simp_all
  ultimately have "2 powr real_of_int e \<le> \<bar>r\<bar> \<and> \<bar>r\<bar> < 2 powr real_of_int (e + 1)"
    using assms(1,2) by simp
  with pos have "\<lfloor>log 2 \<bar>r\<bar>\<rfloor> = e" by (intro iffD2 [OF floor_log_eq_powr_iff]) simp_all
  with pos assms(3) show ?thesis by (simp add: double_exponent_def)
qed

lemma nearest_double_eq:
  assumes "2 powi e \<le> \<bar>r\<bar>" "\<bar>r\<bar> < 2 powi (e + 1)" "- 1022 \<le> e"
  shows "nearest_double r = of_int (round_half_even (r / 2 powi (e - 52))) * 2 powi (e - 52)"
  by (simp only: nearest_double_def ulp_def double_exponent_eq [OF assms])

lemma round_double_examples:
  "round_double (Fin (9 / 16)) = Fin (9 / 16)"
  "round_double (Fin (1 / 2 ^ 60)) = Fin (1 / 2 ^ 60)"
  "round_double (Fin (9 / 16 + 1 / 2 ^ 60)) = Fin (9 / 16)"
  "round_double (Fin (3 / 4)) = Fin (3 / 4)"
proof -
  have "nearest_double (9 / 16) = 9 / 16"
    by (subst nearest_double_eq [of "- 1"]) (simp_all add: round_half_even_def power_int_minus_divide)
  then show "round_double (Fin (9 / 16)) = Fin (9 / 16)" by simp
  have "nearest_double (1 / 2 ^ 60) = 1 / 2 ^ 60"
    by (subst nearest_double_eq [of "- 60"]) (simp_all add: round_half_even_def power_int_minus_divide)
  then show "round_double (Fin (1 / 2 ^ 60)) = Fin (1 / 2 ^ 60)" by simp
  have "nearest_double (9 / 16 + 1 / 2 ^ 60) = 9 / 16"
    by (subst nearest_double_eq [of "- 1"]) (simp_all add: round_half_even_def power_int_minus_divide)
  then show "round_double (Fin (9 / 16 + 1 / 2 ^ 60)) = Fin (9 / 16)" by simp
  have "nearest_double (3 / 4) = 3 / 4"
    by (subst nearest_double_eq [of "- 1"]) (simp_all add: round_half_even_def power_int_minus_divide)
  then show "round_double (Fin (3 / 4)) = Fin (3 / 4)" by simp
qed

lemma double_distance_example:
  "double_distance (Fin (3 / 4)) (Fin (1 / 2 ^ 30)) = Fin (3 / 4)"
proof -
  have root: "sqrt (9 / 16) = 3 / 4"
    by (rule real_sqrt_unique) (simp_all add: power2_eq_square)
  have steps: "num_mul (Fin (3 / 4)) (Fin (3 / 4)) = Fin (9 / 16)"
    "num_mul (Fin (1 / 2 ^ 30)) (Fin (1 / 2 ^ 30)) = Fin (1 / 2 ^ 60)"
    "num_add (Fin (9 / 16)) (Fin (1 / 2 ^ 60)) = Fin (9 / 16 + 1 / 2 ^ 60)"
    "Math_sqrt (Fin (9 / 16)) = Fin (3 / 4)"
    using root by simp_all
  show ?thesis by (simp only: double_distance_def steps round_double_examples)
qed

lemma farther_example: "farther_than (Fin (3 / 4)) (Fin (1 / 2 ^ 30)) (3 / 4)"
proof -
  have "(3 / 4 :: real) < sqrt ((3 / 4)\<^sup>2 + (1 / 2 ^ 30)\<^sup>2)"
    by (rule real_less_rsqrt) (simp add: power2_eq_square)
  then show ?thesis by simp
qed

lemma radius_split_eq:
  "radius_split pts =
     map (\<lambda>p. p\<lparr>cluster := Some (if num_gt (double_distance (x p) (y p)) (Fin 0.75) then 0 else 1)\<rparr>) pts"
  by (simp add: radius_split_def Let_def double_distance_def)

lemma circle_points_labels:
  "num_gt (double_distance (Fin 1) (Fin 0)) (Fin (3 / 4))"
  "\<not> num_gt (double_distance (Fin 0) (Fin 0)) (Fin (3 / 4))"
proof -
  have "farther_than (Fin 1) (Fin 0) (3 / 4 * (1 + 1 / 2 ^ 50))" by simp
  then show "num_gt (double_distance (Fin 1) (Fin 0)) (Fin (3 / 4))"
    by (rule double_distance_farther)
  have "\<not> farther_than (Fin 0) (Fin 0) (3 / 4 * (1 - 1 / 2 ^ 50))" by simp
  then show "\<not> num_gt (double_distance (Fin 0) (Fin 0)) (Fin (3 / 4))"
    by (rule double_distance_not_farther)
qed

text \<open>
  C5. On circles data the spectral mock, and the DBSCAN mock with it, return the points
  in their order, each with label \<open>0\<close> exactly when its distance from the origin, as
  double arithmetic computes it, exceeds \<open>0.75\<close> and with label \<open>1\<close> otherwise: the labels
  are those of that comparison recomputed on the input points. The computed comparison
  agrees with the Euclidean distance outside a relative \<open>2^(-50)\<close> of the threshold: a
  point farther than \<open>0.75 (1 + 2^(-50))\<close> from the origin has label \<open>0\<close>, a point not
  farther than \<open>0.75 (1 - 2^(-50))\<close>, or with a coordinate that is not a number, has
  label \<open>1\<close>.
\<close>

theorem circles_labels_by_radius:
  "data (fst (runSpectralClustering pts n_clusters Circles s)) =
     map (\<lambda>p. p\<lparr>cluster := Some (if num_gt (double_distance (x p) (y p)) (Fin 0.75) then 0 else 1)\<rparr>) pts \<and>
   data (fst (runDBSCAN pts eps Circles s)) =
     map (\<lambda>p. p\<lparr>cluster := Some (if num_gt (double_distance (x p) (y p)) (Fin 0.75) then 0 else 1)\<rparr>) pts \<and>
   (farther_than a b (0.75 * (1 + 1 / 2 ^ 50)) \<longrightarrow> num_gt (double_distance a b) (Fin 0.75)) \<and>
   (\<not> farther_than a b (0.75 * (1 - 1 / 2 ^ 50)) \<longrightarrow> \<not> num_gt (double_distance a b) (Fin 0.75))"
proof (intro conjI impI)
  show "data (fst (runSpectralClustering pts n_clusters Circles s)) =
     map (\<lambda>p. p\<lparr>cluster := Some (if num_gt (double_distance (x p) (y p)) (Fin 0.75) then 0 else 1)\<rparr>) pts"
    by (simp add: runSpectralClustering_def split_def Let_def radius_split_eq)
  show "data (fst (runDBSCAN pts eps Circles s)) =
     map (\<lambda>p. p\<lparr>cluster := Some (if num_gt (double_distance (x p) (y p)) (Fin 0.75) then 0 else 1)\<rparr>) pts"
    by (simp add: runDBSCAN_def split_def Let_def radius_split_eq)
next
  assume "farther_than a b (0.75 * (1 + 1 / 2 ^ 50))"
  then have "farther_than a b (3 / 4 * (1 + 1 / 2 ^ 50))" by simp
  then have "num_gt (double_distance a b) (Fin (3 / 4))" by (rule double_distance_farther)
  then show "num_gt (double_distance a b) (Fin 0.75)" by simp
next
  assume "\<not> farther_than a b (0.75 * (1 - 1 / 2 ^ 50))"
  then have "\<not> farther_than a b (3 / 4 * (1 - 1 / 2 ^ 50))" by simp
  then have "\<not> num_gt (double_distance a b) (Fin (3 / 4))" by (rule double_distance_not_farther)
  then show "\<not> num_gt (double_distance a b) (Fin 0.75)" by simp
qed

theorem circles_labels_by_radius_witness:
  "farther_than (Fin 1) (Fin 0) (0.75 * (1 + 1 / 2 ^ 50)) \<and>
   num_gt (double_distance (Fin 1) (Fin 0)) (Fin 0.75) \<and>
   \<not> farther_than (Fin 0) (Fin 0) (0.75 * (1 - 1 / 2 ^ 50)) \<and>
   \<not> num_gt (double_distance (Fin 0) (Fin 0)) (Fin 0.75) \<and>
   data (fst (runSpectralClustering circle_points 2 Circles half_draws)) =
     [\<lparr>x = Fin 1, y = Fin 0, cluster = Some 0\<rparr>, \<lparr>x = Fin 0, y = Fin 0, cluster = Some 1\<rparr>] \<and>
   data (fst (runDBSCAN circle_points (Fin (1 / 2)) Circles half_draws)) =
     [\<lparr>x = Fin 1, y = Fin 0, cluster = Some 0\<rparr>, \<lparr>x = Fin 0, y = Fin 0, cluster = Some 1\<rparr>]"
proof -
  note outer = circles_labels_by_radius
    [where pts = circle_points and n_clusters = 2 and s = half_draws and eps = "Fin (1 / 2)"
       and a = "Fin 1" and b = "Fin 0"]
  note inner = circles_labels_by_radius
    [where pts = circle_points and n_clusters = 2 and s = half_draws and eps = "Fin (1 / 2)"
       and a = "Fin 0" and b = "Fin 0"]
  have far: "farther_than (Fin 1) (Fin 0) (0.75 * (1 + 1 / 2 ^ 50))" by simp
  have near: "\<not> farther_than (Fin 0) (Fin 0) (0.75 * (1 - 1 / 2 ^ 50))" by simp
  from outer far have label_outer: "num_gt (double_distance (Fin 1) (Fin 0)) (Fin 0.75)" by blast
  from inner near have label_inner: "\<not> num_gt (double_distance (Fin 0) (Fin 0)) (Fin 0.75)" by blast
  have relabelled:
    "map (\<lambda>p. p\<lparr>cluster := Some (if num_gt (double_distance (x p) (y p)) (Fin 0.75) then 0 else 1)\<rparr>)
       circle_points =
     [\<lparr>x = Fin 1, y = Fin 0, cluster = Some 0\<rparr>, \<lparr>x = Fin 0, y = Fin 0, cluster = Some 1\<rparr>]"
    using label_outer label_inner by (simp add: circle_points_def)
  from outer have
    "data (fst (runSpectralClustering circle_points 2 Circles half_draws)) =
       [\<lparr>x = Fin 1, y = Fin 0, cluster = Some 0\<rparr>, \<lparr>x = Fin 0, y = Fin 0, cluster = Some 1\<rparr>]"
    "data (fst (runDBSCAN circle_points (Fin (1 / 2)) Circles half_draws)) =
       [\<lparr>x = Fin 1, y = Fin 0, cluster = Some 0\<rparr>, \<lparr>x = Fin 0, y = Fin 0, cluster = Some 1\<rparr>]"
    unfolding relabelled by blast+
  with far near label_outer label_inner show ?thesis by blast
qed

text \<open>
  A point of the circle of radius \<open>0.75\<close> moved outwards by less than the rounding of the
  sum of its squares: its Euclidean distance from the origin exceeds \<open>0.75\<close>, the
  distance computed is \<open>0.75\<close>, and its label is \<open>1\<close>.
\<close>

theorem circles_labels_by_radius_counterexample:
  "farther_than (Fin (3 / 4)) (Fin (1 / 2 ^ 30)) (3 / 4) \<and>
   data (fst (runSpectralClustering [rim_point] 2 Circles half_draws)) =
     [\<lparr>x = Fin (3 / 4), y = Fin (1 / 2 ^ 30), cluster = Some 1\<rparr>] \<and>
   data (fst (runDBSCAN [rim_point] (Fin (1 / 2)) Circles half_draws)) =
     [\<lparr>x = Fin (3 / 4), y = Fin (1 / 2 ^ 30), cluster = Some 1\<rparr>]"
proof -
  have "\<not> num_gt (double_distance (Fin (3 / 4)) (Fin (1 / 2 ^ 30))) (Fin 0.75)"
    unfolding double_distance_example by (simp add: num_gt_def)
  then have "radius_split [rim_point] =
      [\<lparr>x = Fin (3 / 4), y = Fin (1 / 2 ^ 30), cluster = Some 1\<rparr>]"
    unfolding radius_split_eq rim_point_def by simp
  then show ?thesis
    using farther_example
    by (simp add: runSpectralClustering_def runDBSCAN_def split_def Let_def)
qed

section \<open>The positional split\<close>

lemma set_insert_sorted: "set (insert_sorted c a xs) = insert a (set xs)"
  by (induction xs) auto

lemma set_Array_sort: "set (Array_sort c xs) = set xs"
  by (induction xs) (simp_all add: Array_sort_def set_insert_sorted)

lemma compare_x_positive:
  assumes "\<not> isNaN (x a)" "\<not> isNaN (x b)"
  shows "num_gt (compare_x a b) (Fin 0) = (\<not> x_le a b)"
  using assms
  by (cases "x a"; cases "x b") (auto simp: compare_x_def num_sub_def num_gt_def x_le_def)

lemma x_le_total:
  assumes "\<not> isNaN (x a)" "\<not> isNaN (x b)"
  shows "x_le a b \<or> x_le b a"
  using assms by (cases "x a"; cases "x b") (auto simp: x_le_def)

lemma x_le_trans:
  assumes "x_le a b" "x_le b c"
  shows "x_le a c"
  using assms by (cases "x a"; cases "x b"; cases "x c") (auto simp: x_le_def)

lemma sorted_insert_sorted:
  assumes "\<not> isNaN (x a)" "\<forall>b\<in>set bs. \<not> isNaN (x b)" "sorted_wrt x_le bs"
  shows "sorted_wrt x_le (insert_sorted compare_x a bs)"
  using assms
proof (induction bs)
  case Nil
  then show ?case by simp
next
  case (Cons b bs)
  from Cons.prems have b: "\<not> isNaN (x b)" and tail: "\<forall>c\<in>set bs. x_le b c"
    and sorted: "sorted_wrt x_le bs" and rest: "\<forall>c\<in>set bs. \<not> isNaN (x c)"
    by simp_all
  show ?case
  proof (cases "x_le a b")
    case True
    with tail have "\<forall>c\<in>set (b # bs). x_le a c" by (auto intro: x_le_trans)
    with True Cons.prems(1,3) b show ?thesis by (simp add: compare_x_positive)
  next
    case False
    with Cons.prems(1) b have "x_le b a" using x_le_total by blast
    with tail have "\<forall>c\<in>set (insert_sorted compare_x a bs). x_le b c"
      by (simp add: set_insert_sorted)
    moreover have "sorted_wrt x_le (insert_sorted compare_x a bs)"
      using Cons.prems(1) rest sorted by (rule Cons.IH)
    ultimately show ?thesis using False Cons.prems(1) b by (simp add: compare_x_positive)
  qed
qed

lemma sorted_Array_sort:
  assumes "\<forall>p\<in>set pts. \<not> isNaN (x p)"
  shows "sorted_wrt x_le (Array_sort compare_x pts)"
  using assms
proof (induction pts)
  case Nil
  then show ?case by (simp add: Array_sort_def)
next
  case (Cons a pts)
  then have "sorted_wrt x_le (Array_sort compare_x pts)" by simp
  moreover from Cons.prems have "\<not> isNaN (x a)"
    "\<forall>b\<in>set (Array_sort compare_x pts). \<not> isNaN (x b)"
    by (simp_all add: set_Array_sort)
  ultimately have "sorted_wrt x_le (insert_sorted compare_x a (Array_sort compare_x pts))"
    by (intro sorted_insert_sorted)
  then show ?case by (simp add: Array_sort_def)
qed

lemma Array_sort_of_sorted:
  assumes "\<forall>p\<in>set pts. \<not> isNaN (x p)" "sorted_wrt x_le pts"
  shows "Array_sort compare_x pts = pts"
  using assms
proof (induction pts)
  case Nil
  then show ?case by (simp add: Array_sort_def)
next
  case (Cons a pts)
  then have tail: "Array_sort compare_x pts = pts" by simp
  have "insert_sorted compare_x a pts = a # pts"
  proof (cases pts)
    case Nil
    then show ?thesis by simp
  next
    case (Cons b bs)
    with Cons.prems show ?thesis by (simp add: compare_x_positive)
  qed
  with tail show ?case by (simp add: Array_sort_def)
qed

lemma assignClustersByXSplit_eq:
  assumes "1 \<le> k"
  shows "assignClustersByXSplit pts k =
         map (\<lambda>(point, index). point\<lparr>cluster := Some (xsplit_cluster k (length pts) index)\<rparr>)
           (zip (Array_sort compare_x pts) [0..<length pts])"
proof (cases "pts = []")
  case True
  then show ?thesis by (simp add: assignClustersByXSplit_def Array_sort_def)
next
  case False
  with assms show ?thesis by (simp add: assignClustersByXSplit_def Let_def length_Array_sort)
qed

lemma map_cluster_assignClustersByXSplit:
  assumes "1 \<le> k"
  shows "map cluster (assignClustersByXSplit pts k) =
         map (\<lambda>index. Some (xsplit_cluster k (length pts) index)) [0..<length pts]"
proof (rule nth_equalityI)
  show "length (map cluster (assignClustersByXSplit pts k)) =
      length (map (\<lambda>index. Some (xsplit_cluster k (length pts) index)) [0..<length pts])"
    using assms by (simp add: length_assignClustersByXSplit)
next
  fix i assume "i < length (map cluster (assignClustersByXSplit pts k))"
  then have "i < length pts" using assms by (simp add: length_assignClustersByXSplit)
  then show "map cluster (assignClustersByXSplit pts k) ! i =
      map (\<lambda>index. Some (xsplit_cluster k (length pts) index)) [0..<length pts] ! i"
    using assms by (simp add: length_assignClustersByXSplit assignClustersByXSplit_nth)
qed

lemma map_x_assignClustersByXSplit:
  assumes "1 \<le> k"
  shows "map x (assignClustersByXSplit pts k) = map x (Array_sort compare_x pts)"
proof (rule nth_equalityI)
  show "length (map x (assignClustersByXSplit pts k)) = length (map x (Array_sort compare_x pts))"
    using assms by (simp add: length_assignClustersByXSplit length_Array_sort)
next
  fix i assume "i < length (map x (assignClustersByXSplit pts k))"
  then have "i < length pts" using assms by (simp add: length_assignClustersByXSplit)
  then show "map x (assignClustersByXSplit pts k) ! i = map x (Array_sort compare_x pts) ! i"
    using assms by (simp add: length_assignClustersByXSplit assignClustersByXSplit_nth length_Array_sort)
qed

lemma sorted_xsplit_labels:
  assumes "1 \<le> k"
  shows "sorted (map (xsplit_cluster k n) [0..<m])"
  using assms by (simp add: sorted_iff_nth_mono xsplit_cluster_mono)

lemma relabel_fixed:
  assumes "map cluster ps = map (\<lambda>index. Some (f index)) [0..<length ps]"
  shows "map (\<lambda>(point, index). point\<lparr>cluster := Some (f index)\<rparr>) (zip ps [0..<length ps]) = ps"
proof (rule nth_equalityI)
  show "length (map (\<lambda>(point, index). point\<lparr>cluster := Some (f index)\<rparr>) (zip ps [0..<length ps]))
      = length ps" by simp
next
  fix i assume "i < length (map (\<lambda>(point, index). point\<lparr>cluster := Some (f index)\<rparr>)
      (zip ps [0..<length ps]))"
  then have i: "i < length ps" by simp
  then have "map cluster ps ! i = Some (f i)" using assms by simp
  with i have "cluster (ps ! i) = Some (f i)" by simp
  with i show "map (\<lambda>(point, index). point\<lparr>cluster := Some (f index)\<rparr>) (zip ps [0..<length ps]) ! i
      = ps ! i" by simp
qed

lemma assignClustersByXSplit_sorted_by_x:
  assumes "1 \<le> k" "\<forall>p\<in>set pts. \<not> isNaN (x p)"
  shows "sorted_wrt x_le (assignClustersByXSplit pts k)"
proof -
  have by_x: "sorted_wrt x_le ps = sorted_wrt num_le (map x ps)" for ps
  proof -
    have "x_le = (\<lambda>p q. num_le (x p) (x q))" by (intro ext) (simp add: x_le_def)
    then show ?thesis by (simp add: sorted_wrt_map)
  qed
  from assms(2) have "sorted_wrt num_le (map x (Array_sort compare_x pts))"
    unfolding by_x [symmetric] by (rule sorted_Array_sort)
  with assms(1) show ?thesis by (simp only: by_x map_x_assignClustersByXSplit)
qed

lemma assignClustersByXSplit_idempotent:
  assumes "1 \<le> k" "\<forall>p\<in>set pts. \<not> isNaN (x p)"
  shows "assignClustersByXSplit (assignClustersByXSplit pts k) k = assignClustersByXSplit pts k"
proof -
  let ?out = "assignClustersByXSplit pts k"
  have len: "length ?out = length pts" using assms by (simp add: length_assignClustersByXSplit)
  have "set (map x ?out) = set (map x (Array_sort compare_x pts))"
    using assms by (simp only: map_x_assignClustersByXSplit)
  also have "\<dots> = x ` set pts" by (simp add: set_Array_sort)
  finally have img: "x ` set ?out = x ` set pts" by simp
  have numbers: "\<forall>p\<in>set ?out. \<not> isNaN (x p)"
  proof
    fix p assume "p \<in> set ?out"
    then have "x p \<in> x ` set pts" using img by blast
    then show "\<not> isNaN (x p)" using assms by auto
  qed
  have "sorted_wrt x_le ?out" using assms by (rule assignClustersByXSplit_sorted_by_x)
  with numbers have fixed: "Array_sort compare_x ?out = ?out" by (rule Array_sort_of_sorted)
  have "map cluster ?out = map (\<lambda>index. Some (xsplit_cluster k (length ?out) index)) [0..<length ?out]"
    using assms len by (simp add: map_cluster_assignClustersByXSplit)
  then have "map (\<lambda>(point, index). point\<lparr>cluster := Some (xsplit_cluster k (length ?out) index)\<rparr>)
      (zip ?out [0..<length ?out]) = ?out" by (rule relabel_fixed)
  with fixed show ?thesis using assms by (simp add: assignClustersByXSplit_eq [of k ?out])
qed

lemma mset_insert_sorted: "mset (insert_sorted c a xs) = add_mset a (mset xs)"
  by (induction xs) simp_all

lemma mset_Array_sort: "mset (Array_sort c xs) = mset xs"
  by (induction xs) (simp_all add: Array_sort_def mset_insert_sorted)

lemma unlabelled_assignClustersByXSplit:
  assumes "1 \<le> k"
  shows "map (\<lambda>p. p\<lparr>cluster := None\<rparr>) (assignClustersByXSplit pts k) =
         map (\<lambda>p. p\<lparr>cluster := None\<rparr>) (Array_sort compare_x pts)"
proof (rule nth_equalityI)
  show "length (map (\<lambda>p. p\<lparr>cluster := None\<rparr>) (assignClustersByXSplit pts k)) =
      length (map (\<lambda>p. p\<lparr>cluster := None\<rparr>) (Array_sort compare_x pts))"
    using assms by (simp add: length_assignClustersByXSplit length_Array_sort)
next
  fix i assume "i < length (map (\<lambda>p. p\<lparr>cluster := None\<rparr>) (assignClustersByXSplit pts k))"
  then have "i < length pts" using assms by (simp add: length_assignClustersByXSplit)
  then show "map (\<lambda>p. p\<lparr>cluster := None\<rparr>) (assignClustersByXSplit pts k) ! i =
      map (\<lambda>p. p\<lparr>cluster := None\<rparr>) (Array_sort compare_x pts) ! i"
    using assms by (simp add: length_assignClustersByXSplit assignClustersByXSplit_nth length_Array_sort)
qed

lemma assignClustersByXSplit_same_points:
  assumes "1 \<le> k"
  shows "mset (map (\<lambda>p. p\<lparr>cluster := None\<rparr>) (assignClustersByXSplit pts k)) =
         mset (map (\<lambda>p. p\<lparr>cluster := None\<rparr>) pts)"
proof -
  have "mset (map (\<lambda>p. p\<lparr>cluster := None\<rparr>) (Array_sort compare_x pts)) =
      image_mset (\<lambda>p. p\<lparr>cluster := None\<rparr>) (mset (Array_sort compare_x pts))"
    by simp
  also have "\<dots> = mset (map (\<lambda>p. p\<lparr>cluster := None\<rparr>) pts)"
    by (simp only: mset_Array_sort mset_map)
  finally show ?thesis using assms by (simp only: unlabelled_assignClustersByXSplit)
qed

text \<open>
  C4. For \<open>k \<ge> 1\<close> the positional split returns as many points as it was given, and
  they are the points it was given, each as often, but for their labels; every point
  of the output has a label within \<open>[0, k)\<close>; the labels, read along the output, never
  decrease; and the split applied to its own output gives the same sequence of labels.
  When no \<open>x\<close> is \<open>NaN\<close>, so that the comparison function is an order, the output is
  sorted by \<open>x\<close> ascending and the split applied to its own output returns that output
  unchanged, point by point.
\<close>

theorem assignClustersByXSplit_sorted_idempotent:
  assumes "1 \<le> k"
  shows "length (assignClustersByXSplit pts k) = length pts \<and>
         mset (map (\<lambda>p. p\<lparr>cluster := None\<rparr>) (assignClustersByXSplit pts k)) =
           mset (map (\<lambda>p. p\<lparr>cluster := None\<rparr>) pts) \<and>
         (\<forall>p\<in>set (assignClustersByXSplit pts k). label_in k p) \<and>
         (\<exists>labels. map cluster (assignClustersByXSplit pts k) = map Some labels \<and> sorted labels) \<and>
         map cluster (assignClustersByXSplit (assignClustersByXSplit pts k) k) =
           map cluster (assignClustersByXSplit pts k) \<and>
         ((\<forall>p\<in>set pts. \<not> isNaN (x p)) \<longrightarrow>
            sorted_wrt x_le (assignClustersByXSplit pts k) \<and>
            assignClustersByXSplit (assignClustersByXSplit pts k) k = assignClustersByXSplit pts k)"
proof (intro conjI impI)
  show "length (assignClustersByXSplit pts k) = length pts"
    using assms by (rule length_assignClustersByXSplit)
next
  show "mset (map (\<lambda>p. p\<lparr>cluster := None\<rparr>) (assignClustersByXSplit pts k)) =
      mset (map (\<lambda>p. p\<lparr>cluster := None\<rparr>) pts)"
    using assms by (rule assignClustersByXSplit_same_points)
next
  show "\<forall>p\<in>set (assignClustersByXSplit pts k). label_in k p"
    by (rule assignClustersByXSplit_labels)
next
  have "map cluster (assignClustersByXSplit pts k) =
      map Some (map (xsplit_cluster k (length pts)) [0..<length pts])"
    using assms by (simp add: map_cluster_assignClustersByXSplit)
  moreover have "sorted (map (xsplit_cluster k (length pts)) [0..<length pts])"
    using assms by (rule sorted_xsplit_labels)
  ultimately show "\<exists>labels. map cluster (assignClustersByXSplit pts k) = map Some labels \<and> sorted labels"
    by blast
next
  show "map cluster (assignClustersByXSplit (assignClustersByXSplit pts k) k) =
      map cluster (assignClustersByXSplit pts k)"
    using assms by (simp add: map_cluster_assignClustersByXSplit length_assignClustersByXSplit)
next
  assume "\<forall>p\<in>set pts. \<not> isNaN (x p)"
  with assms show "sorted_wrt x_le (assignClustersByXSplit pts k)"
    by (rule assignClustersByXSplit_sorted_by_x)
next
  assume "\<forall>p\<in>set pts. \<not> isNaN (x p)"
  with assms show "assignClustersByXSplit (assignClustersByXSplit pts k) k =
      assignClustersByXSplit pts k"
    by (rule assignClustersByXSplit_idempotent)
qed

lemma assignClustersByXSplit_three_points:
  "assignClustersByXSplit three_points 2 =
     [\<lparr>x = Fin 0, y = Fin 0, cluster = Some 0\<rparr>, \<lparr>x = Fin 3, y = Fin 0, cluster = Some 0\<rparr>,
      \<lparr>x = Fin 4, y = Fin 0, cluster = Some 1\<rparr>]"
  by (simp add: assignClustersByXSplit_def Array_sort_def compare_x_def xsplit_cluster_def
      num_gt_def num_sub_def upt_rec three_points_def)

theorem assignClustersByXSplit_sorted_idempotent_witness:
  "(1 :: int) \<le> 2 \<and> list_all (\<lambda>p. \<not> isNaN (x p)) three_points \<and>
   assignClustersByXSplit three_points 2 \<noteq> [] \<and>
   length (assignClustersByXSplit three_points 2) = length three_points \<and>
   mset (map (\<lambda>p. p\<lparr>cluster := None\<rparr>) (assignClustersByXSplit three_points 2)) =
     mset (map (\<lambda>p. p\<lparr>cluster := None\<rparr>) three_points) \<and>
   list_all (label_in 2) (assignClustersByXSplit three_points 2) \<and>
   map cluster (assignClustersByXSplit three_points 2) = map Some [0, 0, 1] \<and>
   sorted [0, 0, 1 :: int] \<and>
   map cluster (assignClustersByXSplit (assignClustersByXSplit three_points 2) 2) =
     map cluster (assignClustersByXSplit three_points 2) \<and>
   sorted_wrt x_le (assignClustersByXSplit three_points 2) \<and>
   map x (assignClustersByXSplit three_points 2) = [Fin 0, Fin 3, Fin 4] \<and>
   assignClustersByXSplit (assignClustersByXSplit three_points 2) 2 =
     assignClustersByXSplit three_points 2"
proof -
  have k: "(1 :: int) \<le> 2" by simp
  have numbers: "list_all (\<lambda>p. \<not> isNaN (x p)) three_points" by (simp add: three_points_def)
  note split = assignClustersByXSplit_sorted_idempotent [OF k, of three_points]
  have "assignClustersByXSplit three_points 2 \<noteq> []"
    "map cluster (assignClustersByXSplit three_points 2) = map Some [0, 0, 1]"
    "sorted [0, 0, 1 :: int]"
    "map x (assignClustersByXSplit three_points 2) = [Fin 0, Fin 3, Fin 4]"
    by (simp_all add: assignClustersByXSplit_three_points)
  with split k numbers show ?thesis unfolding list_all_iff by blast
qed

section \<open>The result aggregator\<close>

lemma toFixed_3_is_fin: "is_fin (toFixed_3 (Fin v))"
  by simp

lemma generateMockMetrics_is_fin:
  "is_fin (silhouette (fst (generateMockMetrics pts s))) \<and>
   is_fin (calinskiHarabasz (fst (generateMockMetrics pts s))) \<and>
   is_fin (daviesBouldin (fst (generateMockMetrics pts s)))"
  unfolding generateMockMetrics_eq by (simp del: toFixed_3.simps add: toFixed_3_is_fin)

lemma run_metrics_fin:
  "fin_metrics (fst (runSpectralClustering pts n datasetType s))"
  "fin_metrics (fst (runKMeans pts n datasetType s))"
  "fin_metrics (fst (runAgglomerativeClustering pts n linkage datasetType s))"
  "fin_metrics (fst (runDBSCAN pts eps datasetType s))"
  by (simp_all add: fin_metrics_def runSpectralClustering_def runKMeans_def
      runAgglomerativeClustering_def runDBSCAN_def split_def Let_def generateMockMetrics_is_fin)

lemma run_algorithm:
  "algorithm (fst (runSpectralClustering pts n datasetType s)) = ''Spectral Clustering''"
  "algorithm (fst (runKMeans pts n datasetType s)) = ''K-Means''"
  "algorithm (fst (runAgglomerativeClustering pts n linkage datasetType s)) = ''Agglomerative Clustering''"
  "algorithm (fst (runDBSCAN pts eps datasetType s)) = ''DBSCAN''"
  by (simp_all add: runSpectralClustering_def runKMeans_def
      runAgglomerativeClustering_def runDBSCAN_def split_def Let_def)

lemma Math_max_fin: "is_fin a \<Longrightarrow> is_fin b \<Longrightarrow> Math_max a b = Fin (max (fin_val a) (fin_val b))"
  by (cases a; cases b) simp_all

lemma Math_max_NInf: "is_fin b \<Longrightarrow> Math_max NInf b = b"
  by (cases b) simp_all

lemma Max_insert_max:
  "finite S \<Longrightarrow> Max (insert (max u v) S) = max u (Max (insert v S))"
  for u v :: real
  by (cases "S = {}") (simp_all add: max.assoc)

lemma foldl_max_step_fin:
  assumes "\<forall>r\<in>set rs. is_fin (f (metrics r))" "is_fin a"
  shows "foldl (\<lambda>acc r. Math_max acc (f (metrics r))) a rs =
         Fin (Max (insert (fin_val a) (set (map (\<lambda>r. fin_val (f (metrics r))) rs))))"
  using assms
proof (induction rs arbitrary: a)
  case Nil
  then show ?case by (cases a) simp_all
next
  case (Cons r rs)
  let ?a = "Math_max a (f (metrics r))"
  from Cons.prems have a: "?a = Fin (max (fin_val a) (fin_val (f (metrics r))))"
    by (simp add: Math_max_fin)
  then have "is_fin ?a" by simp
  with Cons have "foldl (\<lambda>acc r. Math_max acc (f (metrics r))) ?a rs =
      Fin (Max (insert (fin_val ?a) (set (map (\<lambda>r. fin_val (f (metrics r))) rs))))"
    by simp
  moreover have "Max (insert (fin_val ?a) (set (map (\<lambda>r. fin_val (f (metrics r))) rs))) =
      Max (insert (fin_val a) (set (map (\<lambda>r. fin_val (f (metrics r))) (r # rs))))"
    unfolding a by (simp add: Max_insert_max)
  ultimately show ?case by simp
qed


lemma max_metrics_fields:
  "silhouette (max_metrics rs) = foldl (\<lambda>acc r. Math_max acc (silhouette (metrics r))) NInf rs"
  "calinskiHarabasz (max_metrics rs) =
     foldl (\<lambda>acc r. Math_max acc (calinskiHarabasz (metrics r))) NInf rs"
  "daviesBouldin (max_metrics rs) =
     foldl (\<lambda>acc r. Math_max acc (daviesBouldin (metrics r))) NInf rs"
proof -
  have "silhouette (foldl max_step m rs) =
      foldl (\<lambda>acc r. Math_max acc (silhouette (metrics r))) (silhouette m) rs \<and>
    calinskiHarabasz (foldl max_step m rs) =
      foldl (\<lambda>acc r. Math_max acc (calinskiHarabasz (metrics r))) (calinskiHarabasz m) rs \<and>
    daviesBouldin (foldl max_step m rs) =
      foldl (\<lambda>acc r. Math_max acc (daviesBouldin (metrics r))) (daviesBouldin m) rs" for m
    by (induction rs arbitrary: m) (simp_all add: max_step_def)
  then show
    "silhouette (max_metrics rs) = foldl (\<lambda>acc r. Math_max acc (silhouette (metrics r))) NInf rs"
    "calinskiHarabasz (max_metrics rs) =
       foldl (\<lambda>acc r. Math_max acc (calinskiHarabasz (metrics r))) NInf rs"
    "daviesBouldin (max_metrics rs) =
       foldl (\<lambda>acc r. Math_max acc (daviesBouldin (metrics r))) NInf rs"
    by (simp_all add: max_metrics_def)
qed

lemma foldl_max_from_NInf:
  assumes "rs \<noteq> []" "\<forall>r\<in>set rs. is_fin (f (metrics r))"
  shows "foldl (\<lambda>acc r. Math_max acc (f (metrics r))) NInf rs =
         Fin (Max (set (map (\<lambda>r. fin_val (f (metrics r))) rs)))"
proof -
  from assms(1) obtain r rest where rs: "rs = r # rest" by (cases rs) auto
  with assms(2) have r: "is_fin (f (metrics r))" and rest: "\<forall>r\<in>set rest. is_fin (f (metrics r))"
    by simp_all
  have "foldl (\<lambda>acc r. Math_max acc (f (metrics r))) NInf rs =
      foldl (\<lambda>acc r. Math_max acc (f (metrics r))) (f (metrics r)) rest"
    using r by (simp add: rs Math_max_NInf)
  also have "\<dots> = Fin (Max (insert (fin_val (f (metrics r)))
      (set (map (\<lambda>r. fin_val (f (metrics r))) rest))))"
    using rest r by (rule foldl_max_step_fin)
  finally show ?thesis by (simp add: rs)
qed

lemma max_metrics_true_maximum:
  assumes "rs \<noteq> []" "\<forall>r\<in>set rs. fin_metrics r"
  shows "silhouette (max_metrics rs) =
           Fin (Max (set (map (\<lambda>r. fin_val (silhouette (metrics r))) rs))) \<and>
         calinskiHarabasz (max_metrics rs) =
           Fin (Max (set (map (\<lambda>r. fin_val (calinskiHarabasz (metrics r))) rs))) \<and>
         daviesBouldin (max_metrics rs) =
           Fin (Max (set (map (\<lambda>r. fin_val (daviesBouldin (metrics r))) rs)))"
  using assms
  by (simp add: max_metrics_fields foldl_max_from_NInf [OF assms(1)] fin_metrics_def)

lemma run_all_results:
  "\<exists>r1 r2 r3 r4. fst (run_all pts ps datasetType s) = [r1, r2, r3, r4] \<and>
     algorithm r1 = ''Spectral Clustering'' \<and> algorithm r2 = ''K-Means'' \<and>
     algorithm r3 = ''Agglomerative Clustering'' \<and> algorithm r4 = ''DBSCAN'' \<and>
     fin_metrics r1 \<and> fin_metrics r2 \<and> fin_metrics r3 \<and> fin_metrics r4"
  by (simp add: run_all_def split_def Let_def run_algorithm run_metrics_fin)

text \<open>
  C7. On a dataset that is not empty the aggregator produces exactly four results, those
  of the spectral, k-means, agglomerative and DBSCAN runs in this order, each with
  finite metrics, and a record of maxima in which every field is the greatest value of
  that field over the four results.
\<close>

theorem runAnalysis_four_results_and_maxima:
  assumes "pts \<noteq> []"
  shows "\<exists>results maxes.
           fst (runAnalysis pts ps datasetType s) = Loaded results maxes \<and>
           results = fst (run_all pts ps datasetType s) \<and>
           length results = 4 \<and>
           map algorithm results =
             [''Spectral Clustering'', ''K-Means'', ''Agglomerative Clustering'', ''DBSCAN''] \<and>
           list_all fin_metrics results \<and>
           silhouette maxes =
             Fin (Max (set (map (\<lambda>r. fin_val (silhouette (metrics r))) results))) \<and>
           calinskiHarabasz maxes =
             Fin (Max (set (map (\<lambda>r. fin_val (calinskiHarabasz (metrics r))) results))) \<and>
           daviesBouldin maxes =
             Fin (Max (set (map (\<lambda>r. fin_val (daviesBouldin (metrics r))) results)))"
proof -
  let ?results = "fst (run_all pts ps datasetType s)"
  from run_all_results [of pts ps datasetType s]
  obtain r1 r2 r3 r4 where rs: "?results = [r1, r2, r3, r4]"
    and names: "algorithm r1 = ''Spectral Clustering''" "algorithm r2 = ''K-Means''"
      "algorithm r3 = ''Agglomerative Clustering''" "algorithm r4 = ''DBSCAN''"
    and fin: "fin_metrics r1" "fin_metrics r2" "fin_metrics r3" "fin_metrics r4"
    by blast
  from rs fin have ne: "?results \<noteq> []" and all: "\<forall>r\<in>set ?results. fin_metrics r" by simp_all
  have out: "fst (runAnalysis pts ps datasetType s) = Loaded ?results (max_metrics ?results)"
    using assms by (simp add: runAnalysis_def split_def Let_def)
  from rs names have "map algorithm ?results =
      [''Spectral Clustering'', ''K-Means'', ''Agglomerative Clustering'', ''DBSCAN'']"
    by simp
  moreover from rs have "length ?results = 4" by simp
  moreover from all have "list_all fin_metrics ?results" by (simp add: list_all_iff)
  ultimately show ?thesis
    using out max_metrics_true_maximum [OF ne all]
    by (intro exI [of _ ?results] exI [of _ "max_metrics ?results"]) simp
qed


lemma generateMockMetrics_draws: "snd (generateMockMetrics pts s) = (\<lambda>i. s (i + 3))"
  by (simp add: generateMockMetrics_def Math_random_def split_def Let_def eval_nat_numeral)

lemma run_moons:
  "metrics (fst (runSpectralClustering pts n Moons s)) = fst (generateMockMetrics [] s)"
  "snd (runSpectralClustering pts n Moons s) = (\<lambda>i. s (i + 3))"
  "metrics (fst (runKMeans pts n Moons s)) = fst (generateMockMetrics [] s)"
  "snd (runKMeans pts n Moons s) = (\<lambda>i. s (i + 3))"
  "metrics (fst (runAgglomerativeClustering pts n linkage Moons s)) = fst (generateMockMetrics [] s)"
  "snd (runAgglomerativeClustering pts n linkage Moons s) = (\<lambda>i. s (i + 3))"
  "metrics (fst (runDBSCAN pts eps Moons s)) = fst (generateMockMetrics [] s)"
  "snd (runDBSCAN pts eps Moons s) = (\<lambda>i. s (i + 3))"
  by (simp_all add: runSpectralClustering_def runKMeans_def runAgglomerativeClustering_def
      runDBSCAN_def split_def generateMockMetrics_draws generateMockMetrics_eq
      del: toFixed_3.simps)

lemma run_all_moons_metrics:
  "map metrics (fst (run_all pts ps Moons s)) =
     [fst (generateMockMetrics [] s), fst (generateMockMetrics [] (\<lambda>i. s (i + 3))),
      fst (generateMockMetrics [] (\<lambda>i. s (i + 6))), fst (generateMockMetrics [] (\<lambda>i. s (i + 9)))]"
  by (simp add: run_all_def split_def Let_def run_moons add.assoc del: toFixed_3.simps)

lemma run_all_example_metrics:
  "map metrics (fst (run_all three_points initial_params Moons alternating_draws)) =
     [\<lparr>silhouette = Fin (- (3 / 5)), calinskiHarabasz = Fin 425, daviesBouldin = Fin (3 / 10)\<rparr>,
      \<lparr>silhouette = Fin (3 / 5), calinskiHarabasz = Fin 50, daviesBouldin = Fin (57 / 40)\<rparr>,
      \<lparr>silhouette = Fin (- (3 / 5)), calinskiHarabasz = Fin 425, daviesBouldin = Fin (3 / 10)\<rparr>,
      \<lparr>silhouette = Fin (3 / 5), calinskiHarabasz = Fin 50, daviesBouldin = Fin (57 / 40)\<rparr>]"
  unfolding run_all_moons_metrics generateMockMetrics_eq
  by (simp add: alternating_draws_value round_magnitude_3_def)

theorem runAnalysis_four_results_and_maxima_witness:
  "three_points \<noteq> [] \<and>
   (\<exists>results maxes.
      fst (runAnalysis three_points initial_params Moons alternating_draws) = Loaded results maxes \<and>
      map algorithm results =
        [''Spectral Clustering'', ''K-Means'', ''Agglomerative Clustering'', ''DBSCAN''] \<and>
      map metrics results =
        [\<lparr>silhouette = Fin (- (3 / 5)), calinskiHarabasz = Fin 425, daviesBouldin = Fin (3 / 10)\<rparr>,
         \<lparr>silhouette = Fin (3 / 5), calinskiHarabasz = Fin 50, daviesBouldin = Fin (57 / 40)\<rparr>,
         \<lparr>silhouette = Fin (- (3 / 5)), calinskiHarabasz = Fin 425, daviesBouldin = Fin (3 / 10)\<rparr>,
         \<lparr>silhouette = Fin (3 / 5), calinskiHarabasz = Fin 50, daviesBouldin = Fin (57 / 40)\<rparr>] \<and>
      maxes = \<lparr>silhouette = Fin (3 / 5), calinskiHarabasz = Fin 425, daviesBouldin = Fin (57 / 40)\<rparr>)"
proof -
  have ne: "three_points \<noteq> []" by (simp add: three_points_def)
  from runAnalysis_four_results_and_maxima [OF ne, of initial_params Moons alternating_draws]
  obtain results maxes where
    out: "fst (runAnalysis three_points initial_params Moons alternating_draws) = Loaded results maxes"
    and results: "results = fst (run_all three_points initial_params Moons alternating_draws)"
    and names: "map algorithm results =
      [''Spectral Clustering'', ''K-Means'', ''Agglomerative Clustering'', ''DBSCAN'']"
    and maxes:
      "silhouette maxes = Fin (Max (set (map (\<lambda>r. fin_val (silhouette (metrics r))) results)))"
      "calinskiHarabasz maxes =
        Fin (Max (set (map (\<lambda>r. fin_val (calinskiHarabasz (metrics r))) results)))"
      "daviesBouldin maxes =
        Fin (Max (set (map (\<lambda>r. fin_val (daviesBouldin (metrics r))) results)))"
    by (elim exE conjE) (rule that; assumption)
  let ?ms = "[\<lparr>silhouette = Fin (- (3 / 5)), calinskiHarabasz = Fin 425, daviesBouldin = Fin (3 / 10)\<rparr>,
      \<lparr>silhouette = Fin (3 / 5), calinskiHarabasz = Fin 50, daviesBouldin = Fin (57 / 40)\<rparr>,
      \<lparr>silhouette = Fin (- (3 / 5)), calinskiHarabasz = Fin 425, daviesBouldin = Fin (3 / 10)\<rparr>,
      \<lparr>silhouette = Fin (3 / 5), calinskiHarabasz = Fin 50, daviesBouldin = Fin (57 / 40)\<rparr>]"
  have ms: "map metrics results = ?ms"
    unfolding results by (rule run_all_example_metrics)
  have "map (\<lambda>r. fin_val (silhouette (metrics r))) results = map (fin_val \<circ> silhouette) ?ms"
    "map (\<lambda>r. fin_val (calinskiHarabasz (metrics r))) results = map (fin_val \<circ> calinskiHarabasz) ?ms"
    "map (\<lambda>r. fin_val (daviesBouldin (metrics r))) results = map (fin_val \<circ> daviesBouldin) ?ms"
    unfolding ms [symmetric] by simp_all
  with maxes have "silhouette maxes = Fin (3 / 5)" "calinskiHarabasz maxes = Fin 425"
    "daviesBouldin maxes = Fin (57 / 40)"
    by simp_all
  then have "maxes = \<lparr>silhouette = Fin (3 / 5), calinskiHarabasz = Fin 425, daviesBouldin = Fin (57 / 40)\<rparr>"
    by (cases maxes) simp
  with ne out names ms show ?thesis
    by (intro conjI exI [of _ results] exI [of _ maxes])
qed

section \<open>The CSV ingestor\<close>

lemma parse_row_fields:
  "parse_row dropLastColumn row =
     (if fully_numeric (row_fields dropLastColumn row) then Some (row_fields dropLastColumn row) else None)"
  by (simp add: parse_row_def row_fields_def fully_numeric_def Let_def comp_def)

lemma numeric_rows_eq:
  "map the (filter (\<lambda>row. row \<noteq> None) (map (parse_row dropLastColumn) rows)) =
   filter fully_numeric (map (row_fields dropLastColumn) rows)"
  by (induction rows) (simp_all add: parse_row_fields)

lemma parseCSV_cases:
  "parseCSV text dropLastColumn =
     (if length (nonblank_lines text) < 2 then Inl MissingRows
      else if surviving_rows text dropLastColumn = [] then Inl NoNumericRows
      else if length (hd (surviving_rows text dropLastColumn)) < 2
        then Inl (TooFewFeatures (length (hd (surviving_rows text dropLastColumn))))
      else Inr (map point_of_row (surviving_rows text dropLastColumn)))"
proof -
  have numeric: "map the (filter (\<lambda>row. row \<noteq> None)
      (map (parse_row dropLastColumn) (tl (nonblank_lines text)))) =
      surviving_rows text dropLastColumn"
    by (simp only: numeric_rows_eq surviving_rows_def)
  have points: "map (\<lambda>row. \<lparr>x = array_get row 0, y = array_get row 1, cluster = None\<rparr>) rows =
      map point_of_row rows" for rows
    by (simp add: point_of_row_def)
  show ?thesis
    unfolding parseCSV_def Let_def nonblank_lines_def [symmetric] numeric points
    by (simp add: hd_conv_nth)
qed

lemma surviving_rows_rectangular_csv:
  "nonblank_lines rectangular_csv = [''h1,h2'', ''1.0,2.0'', ''3.0,4.0'']"
  "surviving_rows rectangular_csv False = [[Fin 1, Fin 2], [Fin 3, Fin 4]]"
  "surviving_rows rectangular_csv True = [[Fin 1], [Fin 3]]"
  by code_simp+

lemma surviving_rows_ragged_csv:
  "surviving_rows ragged_csv False = [[Fin 1, Fin 2], [Fin 3]]"
  by code_simp


text \<open>
  C1. For every text and either value of the flag, \<open>parseCSV\<close> fails exactly in three
  cases, tried in this order: fewer than two lines that are not blank (error
  \<open>MissingRows\<close>); no data row, after the header, whose fields, the last one dropped
  when the flag is set, are all numbers (error \<open>NoNumericRows\<close>); the first such row
  has fewer than two fields (error \<open>TooFewFeatures\<close>, which reports the width of that
  row). Each error carries the message of the code. In every other case it returns one
  point per surviving row, in the order of the input, with \<open>x\<close> the row's first field
  and \<open>y\<close> its second, and \<open>undefined\<close> for a field that a later, shorter row does not
  have.
\<close>

theorem parseCSV_contract:
  "parseCSV text dropLastColumn =
     (if length (nonblank_lines text) < 2 then Inl MissingRows
      else if surviving_rows text dropLastColumn = [] then Inl NoNumericRows
      else if length (hd (surviving_rows text dropLastColumn)) < 2
        then Inl (TooFewFeatures (length (hd (surviving_rows text dropLastColumn))))
      else Inr (map point_of_row (surviving_rows text dropLastColumn))) \<and>
   error_message MissingRows = ''CSV file must contain a header and at least one data row.'' \<and>
   error_message NoNumericRows = ''No valid numeric data rows found in the CSV file.'' \<and>
   error_message (TooFewFeatures n) =
     ''The processed data has only '' @ show_nat n @
     '' feature(s). At least two are required for 2D visualization.'' \<and>
   point_of_row row =
     \<lparr>x = (if 0 < length row then row ! 0 else Undefined),
      y = (if 1 < length row then row ! 1 else Undefined), cluster = None\<rparr>"
  by (simp add: parseCSV_cases point_of_row_def array_get_def)

theorem parseCSV_contract_witness:
  "parseCSV rectangular_csv False =
     Inr [\<lparr>x = Fin 1, y = Fin 2, cluster = None\<rparr>, \<lparr>x = Fin 3, y = Fin 4, cluster = None\<rparr>] \<and>
   parseCSV rectangular_csv True = Inl (TooFewFeatures 1) \<and>
   error_message (TooFewFeatures 1) =
     ''The processed data has only 1 feature(s). At least two are required for 2D visualization.'' \<and>
   point_of_row [Fin 1, Fin 2] = \<lparr>x = Fin 1, y = Fin 2, cluster = None\<rparr> \<and>
   point_of_row [Fin 3] = \<lparr>x = Fin 3, y = Undefined, cluster = None\<rparr>"
proof -
  note at_false = parseCSV_contract [of rectangular_csv False 1 "[Fin 1, Fin 2]"]
  note at_true = parseCSV_contract [of rectangular_csv True 1 "[Fin 3]"]
  have "show_nat 1 = ''1''" by code_simp
  with at_false at_true show ?thesis
    by (simp add: surviving_rows_rectangular_csv point_of_row_def array_get_def)
qed

text \<open>
  A text whose second data row has one field, none once the last field is dropped:
  the row survives with width \<open>0\<close>, below \<open>2\<close>, and parsing succeeds all the same; the
  point of that row has neither field of the row as \<open>x\<close> or \<open>y\<close>.
\<close>

theorem parseCSV_contract_counterexample:
  "surviving_rows narrow_row_csv True = [[Fin 1, Fin 2], []] \<and>
   length (surviving_rows narrow_row_csv True ! 1) < 2 \<and>
   parseCSV narrow_row_csv True =
     Inr [\<lparr>x = Fin 1, y = Fin 2, cluster = None\<rparr>,
          \<lparr>x = Undefined, y = Undefined, cluster = None\<rparr>]"
proof -
  have rows: "surviving_rows narrow_row_csv True = [[Fin 1, Fin 2], []]"
    by code_simp
  have "parseCSV narrow_row_csv True =
     Inr [\<lparr>x = Fin 1, y = Fin 2, cluster = None\<rparr>,
          \<lparr>x = Undefined, y = Undefined, cluster = None\<rparr>]"
    by code_simp
  with rows show ?thesis by simp
qed

text \<open>A no-break space before a field is white space for \<open>trim\<close> and \<open>parseFloat\<close>.\<close>

lemma parseCSV_no_break_space:
  "parseCSV no_break_space_csv False = Inr [\<lparr>x = Fin 1, y = Fin 2, cluster = None\<rparr>]"
  by code_simp

lemma parseCSV_header_only: "parseCSV ''h1,h2'' dropLastColumn = Inl MissingRows"
  by (cases dropLastColumn) (simp; code_simp)+

lemma parseCSV_no_numeric_row:
  "parseCSV (''h1,h2'' @ [CHR 0x0A] @ ''a,2.0'' @ [CHR 0x0A] @ ''3.0,b'') False = Inl NoNumericRows"
  by code_simp

text \<open>
  C10. Only the first surviving row is checked for its width. When it has two fields
  or more and a later surviving row has exactly one, \<open>parseCSV\<close> succeeds, and the point
  of that later row has the row's only field as \<open>x\<close> and \<open>undefined\<close>, the read past the
  end of the row, as \<open>y\<close>.
\<close>

theorem parseCSV_later_short_row:
  assumes "surviving_rows text dropLastColumn \<noteq> []"
    and "2 \<le> length (hd (surviving_rows text dropLastColumn))"
    and "0 < i" "i < length (surviving_rows text dropLastColumn)"
    and "length (surviving_rows text dropLastColumn ! i) = 1"
  shows "\<exists>points. parseCSV text dropLastColumn = Inr points \<and>
           length points = length (surviving_rows text dropLastColumn) \<and>
           x (points ! i) = surviving_rows text dropLastColumn ! i ! 0 \<and>
           y (points ! i) = Undefined"
proof -
  let ?rows = "surviving_rows text dropLastColumn"
  have "tl (nonblank_lines text) \<noteq> []"
    using assms(1) by (auto simp: surviving_rows_def)
  then have "\<not> length (nonblank_lines text) < 2"
    by (cases "nonblank_lines text") auto
  with assms(1,2) have "parseCSV text dropLastColumn = Inr (map point_of_row ?rows)"
    by (simp add: parseCSV_cases)
  moreover have "x (map point_of_row ?rows ! i) = ?rows ! i ! 0"
    "y (map point_of_row ?rows ! i) = Undefined"
    using assms(4,5) by (simp_all add: point_of_row_def array_get_def)
  ultimately show ?thesis by simp
qed


theorem parseCSV_later_short_row_witness:
  "surviving_rows ragged_csv False \<noteq> [] \<and>
   2 \<le> length (hd (surviving_rows ragged_csv False)) \<and>
   (0 :: nat) < 1 \<and> 1 < length (surviving_rows ragged_csv False) \<and>
   length (surviving_rows ragged_csv False ! 1) = 1 \<and>
   (\<exists>points. parseCSV ragged_csv False = Inr points \<and>
      length points = length (surviving_rows ragged_csv False) \<and>
      x (points ! 1) = surviving_rows ragged_csv False ! 1 ! 0 \<and>
      y (points ! 1) = Undefined) \<and>
   parseCSV ragged_csv False =
     Inr [\<lparr>x = Fin 1, y = Fin 2, cluster = None\<rparr>, \<lparr>x = Fin 3, y = Undefined, cluster = None\<rparr>]"
proof -
  have pre: "surviving_rows ragged_csv False \<noteq> []"
    "2 \<le> length (hd (surviving_rows ragged_csv False))"
    "(0 :: nat) < 1" "1 < length (surviving_rows ragged_csv False)"
    "length (surviving_rows ragged_csv False ! 1) = 1"
    by (simp_all add: surviving_rows_ragged_csv)
  have "parseCSV ragged_csv False =
     Inr [\<lparr>x = Fin 1, y = Fin 2, cluster = None\<rparr>, \<lparr>x = Fin 3, y = Undefined, cluster = None\<rparr>]"
    by code_simp
  with pre parseCSV_later_short_row [OF pre] show ?thesis by blast
qed

section \<open>The dataset generator\<close>

lemma map_draws_all:
  assumes "\<And>a s. a \<in> set xs \<Longrightarrow> P (fst (f a s))"
  shows "\<forall>b\<in>set (fst (map_draws f xs s)). P b"
  using assms
  by (induction xs arbitrary: s) (auto simp: split_def Let_def)

lemma jitter_fin: "jitter r (Fin noise) = Fin ((r - 0.5) * noise * 2)"
  by (simp add: jitter_def num_sub_def)

lemma moons_top_point_finite:
  assumes "n_samples_out \<noteq> 1"
  shows "finite_point (fst (moons_top_point n_samples_out (Fin noise) i s))"
  using assms
  by (simp add: moons_top_point_def finite_point_def split_def Let_def jitter_fin)

lemma moons_bottom_point_finite:
  assumes "n_samples_in \<noteq> 1"
  shows "finite_point (fst (moons_bottom_point n_samples_in (Fin noise) i s))"
  using assms
  by (simp add: moons_bottom_point_def finite_point_def split_def Let_def jitter_fin num_sub_def)

lemma blobs_center_finite: "finite_point (fst (blobs_center j s))"
  by (simp add: blobs_center_def finite_point_def split_def Let_def num_sub_def)

lemma blobs_point_finite:
  assumes "finite_point (centerPoints ! (i mod centers))"
  shows "finite_point (fst (blobs_point centerPoints centers (Fin cluster_std) i s))"
proof -
  from assms obtain a b where "x (centerPoints ! (i mod centers)) = Fin a"
    "y (centerPoints ! (i mod centers)) = Fin b"
    by (cases "x (centerPoints ! (i mod centers))"; cases "y (centerPoints ! (i mod centers))")
      (auto simp: finite_point_def)
  then show ?thesis
    by (simp add: blobs_point_def finite_point_def split_def Let_def num_sub_def)
qed

lemma circles_point_finite:
  "finite_point (fst (circles_point n_samples (Fin factor) (Fin noise) i s))"
  by (simp add: circles_point_def finite_point_def split_def Let_def jitter_fin)

lemma length_generateDataset:
  assumes "datasetType \<noteq> Custom" "0 \<le> n_samples"
  shows "length (fst (generateDataset datasetType n_samples s)) = nat n_samples"
proof (cases datasetType)
  case Moons
  have "nat (n_samples div 2) + nat (n_samples - n_samples div 2) = nat n_samples"
    using assms(2) by linarith
  with Moons show ?thesis
    by (simp add: generateMoons_def split_def Let_def length_map_draws)
next
  case Blobs
  then show ?thesis by (simp add: generateBlobs_def split_def Let_def length_map_draws)
next
  case Circles
  then show ?thesis by (simp add: generateCircles_def split_def Let_def length_map_draws)
next
  case Custom
  with assms show ?thesis by simp
qed

lemma generateMoons_finite:
  assumes "4 \<le> n_samples"
  shows "\<forall>p\<in>set (fst (generateMoons n_samples s)). finite_point p"
proof -
  from assms have out: "n_samples div 2 \<noteq> 1" and inn: "n_samples - n_samples div 2 \<noteq> 1"
    by linarith+
  have "\<forall>p\<in>set (fst (map_draws (moons_top_point (n_samples div 2) (Fin 0.08)) xs s')).
      finite_point p" for xs s'
    by (rule map_draws_all) (rule moons_top_point_finite [OF out])
  moreover have "\<forall>p\<in>set (fst (map_draws
      (moons_bottom_point (n_samples - n_samples div 2) (Fin 0.08)) xs s')). finite_point p"
    for xs s'
    by (rule map_draws_all) (rule moons_bottom_point_finite [OF inn])
  ultimately show ?thesis
    by (auto simp: generateMoons_def split_def Let_def)
qed

lemma generateBlobs_finite: "\<forall>p\<in>set (fst (generateBlobs n_samples s)). finite_point p"
proof -
  let ?centers = "fst (map_draws blobs_center [0..<3] s)"
  have len: "length ?centers = 3" by (simp add: length_map_draws)
  have "\<forall>c\<in>set ?centers. finite_point c"
    by (rule map_draws_all) (rule blobs_center_finite)
  with len have "finite_point (?centers ! (i mod 3))" for i by simp
  then have "\<forall>p\<in>set (fst (map_draws (blobs_point ?centers 3 (Fin 0.5)) xs s')). finite_point p"
    for xs s'
    by (intro map_draws_all blobs_point_finite)
  then show ?thesis by (simp add: generateBlobs_def split_def Let_def)
qed

lemma generateCircles_finite: "\<forall>p\<in>set (fst (generateCircles n_samples s)). finite_point p"
  unfolding generateCircles_def Let_def
  by (rule map_draws_all) (rule circles_point_finite)

text \<open>
  What the generator does guarantee: for the three synthetic dataset types it returns
  exactly the requested number of points, and every coordinate is a finite number,
  provided the moons are asked for at least four samples.
\<close>

theorem generateDataset_count_and_finite:
  assumes "datasetType \<noteq> Custom" "0 \<le> n_samples" "datasetType = Moons \<longrightarrow> 4 \<le> n_samples"
  shows "length (fst (generateDataset datasetType n_samples s)) = nat n_samples \<and>
         (\<forall>p\<in>set (fst (generateDataset datasetType n_samples s)). finite_point p)"
  using assms length_generateDataset [of datasetType n_samples s]
    generateMoons_finite [of n_samples s] generateBlobs_finite [of n_samples s]
    generateCircles_finite [of n_samples s]
  by (cases datasetType) simp_all

text \<open>
  C2. The moons generator divides the index by the size of the arc less one. A call for
  two samples makes two arcs of one point each, so both angles are \<open>0 / 0\<close>: the call
  returns two points whose coordinates are all \<open>NaN\<close>, whatever the draws.
\<close>

theorem generateDataset_moons_two_samples:
  "fst (generateDataset Moons 2 s) =
     [\<lparr>x = NaN, y = NaN, cluster = None\<rparr>, \<lparr>x = NaN, y = NaN, cluster = None\<rparr>]"
  by (simp add: generateMoons_def moons_top_point_def moons_bottom_point_def Math_random_def
      jitter_def num_sub_def Let_def split_def)

lemma generateDataset_moons_three_samples:
  "length (fst (generateDataset Moons 3 s)) = 3 \<and>
   x (fst (generateDataset Moons 3 s) ! 0) = NaN \<and> y (fst (generateDataset Moons 3 s) ! 0) = NaN"
  by (simp add: generateMoons_def moons_top_point_def moons_bottom_point_def Math_random_def
      jitter_def num_sub_def Let_def split_def upt_rec)


theorem generateDataset_count_and_finite_witness:
  "length (fst (generateDataset Moons 4 half_draws)) = 4 \<and>
   list_all finite_point (fst (generateDataset Moons 4 half_draws)) \<and>
   length (fst (generateDataset Circles 2 half_draws)) = 2 \<and>
   list_all finite_point (fst (generateDataset Circles 2 half_draws))"
  using generateDataset_count_and_finite [of Moons 4 half_draws]
    generateDataset_count_and_finite [of Circles 2 half_draws]
  by (simp add: list_all_iff)

section \<open>The runs leave their input as it was\<close>

lemma unchanged_refl: "unchanged h h"
  by (simp add: unchanged_def)

lemma unchanged_lengths:
  assumes "unchanged h h'"
  shows "length (objects h) \<le> length (objects h')" "length (arrays h) \<le> length (arrays h')"
proof -
  from assms have "length (take (length (objects h)) (objects h')) = length (objects h)"
    and "length (take (length (arrays h)) (arrays h')) = length (arrays h)"
    by (simp_all add: unchanged_def)
  then show "length (objects h) \<le> length (objects h')" "length (arrays h) \<le> length (arrays h')"
    by simp_all
qed

lemma take_prefix_trans:
  assumes "take (length xs) ys = xs" "take (length ys) zs = ys"
  shows "take (length xs) zs = xs"
proof -
  from assms(1) have "length (take (length xs) ys) = length xs" by simp
  then have le: "length xs \<le> length ys" by simp
  have "take (length xs) zs = take (length xs) (take (length ys) zs)"
    using le by (simp add: min_absorb1)
  with assms show ?thesis by simp
qed

lemma unchanged_trans:
  assumes "unchanged h h1" "unchanged h1 h2"
  shows "unchanged h h2"
  using assms unfolding unchanged_def by (blast intro: take_prefix_trans)

lemma unchanged_nth:
  assumes "unchanged h h'"
  shows "r < length (objects h) \<Longrightarrow> objects h' ! r = objects h ! r"
    and "a < length (arrays h) \<Longrightarrow> arrays h' ! a = arrays h ! a"
proof -
  assume "r < length (objects h)"
  then have "take (length (objects h)) (objects h') ! r = objects h' ! r" by simp
  with assms show "objects h' ! r = objects h ! r" by (simp add: unchanged_def)
next
  assume "a < length (arrays h)"
  then have "take (length (arrays h)) (arrays h') ! a = arrays h' ! a" by simp
  with assms show "arrays h' ! a = arrays h ! a" by (simp add: unchanged_def)
qed

lemma unchanged_view:
  assumes "unchanged h h'" "well_formed h a"
  shows "view h' a = view h a"
  using assms
  by (simp add: view_def well_formed_def list_all_iff unchanged_nth)

lemma unchanged_new_object: "unchanged h (snd (new_object p h))"
  by (simp add: unchanged_def new_object_def)

lemma unchanged_new_array: "unchanged h (snd (new_array refs h))"
  by (simp add: unchanged_def new_array_def)

lemma unchanged_write_object:
  assumes "unchanged h h1" "length (objects h) \<le> r"
  shows "unchanged h (h1\<lparr>objects := (objects h1)[r := v]\<rparr>)"
  using assms by (simp add: unchanged_def)

lemma unchanged_write_array:
  assumes "unchanged h h1" "length (arrays h) \<le> a"
  shows "unchanged h (h1\<lparr>arrays := (arrays h1)[a := v]\<rparr>)"
  using assms by (simp add: unchanged_def)

lemma map_new_spec:
  "fst (map_new f rs index h) = [length (objects h)..<length (objects h) + length rs] \<and>
   arrays (snd (map_new f rs index h)) = arrays h \<and>
   length (objects (snd (map_new f rs index h))) = length (objects h) + length rs \<and>
   take (length (objects h)) (objects (snd (map_new f rs index h))) = objects h"
proof (induction rs arbitrary: index h)
  case Nil
  then show ?case by simp
next
  case (Cons r rs)
  let ?h1 = "snd (new_object (f h (objects h ! r) index) h)"
  let ?n = "length (objects h)"
  have h1: "objects ?h1 = objects h @ [f h (objects h ! r) index]" "arrays ?h1 = arrays h"
    "fst (new_object (f h (objects h ! r) index) h) = ?n"
    by (simp_all add: new_object_def)
  note ih = Cons.IH [of "Suc index" ?h1]
  have step: "map_new f (r # rs) index h =
      (?n # fst (map_new f rs (Suc index) ?h1), snd (map_new f rs (Suc index) ?h1))"
    by (simp add: split_def Let_def new_object_def)
  have "take ?n (objects (snd (map_new f rs (Suc index) ?h1))) =
      take ?n (take (length (objects ?h1)) (objects (snd (map_new f rs (Suc index) ?h1))))"
    by (simp add: h1 min_absorb1)
  also have "\<dots> = take ?n (objects ?h1)" using ih by simp
  also have "\<dots> = objects h" by (simp add: h1)
  finally have "take ?n (objects (snd (map_new f rs (Suc index) ?h1))) = objects h" .
  moreover have "[?n..<?n + length (r # rs)] = ?n # [Suc ?n..<Suc ?n + length rs]"
    by (subst upt_rec) simp
  ultimately show ?case
    using ih unfolding step by (simp add: h1 del: upt_Suc)
qed

lemma Array_map_spec:
  "fst (Array_map f a h) = length (arrays h) \<and>
   arrays (snd (Array_map f a h)) =
     arrays h @ [[length (objects h)..<length (objects h) + length (arrays h ! a)]] \<and>
   length (objects (snd (Array_map f a h))) = length (objects h) + length (arrays h ! a) \<and>
   take (length (objects h)) (objects (snd (Array_map f a h))) = objects h"
  using map_new_spec [of f "arrays h ! a" 0 h]
  by (simp add: Array_map_def split_def Let_def new_array_def)

lemma Array_map_unchanged: "unchanged h (snd (Array_map f a h))"
  using Array_map_spec [of f a h] by (simp add: unchanged_def)

lemma Array_map_fresh: "fresh_result h (snd (Array_map f a h)) (fst (Array_map f a h))"
  using Array_map_spec [of f a h] by (simp add: fresh_result_def list_all_iff)

lemma fresh_result_mono:
  assumes "unchanged h h1" "fresh_result h1 h2 a"
  shows "fresh_result h h2 a"
  using assms unchanged_lengths [OF assms(1)]
  by (auto simp: fresh_result_def list_all_iff)

lemma new_array_empty_fresh: "fresh_result h (snd (new_array [] h)) (fst (new_array [] h))"
  by (simp add: fresh_result_def new_array_def)


lemma new_array_empty_frame:
  "unchanged h (snd (new_array [] h)) \<and> fresh_result h (snd (new_array [] h)) (fst (new_array [] h))"
  by (simp add: unchanged_new_array new_array_empty_fresh)

lemma Array_map_frame:
  assumes "unchanged h h1"
  shows "unchanged h (snd (Array_map f a h1)) \<and>
         fresh_result h (snd (Array_map f a h1)) (fst (Array_map f a h1))"
  using assms Array_map_unchanged [of h1 f a] Array_map_fresh [of h1 f a]
  by (blast intro: unchanged_trans fresh_result_mono)

lemma store_half_index_split_frame:
  "unchanged h (snd (store_half_index_split dat h)) \<and>
   fresh_result h (snd (store_half_index_split dat h)) (fst (store_half_index_split dat h))"
  unfolding store_half_index_split_def Let_def
  by (rule Array_map_frame) (rule unchanged_refl)

lemma store_radius_split_frame:
  "unchanged h (snd (store_radius_split dat h)) \<and>
   fresh_result h (snd (store_radius_split dat h)) (fst (store_radius_split dat h))"
  unfolding store_radius_split_def Let_def
  by (rule Array_map_frame) (rule unchanged_refl)

lemma store_assignClustersByXSplit_frame:
  "unchanged h (snd (store_assignClustersByXSplit dat k h)) \<and>
   fresh_result h (snd (store_assignClustersByXSplit dat k h))
     (fst (store_assignClustersByXSplit dat k h))"
proof (cases "length (arrays h ! dat) = 0 \<or> k \<le> 0")
  case True
  then show ?thesis
    using new_array_empty_frame [of h] by (simp add: store_assignClustersByXSplit_def)
next
  case False
  let ?h1 = "snd (new_array (arrays h ! dat) h)"
  let ?sortedData = "fst (new_array (arrays h ! dat) h)"
  let ?h2 = "?h1\<lparr>arrays := (arrays ?h1)[?sortedData :=
      Array_sort (\<lambda>a b. num_sub (x (objects ?h1 ! a)) (x (objects ?h1 ! b)))
        (arrays ?h1 ! ?sortedData)]\<rparr>"
  have "unchanged h ?h1" by (rule unchanged_new_array)
  moreover have "length (arrays h) \<le> ?sortedData" by (simp add: new_array_def)
  ultimately have "unchanged h ?h2" by (rule unchanged_write_array)
  then have "unchanged h (snd (Array_map f ?sortedData ?h2)) \<and>
      fresh_result h (snd (Array_map f ?sortedData ?h2)) (fst (Array_map f ?sortedData ?h2))" for f
    by (rule Array_map_frame)
  with False show ?thesis
    by (simp add: store_assignClustersByXSplit_def split_def Let_def)
qed

lemma store_assignClustersByCentroids_frame:
  "unchanged h (snd (fst (store_assignClustersByCentroids dat k h s))) \<and>
   fresh_result h (snd (fst (store_assignClustersByCentroids dat k h s)))
     (fst (fst (store_assignClustersByCentroids dat k h s)))"
proof (cases "length (arrays h ! dat) = 0 \<or> k \<le> 0")
  case True
  then show ?thesis
    using new_array_empty_frame [of h] by (simp add: store_assignClustersByCentroids_def)
next
  case False
  have "unchanged h (snd (new_array refs h))" for refs by (rule unchanged_new_array)
  then have "unchanged h (snd (Array_map f dat (snd (new_array refs h)))) \<and>
      fresh_result h (snd (Array_map f dat (snd (new_array refs h))))
        (fst (Array_map f dat (snd (new_array refs h))))" for f refs
    by (rule Array_map_frame)
  with False show ?thesis
    by (simp add: store_assignClustersByCentroids_def split_def Let_def)
qed

lemma store_mark_noise_frame:
  assumes "unchanged h h1" "fresh_result h h1 cd" "n = 0 \<or> arrays h1 ! cd \<noteq> []"
  shows "unchanged h (snd (fst (store_mark_noise n cd h1 s))) \<and>
         fresh_result h (snd (fst (store_mark_noise n cd h1 s))) cd \<and>
         fst (fst (store_mark_noise n cd h1 s)) = cd"
  using assms
proof (induction n arbitrary: h1 s)
  case 0
  then show ?case by simp
next
  case (Suc n)
  let ?s1 = "snd (Math_random s)"
  let ?len = "length (arrays h1 ! cd)"
  let ?i = "nat \<lfloor>fst (Math_random s) * real ?len\<rfloor>"
  let ?target = "arrays h1 ! cd ! ?i"
  let ?h2 = "h1\<lparr>objects := (objects h1)[?target := (objects h1 ! ?target)\<lparr>cluster := Some (- 1)\<rparr>]\<rparr>"
  from Suc.prems(3) have "0 < ?len" by simp
  then have i: "?i < ?len" by (rule random_index_in_range)
  with Suc.prems(2) have target: "length (objects h) \<le> ?target"
    by (simp add: fresh_result_def list_all_iff)
  with Suc.prems(1) have "unchanged h ?h2" by (rule unchanged_write_object)
  moreover from Suc.prems(2) have "fresh_result h ?h2 cd" by (simp add: fresh_result_def)
  moreover from Suc.prems(3) have "n = 0 \<or> arrays ?h2 ! cd \<noteq> []" by simp
  ultimately have "unchanged h (snd (fst (store_mark_noise n cd ?h2 ?s1))) \<and>
      fresh_result h (snd (fst (store_mark_noise n cd ?h2 ?s1))) cd \<and>
      fst (fst (store_mark_noise n cd ?h2 ?s1)) = cd"
    by (rule Suc.IH)
  then show ?case by (simp add: split_def Let_def)
qed

lemma store_runDBSCAN_noise_frame:
  assumes "dat < length (arrays h)"
  shows "unchanged h (snd (fst (store_mark_noise (nat \<lfloor>real (length (arrays h ! dat)) * 0.05\<rfloor>)
       (fst (fst (store_assignClustersByCentroids dat 3 h s)))
       (snd (fst (store_assignClustersByCentroids dat 3 h s))) s'))) \<and>
   fresh_result h (snd (fst (store_mark_noise (nat \<lfloor>real (length (arrays h ! dat)) * 0.05\<rfloor>)
       (fst (fst (store_assignClustersByCentroids dat 3 h s)))
       (snd (fst (store_assignClustersByCentroids dat 3 h s))) s')))
     (fst (fst (store_mark_noise (nat \<lfloor>real (length (arrays h ! dat)) * 0.05\<rfloor>)
       (fst (fst (store_assignClustersByCentroids dat 3 h s)))
       (snd (fst (store_assignClustersByCentroids dat 3 h s))) s')))"
proof -
  let ?n = "nat \<lfloor>real (length (arrays h ! dat)) * 0.05\<rfloor>"
  let ?cd = "fst (fst (store_assignClustersByCentroids dat 3 h s))"
  let ?h0 = "snd (fst (store_assignClustersByCentroids dat 3 h s))"
  have frame: "unchanged h ?h0" "fresh_result h ?h0 ?cd"
    using store_assignClustersByCentroids_frame [of h dat 3 s] by simp_all
  have "?n = 0 \<or> arrays ?h0 ! ?cd \<noteq> []"
  proof (cases "length (arrays h ! dat) = 0")
    case True
    then show ?thesis by simp
  next
    case False
    then have "arrays ?h0 ! ?cd =
        [length (objects h)..<length (objects h) + length (arrays h ! dat)]"
      using assms Array_map_spec [of _ dat "snd (new_array _ h)"]
      by (simp add: store_assignClustersByCentroids_def split_def Let_def new_array_def
          nth_append)
    with False show ?thesis by simp
  qed
  with frame show ?thesis
    using store_mark_noise_frame [of h ?h0 ?cd ?n s'] by simp
qed


lemma leaves_inputI:
  assumes "well_formed h dat" "unchanged h h'" "fresh_result h h' (data res)"
  shows "leaves_input h dat (res, h')"
proof -
  from assms(1) have dat: "dat < length (arrays h)" by (simp add: well_formed_def)
  with assms(2) have same: "arrays h' ! dat = arrays h ! dat" by (simp add: unchanged_nth)
  from assms(2) have "length (objects h) \<le> length (objects h')"
    "length (arrays h) \<le> length (arrays h')" by (rule unchanged_lengths)+
  with assms(1) same have "well_formed h' dat"
    by (auto simp: well_formed_def list_all_iff)
  with assms same show ?thesis
    by (simp add: leaves_input_def unchanged_view)
qed

text \<open>
  C9. None of the four runs changes its input. Started on any store with an input
  array that exists, each run ends in a store where every object and every array of
  the start is as it was: the input list has its elements, and every input point its
  \<open>x\<close>, \<open>y\<close> and \<open>cluster\<close>. The array of the result, and every point in it, is new,
  each position with an object of its own; the noise loop of the DBSCAN mock writes
  to these new objects only. The input is again a well-formed input afterwards, so the
  same dataset can be given to the runs one after another, in any order.
\<close>

theorem runs_leave_input_unchanged:
  assumes "well_formed h dat"
  shows "leaves_input h dat (fst (store_runSpectralClustering dat n_clusters datasetType h s)) \<and>
         leaves_input h dat (fst (store_runKMeans dat n_clusters datasetType h s)) \<and>
         leaves_input h dat
           (fst (store_runAgglomerativeClustering dat n_clusters linkage datasetType h s)) \<and>
         leaves_input h dat (fst (store_runDBSCAN dat eps datasetType h s))"
proof (intro conjI)
  from assms have dat: "dat < length (arrays h)" by (simp add: well_formed_def)
  note half = store_half_index_split_frame [of h dat]
  note radius = store_radius_split_frame [of h dat]
  note xsplit = store_assignClustersByXSplit_frame [of h dat n_clusters]
  note centroids = store_assignClustersByCentroids_frame [of h dat n_clusters s]
  note noise = store_runDBSCAN_noise_frame [OF dat, of s]
  show "leaves_input h dat (fst (store_runSpectralClustering dat n_clusters datasetType h s))"
    using half radius centroids
    by (cases datasetType)
      (simp_all add: store_runSpectralClustering_def split_def Let_def leaves_inputI [OF assms])
  show "leaves_input h dat (fst (store_runKMeans dat n_clusters datasetType h s))"
    using xsplit centroids
    by (cases datasetType)
      (simp_all add: store_runKMeans_def split_def Let_def leaves_inputI [OF assms])
  show "leaves_input h dat
      (fst (store_runAgglomerativeClustering dat n_clusters linkage datasetType h s))"
    using xsplit centroids
    by (cases datasetType)
      (simp_all add: store_runAgglomerativeClustering_def split_def Let_def
        leaves_inputI [OF assms])
  show "leaves_input h dat (fst (store_runDBSCAN dat eps datasetType h s))"
    using half radius noise
    by (cases datasetType)
      (simp_all add: store_runDBSCAN_def split_def Let_def leaves_inputI [OF assms])
qed


lemma store_runKMeans_three_points:
  "snd (fst (store_runKMeans 0 2 Moons three_points_store alternating_draws)) =
     \<lparr>objects = three_points @
        [\<lparr>x = Fin 0, y = Fin 0, cluster = Some 0\<rparr>, \<lparr>x = Fin 3, y = Fin 0, cluster = Some 0\<rparr>,
         \<lparr>x = Fin 4, y = Fin 0, cluster = Some 1\<rparr>],
      arrays = [[0, 1, 2], [1, 0, 2], [3, 4, 5]]\<rparr>"
  "data (fst (fst (store_runKMeans 0 2 Moons three_points_store alternating_draws))) = 2"
  by (simp_all add: store_runKMeans_def store_assignClustersByXSplit_def Array_map_def
      new_array_def new_object_def Array_sort_def num_gt_def num_sub_def xsplit_cluster_def
      three_points_store_def three_points_def split_def Let_def)

theorem runs_leave_input_unchanged_witness:
  "well_formed three_points_store 0 \<and>
   leaves_input three_points_store 0
     (fst (store_runSpectralClustering 0 2 Moons three_points_store alternating_draws)) \<and>
   leaves_input three_points_store 0
     (fst (store_runKMeans 0 2 Moons three_points_store alternating_draws)) \<and>
   leaves_input three_points_store 0
     (fst (store_runAgglomerativeClustering 0 2 ward Moons three_points_store alternating_draws)) \<and>
   leaves_input three_points_store 0
     (fst (store_runDBSCAN 0 (Fin (1 / 2)) Moons three_points_store alternating_draws)) \<and>
   view (snd (fst (store_runKMeans 0 2 Moons three_points_store alternating_draws))) 0 =
     three_points \<and>
   view (snd (fst (store_runKMeans 0 2 Moons three_points_store alternating_draws)))
     (data (fst (fst (store_runKMeans 0 2 Moons three_points_store alternating_draws)))) =
     [\<lparr>x = Fin 0, y = Fin 0, cluster = Some 0\<rparr>, \<lparr>x = Fin 3, y = Fin 0, cluster = Some 0\<rparr>,
      \<lparr>x = Fin 4, y = Fin 0, cluster = Some 1\<rparr>]"
proof -
  have wf: "well_formed three_points_store 0"
    by (simp add: well_formed_def three_points_store_def three_points_def)
  note frame = runs_leave_input_unchanged [OF wf, of 2 Moons alternating_draws ward "Fin (1 / 2)"]
  have "view (snd (fst (store_runKMeans 0 2 Moons three_points_store alternating_draws))) 0 =
      three_points"
    "view (snd (fst (store_runKMeans 0 2 Moons three_points_store alternating_draws)))
      (data (fst (fst (store_runKMeans 0 2 Moons three_points_store alternating_draws)))) =
      [\<lparr>x = Fin 0, y = Fin 0, cluster = Some 0\<rparr>, \<lparr>x = Fin 3, y = Fin 0, cluster = Some 0\<rparr>,
       \<lparr>x = Fin 4, y = Fin 0, cluster = Some 1\<rparr>]"
    unfolding store_runKMeans_three_points
    by (simp_all add: view_def three_points_def)
  with wf frame show ?thesis by simp
qed

section \<open>The runs on the store compute what the runs on values compute\<close>

lemma map_new_objects:
  assumes "list_all (\<lambda>r. r < length (objects h0)) rs" "unchanged h0 h"
    and "\<And>h1 p i. unchanged h h1 \<Longrightarrow> f h1 p i = g p i"
  shows "objects (snd (map_new f rs index h)) =
         objects h @ map (\<lambda>(r, i). g (objects h0 ! r) i) (zip rs [index..<index + length rs])"
  using assms
proof (induction rs arbitrary: index h)
  case Nil
  then show ?case by simp
next
  case (Cons r rs)
  let ?p = "f h (objects h ! r) index"
  let ?h1 = "snd (new_object ?p h)"
  from Cons.prems(1) have r: "r < length (objects h0)" and rs: "list_all (\<lambda>r. r < length (objects h0)) rs"
    by simp_all
  from Cons.prems(2) r have "objects h ! r = objects h0 ! r" by (rule unchanged_nth)
  moreover have "f h p index = g p index" for p
    by (rule Cons.prems(3)) (rule unchanged_refl)
  ultimately have p: "?p = g (objects h0 ! r) index" by simp
  have h_h1: "unchanged h ?h1" by (rule unchanged_new_object)
  with Cons.prems(2) have "unchanged h0 ?h1" by (rule unchanged_trans)
  moreover have "f h2 q i = g q i" if "unchanged ?h1 h2" for h2 q i
  proof -
    from h_h1 that have "unchanged h h2" by (rule unchanged_trans)
    then show ?thesis by (rule Cons.prems(3))
  qed
  ultimately have "objects (snd (map_new f rs (Suc index) ?h1)) =
      objects ?h1 @ map (\<lambda>(r, i). g (objects h0 ! r) i) (zip rs [Suc index..<Suc index + length rs])"
    using rs by (intro Cons.IH)
  moreover have "[index..<index + length (r # rs)] = index # [Suc index..<Suc index + length rs]"
    by (subst upt_rec) simp
  moreover have "objects ?h1 = objects h @ [?p]" by (simp add: new_object_def)
  ultimately show ?case
    by (simp add: split_def Let_def p del: upt_Suc)
qed

lemma view_Array_map:
  assumes "well_formed h0 a" "unchanged h0 h"
    and "\<And>h1 p i. unchanged h h1 \<Longrightarrow> f h1 p i = g p i"
  shows "view (snd (Array_map f a h)) (fst (Array_map f a h)) =
         map (\<lambda>(p, i). g p i) (zip (view h0 a) [0..<length (view h0 a)])"
proof -
  from assms(1) have a: "a < length (arrays h0)"
    and rs: "list_all (\<lambda>r. r < length (objects h0)) (arrays h0 ! a)"
    by (simp_all add: well_formed_def)
  from assms(2) a have same: "arrays h ! a = arrays h0 ! a" by (rule unchanged_nth)
  let ?rs = "arrays h0 ! a"
  let ?n = "length (objects h)"
  let ?new = "map (\<lambda>(r, i). g (objects h0 ! r) i) (zip ?rs [0..<0 + length ?rs])"
  have objs: "objects (snd (map_new f ?rs 0 h)) = objects h @ ?new"
    using rs assms(2,3) by (rule map_new_objects)
  have refs: "fst (map_new f ?rs 0 h) = [?n..<?n + length ?rs]"
    and arrs: "arrays (snd (map_new f ?rs 0 h)) = arrays h"
    using map_new_spec [of f ?rs 0 h] by simp_all
  have "view (snd (Array_map f a h)) (fst (Array_map f a h)) =
      map (\<lambda>r. (objects h @ ?new) ! r) [?n..<?n + length ?rs]"
    by (simp add: view_def Array_map_def split_def Let_def new_array_def same objs refs arrs)
  also have "\<dots> = ?new"
    by (rule nth_equalityI) (simp_all add: nth_append)
  also have "\<dots> = map (\<lambda>(p, i). g p i) (zip (view h0 a) [0..<length (view h0 a)])"
    by (rule nth_equalityI) (simp_all add: view_def)
  finally show ?thesis .
qed


lemma length_view: "length (view h a) = length (arrays h ! a)"
  by (simp add: view_def)

lemma view_store_half_index_split:
  assumes "well_formed h dat"
  shows "view (snd (store_half_index_split dat h)) (fst (store_half_index_split dat h)) =
         half_index_split (view h dat)"
  unfolding store_half_index_split_def half_index_split_def Let_def length_view [symmetric]
  by (rule view_Array_map [OF assms unchanged_refl]) simp

lemma view_store_radius_split:
  assumes "well_formed h dat"
  shows "view (snd (store_radius_split dat h)) (fst (store_radius_split dat h)) =
         radius_split (view h dat)"
proof -
  let ?g = "\<lambda>p. let dist = round_double (Math_sqrt (round_double
        (num_add (round_double (num_mul (x p) (x p))) (round_double (num_mul (y p) (y p))))))
      in p\<lparr>cluster := Some (if num_gt dist (Fin 0.75) then 0 else 1)\<rparr>"
  have "view (snd (store_radius_split dat h)) (fst (store_radius_split dat h)) =
      map (\<lambda>(p, i). ?g p) (zip (view h dat) [0..<length (view h dat)])"
    unfolding store_radius_split_def Let_def
    by (rule view_Array_map [OF assms unchanged_refl]) simp
  also have "\<dots> = map ?g (view h dat)"
    by (rule nth_equalityI) simp_all
  finally show ?thesis by (simp add: radius_split_def Let_def)
qed

lemma map_insert_sorted:
  "map f (insert_sorted (\<lambda>a b. c (f a) (f b)) r rs) = insert_sorted c (f r) (map f rs)"
  by (induction rs) simp_all

lemma map_Array_sort:
  "map f (Array_sort (\<lambda>a b. c (f a) (f b)) rs) = Array_sort c (map f rs)"
  by (induction rs) (simp_all add: Array_sort_def map_insert_sorted)

lemma view_store_assignClustersByXSplit:
  assumes "well_formed h dat"
  shows "view (snd (store_assignClustersByXSplit dat k h))
           (fst (store_assignClustersByXSplit dat k h)) =
         assignClustersByXSplit (view h dat) k"
proof (cases "length (arrays h ! dat) = 0 \<or> k \<le> 0")
  case True
  then show ?thesis
    by (simp add: store_assignClustersByXSplit_def assignClustersByXSplit_def length_view
        view_def new_array_def)
next
  case False
  let ?refs = "arrays h ! dat"
  let ?sa = "length (arrays h)"
  let ?sorted = "Array_sort (\<lambda>a b. num_sub (x (objects h ! a)) (x (objects h ! b))) ?refs"
  let ?h2 = "h\<lparr>arrays := arrays h @ [?sorted]\<rparr>"
  from assms have valid: "list_all (\<lambda>r. r < length (objects h)) ?refs"
    by (simp add: well_formed_def)
  then have wf2: "well_formed ?h2 ?sa"
    by (simp add: well_formed_def list_all_iff set_Array_sort)
  have "map (\<lambda>r. objects h ! r) ?sorted = Array_sort compare_x (view h dat)"
    using map_Array_sort [of "\<lambda>r. objects h ! r" compare_x ?refs]
    by (simp add: compare_x_def view_def)
  then have view2: "view ?h2 ?sa = Array_sort compare_x (view h dat)"
    by (simp add: view_def)
  have h2: "snd (new_array ?refs h)\<lparr>arrays := (arrays (snd (new_array ?refs h)))
      [fst (new_array ?refs h) :=
        Array_sort (\<lambda>a b. num_sub (x (objects (snd (new_array ?refs h)) ! a))
                              (x (objects (snd (new_array ?refs h)) ! b)))
          (arrays (snd (new_array ?refs h)) ! fst (new_array ?refs h))]\<rparr> = ?h2"
    by (simp add: new_array_def)
  have total: "length (arrays ?h2 ! ?sa) = length (view h dat)"
    by (simp add: length_Array_sort length_view)
  let ?g = "\<lambda>point index. point\<lparr>cluster := Some (xsplit_cluster k (length (view h dat)) index)\<rparr>"
  have "view (snd (Array_map (\<lambda>h'. ?g) ?sa ?h2)) (fst (Array_map (\<lambda>h'. ?g) ?sa ?h2)) =
      map (\<lambda>(p, i). ?g p i) (zip (view ?h2 ?sa) [0..<length (view ?h2 ?sa)])"
    by (rule view_Array_map [OF wf2 unchanged_refl]) simp
  also have "\<dots> = assignClustersByXSplit (view h dat) k"
    using False
    by (simp add: view2 assignClustersByXSplit_def Let_def length_Array_sort length_view)
  finally show ?thesis
    using False
    unfolding store_assignClustersByXSplit_def Let_def split_def h2 total
    by (simp add: new_array_def length_Array_sort length_view)
qed


lemma pick_means_map:
  assumes "xs \<noteq> []"
  shows "pick_means (map f xs) j s = (map f (fst (pick_means xs j s)), snd (pick_means xs j s))"
proof (induction j arbitrary: s)
  case 0
  then show ?case by simp
next
  case (Suc j)
  from assms have "0 < length xs" by simp
  then have "nat \<lfloor>fst (Math_random s) * real (length xs)\<rfloor> < length xs"
    by (rule random_index_in_range)
  with Suc show ?case by (simp add: split_def Let_def)
qed

lemma set_pick_means:
  assumes "xs \<noteq> []"
  shows "set (fst (pick_means xs j s)) \<subseteq> set xs"
proof (induction j arbitrary: s)
  case 0
  then show ?case by simp
next
  case (Suc j)
  from assms have "0 < length xs" by simp
  then have "nat \<lfloor>fst (Math_random s) * real (length xs)\<rfloor> < length xs"
    by (rule random_index_in_range)
  then have "xs ! nat \<lfloor>fst (Math_random s) * real (length xs)\<rfloor> \<in> set xs" by simp
  with Suc show ?case by (simp add: split_def Let_def)
qed

lemma store_assignClustersByCentroids_refines:
  assumes "well_formed h dat"
  shows "view (snd (fst (store_assignClustersByCentroids dat k h s)))
           (fst (fst (store_assignClustersByCentroids dat k h s))) =
         fst (assignClustersByCentroids (view h dat) k s) \<and>
         snd (store_assignClustersByCentroids dat k h s) =
         snd (assignClustersByCentroids (view h dat) k s)"
proof (cases "length (arrays h ! dat) = 0 \<or> k \<le> 0")
  case True
  then show ?thesis
    by (simp add: store_assignClustersByCentroids_def assignClustersByCentroids_def
        length_view view_def new_array_def)
next
  case False
  let ?refs = "arrays h ! dat"
  let ?mean_refs = "fst (pick_means ?refs (nat k) s)"
  let ?means = "length (arrays h)"
  let ?h1 = "h\<lparr>arrays := arrays h @ [?mean_refs]\<rparr>"
  from False have ne: "?refs \<noteq> []" by simp
  from assms have valid: "list_all (\<lambda>r. r < length (objects h)) ?refs"
    by (simp add: well_formed_def)
  have h_h1: "unchanged h ?h1" by (simp add: unchanged_def)
  have picked: "pick_means (view h dat) (nat k) s =
      (map (\<lambda>r. objects h ! r) ?mean_refs, snd (pick_means ?refs (nat k) s))"
    unfolding view_def by (rule pick_means_map [OF ne])
  let ?g = "\<lambda>point (index :: nat). closest_mean (map (\<lambda>r. objects h ! r) ?mean_refs) point"
  let ?f = "\<lambda>h' point (index :: nat).
      closest_mean (map (\<lambda>r. objects h' ! r) (arrays h' ! ?means)) point"
  have stable: "?f h2 p i = ?g p i" if "unchanged ?h1 h2" for h2 p i
  proof -
    from that have "arrays h2 ! ?means = arrays ?h1 ! ?means"
      by (rule unchanged_nth) simp
    then have arr: "arrays h2 ! ?means = ?mean_refs" by simp
    from h_h1 that have h_h2: "unchanged h h2" by (rule unchanged_trans)
    have same: "objects h2 ! r = objects h ! r" if "r \<in> set ?mean_refs" for r
    proof -
      from that set_pick_means [OF ne, of "nat k" s] have "r \<in> set ?refs" by blast
      with valid have "r < length (objects h)" by (simp add: list_all_iff)
      with h_h2 show ?thesis by (rule unchanged_nth)
    qed
    have "map (\<lambda>r. objects h2 ! r) ?mean_refs = map (\<lambda>r. objects h ! r) ?mean_refs"
      by (rule map_cong [OF refl]) (rule same)
    then show ?thesis by (simp only: arr)
  qed
  have "view (snd (Array_map ?f dat ?h1)) (fst (Array_map ?f dat ?h1)) =
      map (\<lambda>(p, i). ?g p i) (zip (view h dat) [0..<length (view h dat)])"
    using assms h_h1 stable by (rule view_Array_map)
  also have "\<dots> = map (closest_mean (map (\<lambda>r. objects h ! r) ?mean_refs)) (view h dat)"
    by (rule nth_equalityI) simp_all
  finally have "view (snd (Array_map ?f dat ?h1)) (fst (Array_map ?f dat ?h1)) =
      fst (assignClustersByCentroids (view h dat) k s)"
    using False by (simp add: assignClustersByCentroids_def length_view picked)
  moreover have "snd (assignClustersByCentroids (view h dat) k s) =
      snd (pick_means ?refs (nat k) s)"
    using False by (simp add: assignClustersByCentroids_def length_view picked)
  ultimately show ?thesis
    using False
    by (simp add: store_assignClustersByCentroids_def split_def Let_def new_array_def)
qed

lemma view_write_object:
  assumes "distinct (arrays h ! cd)" "i < length (arrays h ! cd)"
    and "arrays h ! cd ! i < length (objects h)"
  shows "view (h\<lparr>objects := (objects h)[arrays h ! cd ! i := v]\<rparr>) cd = (view h cd)[i := v]"
proof (rule nth_equalityI)
  show "length (view (h\<lparr>objects := (objects h)[arrays h ! cd ! i := v]\<rparr>) cd) =
      length ((view h cd)[i := v])"
    by (simp add: view_def)
next
  fix j
  assume "j < length (view (h\<lparr>objects := (objects h)[arrays h ! cd ! i := v]\<rparr>) cd)"
  then have j: "j < length (arrays h ! cd)" by (simp add: view_def)
  show "view (h\<lparr>objects := (objects h)[arrays h ! cd ! i := v]\<rparr>) cd ! j = (view h cd)[i := v] ! j"
  proof (cases "j = i")
    case True
    with j assms(3) show ?thesis by (simp add: view_def)
  next
    case False
    with assms j have "arrays h ! cd ! j \<noteq> arrays h ! cd ! i"
      by (simp add: nth_eq_iff_index_eq)
    with False j show ?thesis by (simp add: view_def)
  qed
qed


lemma store_mark_noise_refines:
  assumes "distinct (arrays h ! cd)" "list_all (\<lambda>r. r < length (objects h)) (arrays h ! cd)"
    and "n = 0 \<or> arrays h ! cd \<noteq> []"
  shows "view (snd (fst (store_mark_noise n cd h s))) cd = fst (mark_noise n (view h cd) s) \<and>
         snd (store_mark_noise n cd h s) = snd (mark_noise n (view h cd) s) \<and>
         fst (fst (store_mark_noise n cd h s)) = cd"
  using assms
proof (induction n arbitrary: h s)
  case 0
  then show ?case by simp
next
  case (Suc n)
  let ?s1 = "snd (Math_random s)"
  let ?len = "length (arrays h ! cd)"
  let ?i = "nat \<lfloor>fst (Math_random s) * real ?len\<rfloor>"
  let ?target = "arrays h ! cd ! ?i"
  let ?v = "(objects h ! ?target)\<lparr>cluster := Some (- 1)\<rparr>"
  let ?h2 = "h\<lparr>objects := (objects h)[?target := ?v]\<rparr>"
  from Suc.prems(3) have "0 < ?len" by simp
  then have i: "?i < ?len" by (rule random_index_in_range)
  with Suc.prems(2) have target: "?target < length (objects h)" by (simp add: list_all_iff)
  have view2: "view ?h2 cd = (view h cd)[?i := ?v]"
    using Suc.prems(1) i target by (rule view_write_object)
  have v: "?v = (view h cd ! ?i)\<lparr>cluster := Some (- 1)\<rparr>"
    using i by (simp add: view_def)
  have "distinct (arrays ?h2 ! cd)" "list_all (\<lambda>r. r < length (objects ?h2)) (arrays ?h2 ! cd)"
    "n = 0 \<or> arrays ?h2 ! cd \<noteq> []"
    using Suc.prems by simp_all
  then have "view (snd (fst (store_mark_noise n cd ?h2 ?s1))) cd =
      fst (mark_noise n (view ?h2 cd) ?s1) \<and>
      snd (store_mark_noise n cd ?h2 ?s1) = snd (mark_noise n (view ?h2 cd) ?s1) \<and>
      fst (fst (store_mark_noise n cd ?h2 ?s1)) = cd"
    by (rule Suc.IH)
  moreover have "store_mark_noise (Suc n) cd h s = store_mark_noise n cd ?h2 ?s1"
    by (simp add: split_def Let_def)
  moreover have "mark_noise (Suc n) (view h cd) s = mark_noise n (view ?h2 cd) ?s1"
  proof -
    have "view ?h2 cd = (view h cd)[?i := (view h cd ! ?i)\<lparr>cluster := Some (- 1)\<rparr>]"
      by (subst view2) (use i in \<open>simp add: view_def\<close>)
    moreover have "mark_noise (Suc n) (view h cd) s =
        mark_noise n ((view h cd)[?i := (view h cd ! ?i)\<lparr>cluster := Some (- 1)\<rparr>]) ?s1"
      by (simp add: split_def Let_def length_view)
    ultimately show ?thesis by (simp only:)
  qed
  ultimately show ?case by (simp only:)
qed

lemma store_noise_refines:
  assumes "well_formed h dat" "n = 0 \<or> arrays h ! dat \<noteq> []"
  shows "view (snd (fst (store_mark_noise n
             (fst (fst (store_assignClustersByCentroids dat 3 h s)))
             (snd (fst (store_assignClustersByCentroids dat 3 h s)))
             (snd (store_assignClustersByCentroids dat 3 h s)))))
           (fst (fst (store_mark_noise n
             (fst (fst (store_assignClustersByCentroids dat 3 h s)))
             (snd (fst (store_assignClustersByCentroids dat 3 h s)))
             (snd (store_assignClustersByCentroids dat 3 h s))))) =
         fst (mark_noise n (fst (assignClustersByCentroids (view h dat) 3 s))
                (snd (assignClustersByCentroids (view h dat) 3 s))) \<and>
         snd (store_mark_noise n
             (fst (fst (store_assignClustersByCentroids dat 3 h s)))
             (snd (fst (store_assignClustersByCentroids dat 3 h s)))
             (snd (store_assignClustersByCentroids dat 3 h s))) =
         snd (mark_noise n (fst (assignClustersByCentroids (view h dat) 3 s))
                (snd (assignClustersByCentroids (view h dat) 3 s)))"
proof -
  let ?cd = "fst (fst (store_assignClustersByCentroids dat 3 h s))"
  let ?h0 = "snd (fst (store_assignClustersByCentroids dat 3 h s))"
  let ?s0 = "snd (store_assignClustersByCentroids dat 3 h s)"
  note refines = store_assignClustersByCentroids_refines [OF assms(1), of 3 s]
  from refines have view0: "view ?h0 ?cd = fst (assignClustersByCentroids (view h dat) 3 s)"
    and s0: "?s0 = snd (assignClustersByCentroids (view h dat) 3 s)" by simp_all
  have "fresh_result h ?h0 ?cd"
    using store_assignClustersByCentroids_frame [of h dat 3 s] by simp
  then have distinct: "distinct (arrays ?h0 ! ?cd)"
    and valid: "list_all (\<lambda>r. r < length (objects ?h0)) (arrays ?h0 ! ?cd)"
    by (simp_all add: fresh_result_def list_all_iff)
  have "length (arrays ?h0 ! ?cd) = length (view ?h0 ?cd)" by (simp add: length_view)
  also have "\<dots> = length (arrays h ! dat)"
    unfolding view0 by (simp add: length_assignClustersByCentroids_3 length_view)
  finally have "n = 0 \<or> arrays ?h0 ! ?cd \<noteq> []" using assms(2) by auto
  with distinct valid have "view (snd (fst (store_mark_noise n ?cd ?h0 ?s0))) ?cd =
      fst (mark_noise n (view ?h0 ?cd) ?s0) \<and>
      snd (store_mark_noise n ?cd ?h0 ?s0) = snd (mark_noise n (view ?h0 ?cd) ?s0) \<and>
      fst (fst (store_mark_noise n ?cd ?h0 ?s0)) = ?cd"
    by (rule store_mark_noise_refines)
  then show ?thesis unfolding view0 s0 by simp
qed


lemma generateMockMetrics_any: "generateMockMetrics pts1 s = generateMockMetrics pts2 s"
  by (simp add: generateMockMetrics_def)

lemma store_dbscan_noise_refines:
  assumes "well_formed h dat"
  shows "view (snd (fst (store_mark_noise (nat \<lfloor>real (length (arrays h ! dat)) * 0.05\<rfloor>)
             (fst (fst (store_assignClustersByCentroids dat 3 h s)))
             (snd (fst (store_assignClustersByCentroids dat 3 h s)))
             (snd (store_assignClustersByCentroids dat 3 h s)))))
           (fst (fst (store_mark_noise (nat \<lfloor>real (length (arrays h ! dat)) * 0.05\<rfloor>)
             (fst (fst (store_assignClustersByCentroids dat 3 h s)))
             (snd (fst (store_assignClustersByCentroids dat 3 h s)))
             (snd (store_assignClustersByCentroids dat 3 h s))))) =
         fst (mark_noise (nat \<lfloor>real (length (view h dat)) * 0.05\<rfloor>)
                (fst (assignClustersByCentroids (view h dat) 3 s))
                (snd (assignClustersByCentroids (view h dat) 3 s))) \<and>
         snd (store_mark_noise (nat \<lfloor>real (length (arrays h ! dat)) * 0.05\<rfloor>)
             (fst (fst (store_assignClustersByCentroids dat 3 h s)))
             (snd (fst (store_assignClustersByCentroids dat 3 h s)))
             (snd (store_assignClustersByCentroids dat 3 h s))) =
         snd (mark_noise (nat \<lfloor>real (length (view h dat)) * 0.05\<rfloor>)
                (fst (assignClustersByCentroids (view h dat) 3 s))
                (snd (assignClustersByCentroids (view h dat) 3 s)))"
proof -
  have "nat \<lfloor>real (length (arrays h ! dat)) * 0.05\<rfloor> = 0 \<or> arrays h ! dat \<noteq> []"
    by (cases "arrays h ! dat") simp_all
  with assms show ?thesis
    unfolding length_view by (rule store_noise_refines)
qed

text \<open>
  The two models agree. Started on a store with a well-formed input array, each run on
  the store returns the result that the run on values returns on the points of that
  array, and leaves the same draws: the properties proved of the runs on values hold
  of the arrays the runs on the store build.
\<close>

theorem store_runs_compute_the_runs:
  assumes "well_formed h dat"
  shows "same_result (snd (fst (store_runSpectralClustering dat n_clusters datasetType h s)))
           (fst (fst (store_runSpectralClustering dat n_clusters datasetType h s)))
           (fst (runSpectralClustering (view h dat) n_clusters datasetType s)) \<and>
         snd (store_runSpectralClustering dat n_clusters datasetType h s) =
           snd (runSpectralClustering (view h dat) n_clusters datasetType s) \<and>
         same_result (snd (fst (store_runKMeans dat n_clusters datasetType h s)))
           (fst (fst (store_runKMeans dat n_clusters datasetType h s)))
           (fst (runKMeans (view h dat) n_clusters datasetType s)) \<and>
         snd (store_runKMeans dat n_clusters datasetType h s) =
           snd (runKMeans (view h dat) n_clusters datasetType s) \<and>
         same_result
           (snd (fst (store_runAgglomerativeClustering dat n_clusters linkage datasetType h s)))
           (fst (fst (store_runAgglomerativeClustering dat n_clusters linkage datasetType h s)))
           (fst (runAgglomerativeClustering (view h dat) n_clusters linkage datasetType s)) \<and>
         snd (store_runAgglomerativeClustering dat n_clusters linkage datasetType h s) =
           snd (runAgglomerativeClustering (view h dat) n_clusters linkage datasetType s) \<and>
         same_result (snd (fst (store_runDBSCAN dat eps datasetType h s)))
           (fst (fst (store_runDBSCAN dat eps datasetType h s)))
           (fst (runDBSCAN (view h dat) eps datasetType s)) \<and>
         snd (store_runDBSCAN dat eps datasetType h s) =
           snd (runDBSCAN (view h dat) eps datasetType s)"
proof -
  note half = view_store_half_index_split [OF assms]
  note radius = view_store_radius_split [OF assms]
  note xsplit = view_store_assignClustersByXSplit [OF assms, of n_clusters]
  note centroids = store_assignClustersByCentroids_refines [OF assms, of n_clusters s]
  note noise = store_dbscan_noise_refines [OF assms, of s]
  have spectral:
    "same_result (snd (fst (store_runSpectralClustering dat n_clusters datasetType h s)))
       (fst (fst (store_runSpectralClustering dat n_clusters datasetType h s)))
       (fst (runSpectralClustering (view h dat) n_clusters datasetType s)) \<and>
     snd (store_runSpectralClustering dat n_clusters datasetType h s) =
       snd (runSpectralClustering (view h dat) n_clusters datasetType s)"
    using half radius centroids
    by (cases datasetType)
      (simp_all add: same_result_def store_runSpectralClustering_def runSpectralClustering_def
        split_def Let_def generateMockMetrics_any [of "view _ _" _ "[]"]
        generateMockMetrics_any [of "half_index_split _" _ "[]"]
        generateMockMetrics_any [of "radius_split _" _ "[]"]
        generateMockMetrics_any [of "fst (assignClustersByCentroids _ _ _)" _ "[]"])
  have kmeans:
    "same_result (snd (fst (store_runKMeans dat n_clusters datasetType h s)))
       (fst (fst (store_runKMeans dat n_clusters datasetType h s)))
       (fst (runKMeans (view h dat) n_clusters datasetType s)) \<and>
     snd (store_runKMeans dat n_clusters datasetType h s) =
       snd (runKMeans (view h dat) n_clusters datasetType s)"
    using xsplit centroids
    by (cases datasetType)
      (simp_all add: same_result_def store_runKMeans_def runKMeans_def
        split_def Let_def generateMockMetrics_any [of "view _ _" _ "[]"]
        generateMockMetrics_any [of "assignClustersByXSplit _ _" _ "[]"]
        generateMockMetrics_any [of "fst (assignClustersByCentroids _ _ _)" _ "[]"])
  have agglomerative:
    "same_result
       (snd (fst (store_runAgglomerativeClustering dat n_clusters linkage datasetType h s)))
       (fst (fst (store_runAgglomerativeClustering dat n_clusters linkage datasetType h s)))
       (fst (runAgglomerativeClustering (view h dat) n_clusters linkage datasetType s)) \<and>
     snd (store_runAgglomerativeClustering dat n_clusters linkage datasetType h s) =
       snd (runAgglomerativeClustering (view h dat) n_clusters linkage datasetType s)"
    using xsplit centroids
    by (cases datasetType)
      (simp_all add: same_result_def store_runAgglomerativeClustering_def
        runAgglomerativeClustering_def
        split_def Let_def generateMockMetrics_any [of "view _ _" _ "[]"]
        generateMockMetrics_any [of "assignClustersByXSplit _ _" _ "[]"]
        generateMockMetrics_any [of "fst (assignClustersByCentroids _ _ _)" _ "[]"])
  have dbscan:
    "same_result (snd (fst (store_runDBSCAN dat eps datasetType h s)))
       (fst (fst (store_runDBSCAN dat eps datasetType h s)))
       (fst (runDBSCAN (view h dat) eps datasetType s)) \<and>
     snd (store_runDBSCAN dat eps datasetType h s) =
       snd (runDBSCAN (view h dat) eps datasetType s)"
    using half radius noise
    by (cases datasetType)
      (simp_all add: same_result_def store_runDBSCAN_def runDBSCAN_def
        split_def Let_def generateMockMetrics_any [of "view _ _" _ "[]"]
        generateMockMetrics_any [of "half_index_split _" _ "[]"]
        generateMockMetrics_any [of "radius_split _" _ "[]"]
        generateMockMetrics_any [of "fst (mark_noise _ _ _)" _ "[]"])
  from spectral kmeans agglomerative dbscan show ?thesis by (simp only:)
qed

end
